(* ===== verification/Prelude.thy ===== *)
theory Prelude
  imports Main "HOL-Library.Word" "HOL-Library.Multiset" "HOL-Library.List_Lexorder"
begin

text \<open>
  Shared vocabulary of the development: the scalar types of the server (UUIDs, timestamps,
  byte strings), the pieces of Rust's standard library that several components use
  (\<open>str::trim\<close>, \<open>str::strip_prefix\<close>, \<open>str::parse::<u32>\<close>, \<open>Iterator::find\<close>), rows kept in
  lists with a key column, and the facts on them that the component theories rely on.
\<close>

section \<open>Collections of rewrite rules\<close>

named_theorems run_simps \<open>equations that execute programs sequentially\<close>
named_theorems ok_intros \<open>rules that establish a rely/guarantee judgement\<close>
named_theorems guar_intros \<open>rules that establish that every step of a program is a G-step\<close>
named_theorems prog_defs \<open>definitions to unfold when a program is run on a concrete input\<close>
named_theorems table_defs \<open>definitions of the table operations\<close>

declare Let_def [simp]

section \<open>Scalar types\<close>

text \<open>
  A \<open>Uuid\<close> is 128 bits, compared as an unsigned big-endian number. A \<open>String\<close> is its UTF-8
  byte sequence (an Isabelle \<open>char\<close> is one byte), so \<open>length\<close> is Rust's \<open>str::len\<close>. A
  timestamp counts microseconds from the Unix epoch, the resolution of a \<open>TIMESTAMPTZ\<close> column.
  \<open>i64\<close> columns are \<open>int\<close>; the statements
  that compute a new value check the range where Postgres does.
\<close>

type_synonym uuid = "128 word"
type_synonym bytes = "8 word list"
type_synonym timestamp = int
type_synonym u32 = "32 word"
type_synonym i64 = int

definition i64_max :: int where
  "i64_max = 9223372036854775807"

section \<open>Rust strings\<close>

text \<open>
  \<open>str::trim().is_empty()\<close>: the string consists of characters with the Unicode property
  White\_Space only. Their UTF-8 encodings are matched byte by byte.
\<close>

definition ascii_ws :: "nat \<Rightarrow> bool" where
  "ascii_ws b \<longleftrightarrow> (9 \<le> b \<and> b \<le> 13) \<or> b = 32"

definition ws2 :: "nat \<Rightarrow> nat \<Rightarrow> bool" where
  "ws2 a b \<longleftrightarrow> a = 194 \<and> (b = 133 \<or> b = 160)"

definition ws3 :: "nat \<Rightarrow> nat \<Rightarrow> nat \<Rightarrow> bool" where
  "ws3 a b c \<longleftrightarrow>
     (a = 225 \<and> b = 154 \<and> c = 128)
   \<or> (a = 226 \<and> b = 128 \<and> ((128 \<le> c \<and> c \<le> 138) \<or> c = 168 \<or> c = 169 \<or> c = 175))
   \<or> (a = 226 \<and> b = 129 \<and> c = 159)
   \<or> (a = 227 \<and> b = 128 \<and> c = 128)"

fun trim_is_empty_bytes :: "nat list \<Rightarrow> bool" where
  "trim_is_empty_bytes [] = True"
| "trim_is_empty_bytes [a] = ascii_ws a"
| "trim_is_empty_bytes [a, b] = (if ascii_ws a then trim_is_empty_bytes [b] else ws2 a b)"
| "trim_is_empty_bytes (a # b # c # rest) =
     (if ascii_ws a then trim_is_empty_bytes (b # c # rest)
      else if ws2 a b then trim_is_empty_bytes (c # rest)
      else ws3 a b c \<and> trim_is_empty_bytes rest)"

definition trim_is_empty :: "string \<Rightarrow> bool" where
  "trim_is_empty s = trim_is_empty_bytes (map of_char s)"

fun strip_prefix :: "string \<Rightarrow> string \<Rightarrow> string option" where
  "strip_prefix [] s = Some s"
| "strip_prefix (p # ps) [] = None"
| "strip_prefix (p # ps) (c # cs) = (if p = c then strip_prefix ps cs else None)"

text \<open>
  \<open>str::parse::<u32>\<close>: an optional leading plus sign, then one or more decimal digits whose
  value fits into 32 bits.
\<close>

definition digit_val :: "char \<Rightarrow> nat option" where
  "digit_val c = (let n = of_char c :: nat in if 48 \<le> n \<and> n \<le> 57 then Some (n - 48) else None)"

fun parse_digits :: "nat \<Rightarrow> string \<Rightarrow> nat option" where
  "parse_digits acc [] = Some acc"
| "parse_digits acc (c # cs) =
     (case digit_val c of
        None \<Rightarrow> None
      | Some d \<Rightarrow> (let acc' = 10 * acc + d in if acc' < 2 ^ 32 then parse_digits acc' cs else None))"

definition parse_u32 :: "string \<Rightarrow> u32 option" where
  "parse_u32 s =
     (let body = (case s of c # cs \<Rightarrow> if c = CHR ''+'' then cs else s | [] \<Rightarrow> [])
      in if body = [] then None else map_option of_nat (parse_digits 0 body))"

text \<open>\<open>str::parse::<i64>\<close>: an optional sign, then one or more digits whose value is in range.\<close>

fun digits_value :: "int \<Rightarrow> string \<Rightarrow> int option" where
  "digits_value acc [] = Some acc"
| "digits_value acc (c # cs) =
     (case digit_val c of None \<Rightarrow> None | Some d \<Rightarrow> digits_value (10 * acc + int d) cs)"

definition parse_i64 :: "string \<Rightarrow> i64 option" where
  "parse_i64 s =
     (let neg = (case s of c # _ \<Rightarrow> c = CHR ''-'' | [] \<Rightarrow> False);
          body = (case s of c # cs \<Rightarrow> if c = CHR ''+'' \<or> c = CHR ''-'' then cs else s | [] \<Rightarrow> [])
      in if body = [] then None
         else case digits_value 0 body of
           None \<Rightarrow> None
         | Some n \<Rightarrow> let i = (if neg then - n else n)
                     in if - i64_max - 1 \<le> i \<and> i \<le> i64_max then Some i else None)"

lemma strip_prefix_Some: "strip_prefix p s = Some r \<longleftrightarrow> s = p @ r"
  by (induction p s rule: strip_prefix.induct) auto

lemma strip_prefix_append [simp]: "strip_prefix p (p @ r) = Some r"
  by (simp add: strip_prefix_Some)

section \<open>Rows with a key\<close>

text \<open>
  A table is the list of its rows in insertion order. \<open>has_key\<close> is the test of a unique
  index, \<open>row_with\<close> the row a unique index finds, \<open>update_where\<close> an \<open>UPDATE\<close> and
  \<open>update_first\<close> Rust's \<open>iter_mut().find(..)\<close> followed by assignments.
\<close>

definition has_key :: "('r \<Rightarrow> 'k) \<Rightarrow> 'k \<Rightarrow> 'r list \<Rightarrow> bool" where
  "has_key key k rows = list_ex (\<lambda>r. key r = k) rows"

definition update_where :: "('r \<Rightarrow> bool) \<Rightarrow> ('r \<Rightarrow> 'r) \<Rightarrow> 'r list \<Rightarrow> 'r list" where
  "update_where P f rows = map (\<lambda>r. if P r then f r else r) rows"

fun update_first :: "('r \<Rightarrow> bool) \<Rightarrow> ('r \<Rightarrow> 'r) \<Rightarrow> 'r list \<Rightarrow> 'r list" where
  "update_first P f [] = []"
| "update_first P f (r # rows) = (if P r then f r # rows else r # update_first P f rows)"

lemma has_key_iff: "has_key key k rows \<longleftrightarrow> k \<in> key ` set rows"
  by (auto simp: has_key_def list_ex_iff)

lemma has_key_Nil [simp]: "has_key key k [] = False"
  by (simp add: has_key_def)

lemma has_key_Cons [simp]: "has_key key k (r # rows) \<longleftrightarrow> key r = k \<or> has_key key k rows"
  by (simp add: has_key_def)

lemma has_key_append [simp]: "has_key key k (xs @ ys) \<longleftrightarrow> has_key key k xs \<or> has_key key k ys"
  by (simp add: has_key_def)

lemma distinct_insert_row:
  "distinct (map key rows) \<Longrightarrow> \<not> has_key key (key r) rows \<Longrightarrow> distinct (map key (rows @ [r]))"
  by (auto simp: has_key_iff)

lemma set_update_where: "set (update_where P f rows) = (\<lambda>r. if P r then f r else r) ` set rows"
  by (simp add: update_where_def)

lemma update_where_if:
  "update_where P (\<lambda>r. if Q r then f r else r) rows = update_where (\<lambda>r. P r \<and> Q r) f rows"
  by (auto simp: update_where_def)

lemma in_update_whereE:
  assumes "r \<in> set (update_where P f rows)"
  obtains (changed) y where "y \<in> set rows" "P y" "r = f y" | (kept) "r \<in> set rows" "\<not> P r"
  using assms by (auto simp: set_update_where split: if_splits)

lemma map_update_where [simp]:
  "(\<And>r. P r \<Longrightarrow> g (f r) = g r) \<Longrightarrow> map g (update_where P f rows) = map g rows"
  by (auto simp: update_where_def)

lemma image_update_where [simp]:
  "(\<And>r. P r \<Longrightarrow> g (f r) = g r) \<Longrightarrow> g ` set (update_where P f rows) = g ` set rows"
  by (metis list.set_map map_update_where)

lemma has_key_update_where [simp]:
  "(\<And>r. P r \<Longrightarrow> key (f r) = key r) \<Longrightarrow> has_key key k (update_where P f rows) = has_key key k rows"
  by (simp add: has_key_iff)

lemma update_first_no: "\<forall>r \<in> set rows. \<not> P r \<Longrightarrow> update_first P f rows = rows"
  by (induction rows) auto

lemma update_where_no: "\<forall>r \<in> set rows. \<not> P r \<Longrightarrow> update_where P f rows = rows"
  by (simp add: update_where_def map_idI)

lemma distinct_key_eq:
  "distinct (map key rows) \<Longrightarrow> r \<in> set rows \<Longrightarrow> r' \<in> set rows \<Longrightarrow> key r = key r' \<Longrightarrow> r = r'"
  by (metis distinct_map inj_onD)

text \<open>With a unique key the first matching row is the only one.\<close>

lemma update_first_unique:
  assumes "distinct (map key rows)"
  shows "update_first (\<lambda>r. key r = k) f rows = update_where (\<lambda>r. key r = k) f rows"
  using assms
proof (induction rows)
  case Nil
  then show ?case by (simp add: update_where_def)
next
  case (Cons r rows)
  show ?case
  proof (cases "key r = k")
    case True
    with Cons.prems have "\<forall>x \<in> set rows. key x \<noteq> k" by (auto simp: image_iff)
    then have "update_where (\<lambda>r. key r = k) f rows = rows" by (rule update_where_no)
    with True show ?thesis by (simp add: update_where_def)
  next
    case False
    with Cons show ?thesis by (simp add: update_where_def)
  qed
qed

lemma find_filter_hd:
  "List.find P xs = (case filter P xs of [] \<Rightarrow> None | x # _ \<Rightarrow> Some x)"
  by (induction xs) auto

lemma find_unique_key:
  assumes "distinct (map key rows)" and "r \<in> set rows" and "key r = k"
  shows "List.find (\<lambda>r. key r = k) rows = Some r"
  using assms by (induction rows) force+

lemma find_SomeD: "List.find P xs = Some x \<Longrightarrow> x \<in> set xs \<and> P x"
  by (auto simp: find_Some_iff)

lemma find_NoneD: "List.find P xs = None \<Longrightarrow> x \<in> set xs \<Longrightarrow> \<not> P x"
  by (simp add: find_None_iff)

lemma find_append:
  "List.find P (xs @ ys) = (case List.find P xs of None \<Rightarrow> List.find P ys | Some x \<Rightarrow> Some x)"
  by (induction xs) auto

lemma find_snoc_new:
  "(\<And>y. y \<in> set xs \<Longrightarrow> \<not> P y) \<Longrightarrow> List.find P (xs @ [e]) = (if P e then Some e else None)"
  by (auto simp: find_append dest: find_SomeD split: option.splits)

lemma find_cong_set: "(\<And>x. x \<in> set xs \<Longrightarrow> P x = Q x) \<Longrightarrow> List.find P xs = List.find Q xs"
  by (induction xs) auto

section \<open>Unspecified order\<close>

text \<open>
  SQL leaves the order of rows open where a query has no \<open>ORDER BY\<close>, and a \<open>HashMap\<close> iterates
  in any order. A permutation of the positions, supplied from outside, stands for the choice;
  a list that is no permutation chooses the given order.
\<close>

definition reorder :: "nat list \<Rightarrow> 'a list \<Rightarrow> 'a list" where
  "reorder p xs = (if sort p = [0..<length xs] then map ((!) xs) p else xs)"

lemma mset_reorder [simp]: "mset (reorder p xs) = mset xs"
proof (cases "sort p = [0..<length xs]")
  case True
  then have "mset p = mset [0..<length xs]" by (metis mset_sort)
  then have "mset (map ((!) xs) p) = mset (map ((!) xs) [0..<length xs])" by simp
  with True show ?thesis by (simp add: reorder_def map_nth)
next
  case False
  then show ?thesis by (simp add: reorder_def)
qed

lemma set_reorder [simp]: "set (reorder p xs) = set xs"
  by (metis mset_reorder set_mset_mset)

lemma length_reorder [simp]: "length (reorder p xs) = length xs"
  by (metis mset_reorder size_mset)

lemma distinct_reorder [simp]: "distinct (reorder p xs) = distinct xs"
  by (metis mset_reorder mset_eq_imp_distinct_iff)

section \<open>Growing tables\<close>

text \<open>Every row has a successor in the later table, with respect to a preorder on rows.\<close>

definition rows_grow :: "('r \<Rightarrow> 'r \<Rightarrow> bool) \<Rightarrow> 'r list \<Rightarrow> 'r list \<Rightarrow> bool" where
  "rows_grow le xs ys \<longleftrightarrow> (\<forall>x \<in> set xs. \<exists>y \<in> set ys. le x y)"

lemma rows_grow_refl: "(\<And>x. le x x) \<Longrightarrow> rows_grow le xs xs"
  by (auto simp: rows_grow_def)

lemma rows_grow_trans:
  "rows_grow le xs ys \<Longrightarrow> rows_grow le ys zs \<Longrightarrow> (\<And>x y z. le x y \<Longrightarrow> le y z \<Longrightarrow> le x z)
    \<Longrightarrow> rows_grow le xs zs"
  unfolding rows_grow_def by meson

lemma rows_grow_append: "(\<And>x. le x x) \<Longrightarrow> rows_grow le xs (xs @ ys)"
  by (auto simp: rows_grow_def)

lemma rows_grow_update:
  assumes "\<And>x. le x x" and "\<And>x. x \<in> set xs \<Longrightarrow> P x \<Longrightarrow> le x (f x)"
  shows "rows_grow le xs (update_where P f xs)"
  unfolding rows_grow_def
proof
  fix x assume x: "x \<in> set xs"
  then have "(if P x then f x else x) \<in> set (update_where P f xs)" by (simp add: update_where_def)
  moreover have "le x (if P x then f x else x)" using assms x by simp
  ultimately show "\<exists>y \<in> set (update_where P f xs). le x y" by blast
qed

lemma rows_growE:
  assumes "rows_grow le xs ys" and "x \<in> set xs"
  obtains y where "y \<in> set ys" and "le x y"
  using assms by (auto simp: rows_grow_def)

section \<open>Stable sorting\<close>

text \<open>Appending a row inserts it somewhere into the sorted list, and the rest keeps its order.\<close>

lemma sort_key_snoc:
  fixes f :: "'a \<Rightarrow> 'b::linorder"
  obtains a b where "sort_key f xs = a @ b" "sort_key f (xs @ [m]) = a @ m # b"
proof -
  define a where "a = takeWhile (\<lambda>x. f x \<le> f m) (sort_key f xs)"
  define b where "b = dropWhile (\<lambda>x. f x \<le> f m) (sort_key f xs)"
  have ab: "sort_key f xs = a @ b" unfolding a_def b_def by (rule takeWhile_dropWhile_id [symmetric])
  have srt: "sorted (map f (a @ b))" unfolding ab [symmetric] by simp
  have a: "\<forall>x \<in> set a. f x \<le> f m" unfolding a_def by (blast dest: set_takeWhileD)
  have b: "\<forall>x \<in> set b. f m < f x"
  proof (cases b)
    case (Cons y ys)
    have "\<not> f y \<le> f m" using hd_dropWhile [of "\<lambda>x. f x \<le> f m" "sort_key f xs"] Cons unfolding b_def by simp
    moreover have "\<forall>x \<in> set ys. f y \<le> f x" using srt unfolding Cons by (simp add: sorted_append)
    ultimately show ?thesis unfolding Cons by auto
  qed simp
  have "sort_key f (xs @ [m]) = a @ m # b"
  proof (rule properties_for_sort_key)
    have "mset xs = mset (a @ b)" unfolding ab [symmetric] by simp
    then show "mset (a @ m # b) = mset (xs @ [m])" by simp
    show "filter (\<lambda>y. f k = f y) (a @ m # b) = filter (\<lambda>y. f k = f y) (xs @ [m])" for k
    proof -
      have "filter (\<lambda>y. f y = f k) (a @ b) = filter (\<lambda>y. f y = f k) xs"
        unfolding ab [symmetric] by (rule sort_key_stable)
      then have "filter (\<lambda>y. f k = f y) (a @ b) = filter (\<lambda>y. f k = f y) xs" by (simp only: eq_commute)
      moreover have "filter (\<lambda>y. f k = f y) b = []" if "f k = f m" using b that by (auto simp: filter_empty_conv)
      ultimately show ?thesis by (cases "f k = f m") simp_all
    qed
    show "sorted (map f (a @ m # b))" using srt a b by (auto simp: sorted_append less_imp_le)
  qed
  with ab show ?thesis by (rule that)
qed

lemma sort_key_map_same:
  fixes f :: "'a \<Rightarrow> 'b::linorder"
  assumes "\<And>x. f (g x) = f x"
  shows "sort_key f (map g xs) = map g (sort_key f xs)"
proof -
  have "insort_key f (g x) (map g ys) = map g (insort_key f x ys)" for x ys
    by (induction ys) (simp_all add: assms)
  then show ?thesis by (induction xs) simp_all
qed

end
