(* ===== verification/Crypto.thy ===== *)
theory Crypto
  imports Prelude
begin

text \<open>
  The commit sequencer of \<open>crates/crypto\<close>. An epoch is an \<open>i64\<close>; the release build compiles
  \<open>current_epoch + 1\<close> without overflow checks, so it wraps, as addition on 64-bit words does.
  The caller named in the source's comment, which swaps the stored epoch atomically, is the
  function \<open>sequence_commits\<close>: it offers the commits one after the other to \<open>decide_commit\<close>.
\<close>

type_synonym epoch = "64 word"

datatype commit_decision = Accept (new_epoch: epoch) | Conflict (current_epoch: epoch)

definition decide_commit :: "epoch \<Rightarrow> epoch \<Rightarrow> commit_decision" where
  "decide_commit current base = (if base = current then Accept (current + 1) else Conflict current)"

fun sequence_commits :: "epoch \<Rightarrow> epoch list \<Rightarrow> commit_decision list \<times> epoch" where
  "sequence_commits cur [] = ([], cur)"
| "sequence_commits cur (b # bs) =
     (let d = decide_commit cur b;
          cur' = (case d of Accept e \<Rightarrow> e | Conflict _ \<Rightarrow> cur);
          (ds, fin) = sequence_commits cur' bs
      in (d # ds, fin))"

text \<open>The bases of the commits that were accepted, in order.\<close>

definition accepted_bases :: "epoch \<Rightarrow> epoch list \<Rightarrow> epoch list" where
  "accepted_bases cur bs =
     map fst (filter (\<lambda>(b, d). is_Accept d) (zip bs (fst (sequence_commits cur bs))))"

lemma sequence_commits_chain:
  "\<exists>k \<le> length bs. accepted_bases cur bs = map (\<lambda>i. cur + of_nat i) [0..<k]
     \<and> snd (sequence_commits cur bs) = cur + of_nat k"
proof (induction bs arbitrary: cur)
  case Nil
  show ?case by (simp add: accepted_bases_def)
next
  case (Cons b bs)
  show ?case
  proof (cases "b = cur")
    case True
    from Cons.IH [of "cur + 1"] obtain k where k: "k \<le> length bs"
      "accepted_bases (cur + 1) bs = map (\<lambda>i. cur + 1 + of_nat i) [0..<k]"
      "snd (sequence_commits (cur + 1) bs) = cur + 1 + of_nat k" by blast
    have "accepted_bases cur (b # bs) = cur # accepted_bases (cur + 1) bs"
      using True by (simp add: accepted_bases_def decide_commit_def split_beta Let_def)
    moreover have "map (\<lambda>i. cur + of_nat i) [0..<Suc k]
        = cur # map (\<lambda>i. cur + of_nat (Suc i)) [0..<k]"
      by (simp add: map_upt_Suc del: upt_Suc)
    moreover have "snd (sequence_commits cur (b # bs)) = cur + of_nat (Suc k)"
      using True k by (simp add: decide_commit_def split_beta Let_def)
    ultimately show ?thesis
      using k by (intro exI [of _ "Suc k"]) (simp add: add.assoc del: upt_Suc)
  next
    case False
    then have "accepted_bases cur (b # bs) = accepted_bases cur bs"
      and "snd (sequence_commits cur (b # bs)) = snd (sequence_commits cur bs)"
      by (simp_all add: accepted_bases_def decide_commit_def split_beta)
    with Cons.IH [of cur] show ?thesis by (auto intro: le_SucI)
  qed
qed

lemma distinct_epoch_run:
  "k \<le> 2 ^ 64 \<Longrightarrow> distinct (map (\<lambda>i. (cur::epoch) + of_nat i) [0..<k])"
  by (auto simp: distinct_map inj_on_def word_of_nat_eq_iff take_bit_nat_eq_self)



end
