(* ===== verification/Prog.thy ===== *)
theory Prog
  imports Prelude
begin

text \<open>
  Handlers as programs over a shared state. The server runs every request as an asynchronous
  task; tasks interleave between the atomic steps (one SQL statement, one lock-protected
  update). A program is a tree of such steps. Two semantics are given: \<open>run\<close> executes one
  program alone, \<open>pool_step\<close> interleaves any number of them. Invariants are proved once, by a
  rely/guarantee judgement \<open>ok\<close>, for both.
\<close>

section \<open>Programs\<close>

datatype (dead 's, 'a) prog = Ret 'a | Act "'s \<Rightarrow> ('s, 'a) prog \<times> 's"

primrec bind :: "('s, 'a) prog \<Rightarrow> ('a \<Rightarrow> ('s, 'b) prog) \<Rightarrow> ('s, 'b) prog" where
  "bind (Ret x) k = k x"
| "bind (Act f) k = Act (\<lambda>s. map_prod (\<lambda>p. bind p k) id (f s))"

text \<open>One atomic step that returns a value and a new state.\<close>

definition atomic :: "('s \<Rightarrow> 'a \<times> 's) \<Rightarrow> ('s, 'a) prog" where
  "atomic f = Act (\<lambda>s. map_prod Ret id (f s))"

text \<open>Rust's \<open>?\<close> operator: go on with the value of \<open>Ok\<close>, return early with an \<open>Err\<close>.\<close>

definition bindE ::
    "('s, 'e + 'a) prog \<Rightarrow> ('a \<Rightarrow> ('s, 'e + 'b) prog) \<Rightarrow> ('s, 'e + 'b) prog" where
  "bindE p k = bind p (\<lambda>r. case r of Inl e \<Rightarrow> Ret (Inl e) | Inr x \<Rightarrow> k x)"

text \<open>\<open>Result::map_err\<close>.\<close>

definition map_err :: "('e \<Rightarrow> 'f) \<Rightarrow> ('s, 'e + 'a) prog \<Rightarrow> ('s, 'f + 'a) prog" where
  "map_err g p = bind p (\<lambda>r. Ret (map_sum g id r))"

text \<open>\<open>ok_or_else(..)?\<close> and \<open>if cond { return Err(..) }\<close>.\<close>

definition ok_or :: "'e \<Rightarrow> 'a option \<Rightarrow> ('s, 'e + 'a) prog" where
  "ok_or e v = Ret (case v of None \<Rightarrow> Inl e | Some x \<Rightarrow> Inr x)"

text \<open>A \<open>for\<close> loop over a list, with and without early return.\<close>

primrec for_each :: "'a list \<Rightarrow> ('a \<Rightarrow> ('s, unit) prog) \<Rightarrow> ('s, unit) prog" where
  "for_each [] body = Ret ()"
| "for_each (x # xs) body = bind (body x) (\<lambda>_. for_each xs body)"

primrec for_eachE :: "'a list \<Rightarrow> ('a \<Rightarrow> ('s, 'e + unit) prog) \<Rightarrow> ('s, 'e + unit) prog" where
  "for_eachE [] body = Ret (Inr ())"
| "for_eachE (x # xs) body = bindE (body x) (\<lambda>_. for_eachE xs body)"

text \<open>\<open>iter().map(..).collect()\<close> with a body that reads shared state.\<close>

primrec for_map :: "('a \<Rightarrow> ('s, 'b) prog) \<Rightarrow> 'a list \<Rightarrow> ('s, 'b list) prog" where
  "for_map f [] = Ret []"
| "for_map f (x # xs) = bind (f x) (\<lambda>y. bind (for_map f xs) (\<lambda>ys. Ret (y # ys)))"

lemma prog_induct [case_names Ret Act]:
  fixes p :: "('s, 'a) prog"
  assumes "\<And>x. P (Ret x)" and "\<And>f. (\<And>s. P (fst (f s))) \<Longrightarrow> P (Act f)"
  shows "P p"
proof (induction p)
  case (Ret x)
  show ?case by (rule assms(1))
next
  case (Act f)
  have "P (fst (f s))" for s
    by (rule Act [of "f s"]) (simp_all add: fsts.simps prod_eq_iff)
  then show ?case by (rule assms(2))
qed

section \<open>Sequential execution\<close>

primrec run :: "('s, 'a) prog \<Rightarrow> 's \<Rightarrow> 'a \<times> 's" where
  "run (Ret x) = (\<lambda>s. (x, s))"
| "run (Act f) = (\<lambda>s. (\<lambda>(r, t). r t) (map_prod run id (f s)))"

lemma run_Ret [run_simps, simp]: "run (Ret x) s = (x, s)"
  by simp

lemma run_Act: "run (Act f) s = (case f s of (p, t) \<Rightarrow> run p t)"
  by (simp add: split_beta)

declare run.simps [simp del]

lemma run_bind [run_simps]: "run (bind p k) s = (case run p s of (x, t) \<Rightarrow> run (k x) t)"
  by (induction p arbitrary: s rule: prog_induct) (simp_all add: run_Act split_beta)

lemma run_atomic [run_simps]: "run (atomic f) s = f s"
  by (simp add: atomic_def run_Act split_beta)

lemma run_bindE [run_simps]:
  "run (bindE p k) s =
     (case run p s of (Inl e, t) \<Rightarrow> (Inl e, t) | (Inr x, t) \<Rightarrow> run (k x) t)"
  by (auto simp: bindE_def run_bind split: prod.splits sum.splits)

lemma run_map_err [run_simps]:
  "run (map_err g p) s = (case run p s of (r, t) \<Rightarrow> (map_sum g id r, t))"
  by (simp add: map_err_def run_bind)

lemma run_ok_or [run_simps]:
  "run (ok_or e v) s = ((case v of None \<Rightarrow> Inl e | Some x \<Rightarrow> Inr x), s)"
  by (simp add: ok_or_def)

lemma run_for_each_Cons [run_simps]:
  "run (for_each (x # xs) b) s = (case run (b x) s of (_, t) \<Rightarrow> run (for_each xs b) t)"
  by (simp add: run_bind)

section \<open>Interleaved execution\<close>

inductive pool_step ::
    "(('s, 'a) prog \<Rightarrow> bool) \<Rightarrow> ('s, 'a) prog list \<times> 's \<Rightarrow> ('s, 'a) prog list \<times> 's \<Rightarrow> bool"
  for admitted where
  thread: "i < length ps \<Longrightarrow> ps ! i = Act f \<Longrightarrow> f s = (p, s') \<Longrightarrow>
             pool_step admitted (ps, s) (ps[i := p], s')"
| spawn: "admitted p \<Longrightarrow> pool_step admitted (ps, s) (ps @ [p], s)"

inductive_cases pool_stepE: "pool_step admitted (ps, s) (ps', s')"

inductive pool_reach ::
    "(('s, 'a) prog \<Rightarrow> bool) \<Rightarrow> ('s, 'a) prog list \<times> 's \<Rightarrow> ('s, 'a) prog list \<times> 's \<Rightarrow> bool"
  for admitted c where
  start: "pool_reach admitted c c"
| step: "pool_reach admitted c d \<Longrightarrow> pool_step admitted d e \<Longrightarrow> pool_reach admitted c e"

text \<open>A given schedule, executed: the numbers of the tasks in the order of their steps.\<close>

primrec prog_step :: "('s, 'a) prog \<Rightarrow> 's \<Rightarrow> ('s, 'a) prog \<times> 's" where
  "prog_step (Ret x) = (\<lambda>s. (Ret x, s))"
| "prog_step (Act f) = f"

primrec prog_result :: "('s, 'a) prog \<Rightarrow> 'a option" where
  "prog_result (Ret x) = Some x"
| "prog_result (Act f) = None"

fun sched :: "nat list \<Rightarrow> ('s, 'a) prog list \<times> 's \<Rightarrow> ('s, 'a) prog list \<times> 's" where
  "sched [] c = c"
| "sched (i # is) (ps, s) =
     (if i < length ps then (case prog_step (ps ! i) s of (p, t) \<Rightarrow> sched is (ps[i := p], t))
      else sched is (ps, s))"

lemma pool_reach_trans:
  assumes "pool_reach adm d e" and "pool_reach adm c d"
  shows "pool_reach adm c e"
  using assms by induction (auto intro: pool_reach.step)

lemma sched_reach: "pool_reach adm c (sched is c)"
proof (induction "is" c rule: sched.induct)
  case (1 c)
  show ?case by (simp add: pool_reach.start)
next
  case (2 i "is" ps s)
  show ?case
  proof (cases "i < length ps")
    case True
    obtain p t where pt: "prog_step (ps ! i) s = (p, t)" by fastforce
    have "pool_reach adm (ps, s) (ps[i := p], t)"
    proof (cases "ps ! i")
      case (Ret x)
      with pt True show ?thesis by (simp add: pool_reach.start) (metis list_update_id pool_reach.start)
    next
      case (Act f)
      with pt have "f s = (p, t)" by simp
      then show ?thesis
        by (rule pool_reach.step [OF pool_reach.start pool_step.thread [OF True Act]])
    qed
    with 2(1) [OF True pt [symmetric]] pt True show ?thesis by (simp add: pool_reach_trans [of adm "(ps[i := p], t)"])
  next
    case False
    with 2(2) show ?thesis by simp
  qed
qed

lemma pool_step_sched:
  assumes "i < length ps" "prog_result (ps ! i) = None"
  shows "pool_step adm (ps, s) (ps[i := fst (prog_step (ps ! i) s)], snd (prog_step (ps ! i) s))"
  using assms by (cases "ps ! i") (auto intro: pool_step.thread)

lemma run_pool_reach: "pool_reach adm ([p], s) ([Ret (fst (run p s))], snd (run p s))"
proof (induction p arbitrary: s rule: prog_induct)
  case (Ret x)
  show ?case by (simp add: pool_reach.start)
next
  case (Act f)
  have "pool_step adm ([Act f], s) ([Act f][0 := fst (f s)], snd (f s))"
    by (rule pool_step.thread) simp_all
  then have "pool_reach adm ([Act f], s) ([fst (f s)], snd (f s))"
    by (auto intro: pool_reach.step [OF pool_reach.start])
  from pool_reach_trans [OF Act.IH this] show ?case by (simp add: run_Act split_beta)
qed

text \<open>Running the first part of a task while the others wait.\<close>

lemma bind_assoc: "bind (bind p f) g = bind p (\<lambda>x. bind (f x) g)"
  by (induction p rule: prog_induct) (auto simp: map_prod_def split_beta intro!: ext)

lemma bindE_assoc: "bindE (bindE p f) g = bindE p (\<lambda>x. bindE (f x) g)"
  unfolding bindE_def bind_assoc by (rule arg_cong [where f = "bind p"]) (auto split: sum.splits)

lemma pool_reach_bind:
  "i < length ps \<Longrightarrow> ps ! i = bind p k \<Longrightarrow> pool_reach adm (ps, s) (ps[i := k (fst (run p s))], snd (run p s))"
proof (induction p arbitrary: ps s rule: prog_induct)
  case (Ret x)
  then have "ps[i := k x] = ps" by (metis bind.simps(1) list_update_id)
  then show ?case by (simp add: pool_reach.start)
next
  case (Act f)
  have "ps ! i = Act (\<lambda>s. map_prod (\<lambda>p. bind p k) id (f s))" using Act.prems by simp
  then have "pool_step adm (ps, s) (ps[i := bind (fst (f s)) k], snd (f s))"
    by (rule pool_step.thread [OF Act.prems(1)]) (simp add: map_prod_def split_beta)
  then have "pool_reach adm (ps, s) (ps[i := bind (fst (f s)) k], snd (f s))"
    by (rule pool_reach.step [OF pool_reach.start])
  moreover have "pool_reach adm (ps[i := bind (fst (f s)) k], snd (f s))
      (ps[i := k (fst (run (Act f) s))], snd (run (Act f) s))"
    using Act.IH [of "ps[i := bind (fst (f s)) k]" s "snd (f s)"] Act.prems(1) by (simp add: run_Act split_beta)
  ultimately show ?case by (rule pool_reach_trans [rotated])
qed

lemma pool_reach_bindE:
  assumes "i < length ps" "ps ! i = bindE p k" "run p s = (Inr x, t)"
  shows "pool_reach adm (ps, s) (ps[i := k x], t)"
  using pool_reach_bind [OF assms(1) assms(2) [unfolded bindE_def], of adm s] assms(3) by simp

lemma pool_reach_run:
  assumes "i < length ps" "ps ! i = p" "run p s = (x, t)"
  shows "pool_reach adm (ps, s) (ps[i := Ret x], t)"
proof -
  have "bind p Ret = p" by (induction p rule: prog_induct) (auto intro!: ext simp: map_prod_def split_beta prod_eq_iff)
  with pool_reach_bind [OF assms(1), of p Ret adm s] assms(2,3) show ?thesis by simp
qed

section \<open>Guarantees of single steps\<close>

text \<open>\<open>guar G p\<close>: whatever the state, every atomic step of \<open>p\<close> is a \<open>G\<close>-step.\<close>

primrec guar :: "('s \<Rightarrow> 's \<Rightarrow> bool) \<Rightarrow> ('s, 'a) prog \<Rightarrow> bool" where
  "guar G (Ret x) = True"
| "guar G (Act f) = (\<forall>s. G s (snd (f s)) \<and> fst (map_prod (guar G) id (f s)))"

lemma guar_Act: "guar G (Act f) \<longleftrightarrow> (\<forall>s. G s (snd (f s)) \<and> guar G (fst (f s)))"
  by simp

declare guar.simps [simp del]

lemma guar_Ret [guar_intros]: "guar G (Ret x)"
  by (simp add: guar.simps)

lemma guar_atomic [guar_intros]: "(\<And>s. G s (snd (f s))) \<Longrightarrow> guar G (atomic f)"
  by (simp add: atomic_def guar_Act guar_Ret)

lemma guar_bind [guar_intros]:
  "guar G p \<Longrightarrow> (\<And>x. guar G (k x)) \<Longrightarrow> guar G (bind p k)"
proof (induction p rule: prog_induct)
  case (Ret x)
  then show ?case by simp
next
  case (Act f)
  then show ?case by (simp add: guar_Act)
qed

lemma guar_bindE [guar_intros]:
  "guar G p \<Longrightarrow> (\<And>x. guar G (k x)) \<Longrightarrow> guar G (bindE p k)"
  by (auto simp: bindE_def intro!: guar_intros split: sum.splits)

lemma guar_map_err [guar_intros]: "guar G p \<Longrightarrow> guar G (map_err g p)"
  by (auto simp: map_err_def intro!: guar_intros)

lemma guar_ok_or [guar_intros]: "guar G (ok_or e v)"
  by (simp add: ok_or_def guar_Ret)

lemma guar_for_each [guar_intros]: "(\<And>x. guar G (body x)) \<Longrightarrow> guar G (for_each xs body)"
  by (induction xs) (auto intro!: guar_intros)

lemma guar_for_eachE [guar_intros]: "(\<And>x. guar G (body x)) \<Longrightarrow> guar G (for_eachE xs body)"
  by (induction xs) (auto intro!: guar_intros)

lemma guar_for_map [guar_intros]: "(\<And>x. guar G (f x)) \<Longrightarrow> guar G (for_map f xs)"
  by (induction xs) (auto intro!: guar_intros)

text \<open>A reflexive and transitive guarantee holds between the two ends of a run.\<close>

lemma guar_run:
  assumes "guar G p" and refl: "\<And>s. G s s" and trans: "\<And>s t u. G s t \<Longrightarrow> G t u \<Longrightarrow> G s u"
  shows "G s (snd (run p s))"
  using assms(1)
proof (induction p arbitrary: s rule: prog_induct)
  case (Ret x)
  show ?case by (simp add: refl)
next
  case (Act f)
  have "G s (snd (f s))" and cont: "guar G (fst (f s))"
    using Act.prems by (simp_all add: guar_Act)
  moreover have "G (snd (f s)) (snd (run (fst (f s)) (snd (f s))))"
    by (rule Act.IH [OF cont])
  ultimately show ?case by (simp add: run_Act split_beta) (metis trans)
qed

text \<open>If all tasks give a guarantee, every step of their interleaving is one of its steps.\<close>

lemma guar_pool_step:
  assumes "pool_step adm (ps, s) (ps', s')" and "\<forall>p \<in> set ps. guar G p" and refl: "\<And>s. G s s"
    and adm: "\<And>p. adm p \<Longrightarrow> guar G p"
  shows "G s s' \<and> (\<forall>p \<in> set ps'. guar G p)"
  using assms(1)
proof (cases rule: pool_step.cases)
  case (thread i f p)
  then have "guar G (Act f)" using assms(2) by (metis nth_mem)
  then have "G s s'" "guar G p" using thread(4) by (auto simp: guar_Act dest: spec [of _ s])
  moreover have "set ps' \<subseteq> insert p (set ps)" unfolding thread(1) by (rule set_update_subset_insert)
  ultimately show ?thesis using assms(2) by blast
next
  case (spawn p)
  then show ?thesis using assms(2) adm refl by auto
qed

lemma guar_pool_reach:
  assumes "pool_reach adm c d" and "\<forall>p \<in> set (fst c). guar G p" and refl: "\<And>s. G s s"
    and adm: "\<And>p. adm p \<Longrightarrow> guar G p"
  shows "\<forall>p \<in> set (fst d). guar G p"
  using assms(1)
proof induction
  case start
  show ?case by (rule assms(2))
next
  case (step d e)
  then show ?case using guar_pool_step [OF _ _ refl adm, of adm "fst d" "snd d" "fst e" "snd e"] by simp
qed

section \<open>Rely/guarantee\<close>

text \<open>
  \<open>ok R I Q p s\<close>: from state \<open>s\<close> on, as long as the other tasks make \<open>R\<close>-steps between
  states that satisfy \<open>I\<close>, every step of \<open>p\<close> is itself an \<open>R\<close>-step that keeps \<open>I\<close>, and \<open>p\<close>
  returns values that satisfy \<open>Q\<close>.
\<close>

primrec ok ::
    "('s \<Rightarrow> 's \<Rightarrow> bool) \<Rightarrow> ('s \<Rightarrow> bool) \<Rightarrow> ('a \<Rightarrow> 's \<Rightarrow> bool) \<Rightarrow> ('s, 'a) prog \<Rightarrow> 's \<Rightarrow> bool" where
  "ok R I Q (Ret x) = (\<lambda>s. \<forall>t. R s t \<and> I t \<longrightarrow> Q x t)"
| "ok R I Q (Act f) =
     (\<lambda>s. \<forall>t. R s t \<and> I t \<longrightarrow>
        I (snd (f t)) \<and> R t (snd (f t)) \<and> (\<lambda>(q, u). q u) (map_prod (ok R I Q) id (f t)))"

lemma ok_Ret: "ok R I Q (Ret x) s \<longleftrightarrow> (\<forall>t. R s t \<longrightarrow> I t \<longrightarrow> Q x t)"
  by auto

lemma ok_Act:
  "ok R I Q (Act f) s \<longleftrightarrow>
     (\<forall>t. R s t \<longrightarrow> I t \<longrightarrow> I (snd (f t)) \<and> R t (snd (f t)) \<and> ok R I Q (fst (f t)) (snd (f t)))"
  by (auto simp: split_beta)

declare ok.simps [simp del]

locale rely_guarantee =
  fixes R :: "'s \<Rightarrow> 's \<Rightarrow> bool" and I :: "'s \<Rightarrow> bool"
  assumes refl: "R s s"
    and trans: "R s t \<Longrightarrow> R t u \<Longrightarrow> R s u"
begin

lemma ok_stable: "ok R I Q p s \<Longrightarrow> R s t \<Longrightarrow> ok R I Q p t"
  by (cases p) (auto simp: ok_Ret ok_Act dest: trans)

lemma ok_later: "(\<And>t. R s t \<Longrightarrow> I t \<Longrightarrow> ok R I Q p t) \<Longrightarrow> ok R I Q p s"
  by (cases p) (auto simp: ok_Ret ok_Act intro: refl)

lemma ok_weaken:
  "ok R I Q p s \<Longrightarrow> (\<And>x t. Q x t \<Longrightarrow> Q' x t) \<Longrightarrow> ok R I Q' p s"
proof (induction p arbitrary: s rule: prog_induct)
  case (Ret x)
  then show ?case by (auto simp: ok_Ret)
next
  case (Act f)
  then show ?case by (simp add: ok_Act)
qed

lemma ok_bind:
  assumes "ok R I Q p s"
    and "\<And>x t. R s t \<Longrightarrow> I t \<Longrightarrow> Q x t \<Longrightarrow> ok R I Q' (k x) t"
  shows "ok R I Q' (bind p k) s"
  using assms
proof (induction p arbitrary: s rule: prog_induct)
  case (Ret x)
  have "ok R I Q' (k x) t" if "R s t" "I t" for t
    using that Ret.prems(1) by (intro Ret.prems(2)) (auto simp: ok_Ret)
  then show ?case by (simp add: ok_later)
next
  case (Act f)
  have "I (snd (f t)) \<and> R t (snd (f t)) \<and> ok R I Q' (bind (fst (f t)) k) (snd (f t))"
    if t: "R s t" "I t" for t
  proof -
    have step: "I (snd (f t))" "R t (snd (f t))" "ok R I Q (fst (f t)) (snd (f t))"
      using Act.prems(1) t by (auto simp: ok_Act)
    have "R s (snd (f t))" using t(1) step(2) by (rule trans)
    then have "ok R I Q' (bind (fst (f t)) k) (snd (f t))"
      by (intro Act.IH [OF step(3)] Act.prems(2)) (blast intro: trans)+
    with step show ?thesis by simp
  qed
  then show ?case by (simp add: ok_Act)
qed

lemma ok_atomic:
  assumes "\<And>t. R s t \<Longrightarrow> I t \<Longrightarrow> I (snd (f t)) \<and> R t (snd (f t)) \<and>
     (\<forall>u. R (snd (f t)) u \<longrightarrow> I u \<longrightarrow> Q (fst (f t)) u)"
  shows "ok R I Q (atomic f) s"
  using assms by (simp add: atomic_def ok_Act ok_Ret)

lemma ok_bindE:
  assumes "ok R I (\<lambda>r t. case r of Inl e \<Rightarrow> Q' (Inl e) t | Inr x \<Rightarrow> Q x t) p s"
    and "\<And>x t. R s t \<Longrightarrow> I t \<Longrightarrow> Q x t \<Longrightarrow> ok R I Q' (k x) t"
    and "\<And>e t u. Q' (Inl e) t \<Longrightarrow> R t u \<Longrightarrow> Q' (Inl e) u"
  shows "ok R I Q' (bindE p k) s"
  unfolding bindE_def
  by (rule ok_bind [OF assms(1)]) (auto simp: ok_Ret split: sum.splits intro: assms(2,3))

lemma ok_frame:
  assumes "ok R I Q p s" and "P s" and stable: "\<And>s t. P s \<Longrightarrow> R s t \<Longrightarrow> P t"
  shows "ok R I (\<lambda>x t. Q x t \<and> P t) p s"
  using assms(1,2)
proof (induction p arbitrary: s rule: prog_induct)
  case (Ret x)
  then show ?case using stable by (auto simp: ok_Ret)
next
  case (Act f)
  have "I (snd (f t)) \<and> R t (snd (f t)) \<and> ok R I (\<lambda>x t. Q x t \<and> P t) (fst (f t)) (snd (f t))"
    if t: "R s t" "I t" for t
  proof -
    have step: "I (snd (f t))" "R t (snd (f t))" "ok R I Q (fst (f t)) (snd (f t))"
      using Act.prems(1) t by (auto simp: ok_Act)
    have "P (snd (f t))" using stable Act.prems(2) t(1) step(2) by blast
    with step show ?thesis using Act.IH [OF step(3)] by blast
  qed
  then show ?case by (simp add: ok_Act)
qed

text \<open>Soundness for a program that runs alone.\<close>

lemma ok_run:
  assumes "ok R I Q p s" and "I s"
  shows "I (snd (run p s)) \<and> R s (snd (run p s)) \<and> Q (fst (run p s)) (snd (run p s))"
  using assms
proof (induction p arbitrary: s rule: prog_induct)
  case (Ret x)
  then show ?case by (auto simp: ok_Ret intro: refl)
next
  case (Act f)
  have step: "I (snd (f s))" "R s (snd (f s))" "ok R I Q (fst (f s)) (snd (f s))"
    using Act.prems refl by (auto simp: ok_Act)
  from Act.IH [OF step(3) step(1)] step(2) show ?case
    by (auto simp: run_Act split_beta intro: trans)
qed

text \<open>Soundness for any interleaving: every configuration reached keeps the invariant.\<close>

definition pool_ok :: "('s, 'a) prog list \<times> 's \<Rightarrow> bool" where
  "pool_ok c \<longleftrightarrow> I (snd c) \<and> (\<forall>p \<in> set (fst c). ok R I (\<lambda>_ _. True) p (snd c))"

lemma pool_step_ok:
  assumes "pool_step admitted (ps, s) (ps', s')" and "pool_ok (ps, s)"
    and adm: "\<And>p s. admitted p \<Longrightarrow> ok R I (\<lambda>_ _. True) p s"
  shows "pool_ok (ps', s') \<and> R s s'"
  using assms(1)
proof (cases rule: pool_step.cases)
  case (thread i f p)
  then have "Act f \<in> set ps" by (metis nth_mem)
  with assms(2) have f: "ok R I (\<lambda>_ _. True) (Act f) s" and "I s"
    by (auto simp: pool_ok_def)
  then have step: "I s'" "R s s'" "ok R I (\<lambda>_ _. True) p s'"
    using thread(4) refl by (force simp: ok_Act)+
  moreover have "ok R I (\<lambda>_ _. True) q s'" if "q \<in> set ps'" for q
  proof -
    from that thread(1) have "q = p \<or> q \<in> set ps"
      by (metis insertE set_update_subset_insert subsetD)
    then show ?thesis
      using step assms(2) ok_stable [OF _ step(2)] by (auto simp: pool_ok_def)
  qed
  ultimately show ?thesis by (simp add: pool_ok_def)
next
  case (spawn p)
  with assms(2) adm show ?thesis by (auto simp: pool_ok_def refl)
qed

lemma pool_reach_ok:
  assumes "pool_reach admitted c d" and "pool_ok c"
    and adm: "\<And>p s. admitted p \<Longrightarrow> ok R I (\<lambda>_ _. True) p s"
  shows "pool_ok d \<and> R (snd c) (snd d)"
  using assms(1)
proof induction
  case start
  with assms(2) show ?case by (simp add: refl)
next
  case (step d e)
  then show ?case
    using pool_step_ok [OF _ _ adm, of admitted "fst d" "snd d" "fst e" "snd e"] trans by auto
qed

text \<open>
  A task in an interleaving: from where it has its own judgement, it keeps it, so that the value
  it finally returns satisfies its postcondition.
\<close>

lemma pool_step_task:
  assumes "pool_step admitted (ps, s) (ps', s')" and "pool_ok (ps, s)"
    and adm: "\<And>p s. admitted p \<Longrightarrow> ok R I (\<lambda>_ _. True) p s"
    and i: "i < length ps" "ok R I Q (ps ! i) s"
  shows "i < length ps' \<and> ok R I Q (ps' ! i) s'"
proof -
  have R: "R s s'" using pool_step_ok [OF assms(1,2) adm] by blast
  from assms(1) show ?thesis
  proof (cases rule: pool_step.cases)
    case (thread j f p)
    show ?thesis
    proof (cases "j = i")
      case True
      with thread i have "ok R I Q (Act f) s" "I s" using assms(2) by (auto simp: pool_ok_def)
      with thread(4) have "ok R I Q p s'" using refl by (force simp: ok_Act)
      with True thread i show ?thesis by simp
    next
      case False
      with thread i ok_stable [OF i(2) R] show ?thesis by simp
    qed
  next
    case (spawn p)
    with i ok_stable [OF i(2) R] show ?thesis by (simp add: nth_append)
  qed
qed

lemma pool_task:
  assumes "pool_reach admitted c d" and "pool_ok c"
    and adm: "\<And>p s. admitted p \<Longrightarrow> ok R I (\<lambda>_ _. True) p s"
    and i: "i < length (fst c)" "ok R I Q (fst c ! i) (snd c)"
  shows "i < length (fst d) \<and> ok R I Q (fst d ! i) (snd d)"
  using assms(1)
proof induction
  case start
  with i show ?case by simp
next
  case (step d e)
  have "pool_ok d" using pool_reach_ok [OF step(1) assms(2) adm] by blast
  with step show ?case
    using pool_step_task [OF _ _ adm, of admitted "fst d" "snd d" "fst e" "snd e" i Q] by simp
qed

lemma pool_result:
  assumes "pool_reach admitted (ps, s) (ps', t)" and "pool_ok (ps, s)"
    and adm: "\<And>p s. admitted p \<Longrightarrow> ok R I (\<lambda>_ _. True) p s"
    and i: "i < length ps" "ok R I Q (ps ! i) s" and res: "ps' ! i = Ret x"
  shows "Q x t"
proof -
  have "ok R I Q (Ret x) t" using pool_task [OF assms(1,2) adm, of i Q] i res by simp
  moreover have "I t" using pool_reach_ok [OF assms(1,2) adm] by (simp add: pool_ok_def)
  ultimately show ?thesis using refl by (simp add: ok_Ret)
qed

text \<open>Guarantees that hold in every state need no invariant.\<close>

lemma ok_guar:
  assumes "guar R p" and "\<And>s t. R s t \<Longrightarrow> I s \<Longrightarrow> I t"
  shows "ok R I (\<lambda>_ _. True) p s"
  using assms(1)
proof (induction p arbitrary: s rule: prog_induct)
  case (Ret x)
  show ?case by (simp add: ok_Ret)
next
  case (Act f)
  then show ?case using assms(2) by (simp add: ok_Act guar_Act) blast
qed

end

end
