(* ===== verification/Protocol.thy ===== *)
theory Protocol
  imports Prelude "HOL-Library.Sublist"
begin

text \<open>
  The wire types of \<open>crates/protocol\<close>: capabilities and their negotiation, the handshake
  frames, the WebSocket envelope and the REST bodies. JSON values are a datatype (a number that
  is not an integer is its 64 bit pattern); how
  \<open>serde_json\<close> prints them is outside the model.
\<close>

section \<open>JSON values\<close>

datatype json =
    JNull
  | JBool bool
  | JInt int
  | JFloat "64 word"
  | JStr string
  | JArr "json list"
  | JObj "(string \<times> json) list"

text \<open>An \<open>Option\<close> field is serialised as \<open>null\<close> or as its value.\<close>

definition jopt :: "('a \<Rightarrow> json) \<Rightarrow> 'a option \<Rightarrow> json" where
  "jopt f v = (case v of None \<Rightarrow> JNull | Some x \<Rightarrow> f x)"

fun jfield :: "string \<Rightarrow> json \<Rightarrow> json option" where
  "jfield k (JObj kvs) = map_of kvs k"
| "jfield k _ = None"

section \<open>Capabilities and versions\<close>

type_synonym protocol_version = u32

definition PROTOCOL_VERSION :: protocol_version where
  "PROTOCOL_VERSION = 0"

datatype capability = Messaging | Receipts | Typing | Presence | Media | Groups | Calls | Mls

text \<open>The serialised name (\<open>rename_all = "lowercase"\<close>).\<close>

fun capability_name :: "capability \<Rightarrow> string" where
  "capability_name Messaging = ''messaging''"
| "capability_name Receipts = ''receipts''"
| "capability_name Typing = ''typing''"
| "capability_name Presence = ''presence''"
| "capability_name Media = ''media''"
| "capability_name Groups = ''groups''"
| "capability_name Calls = ''calls''"
| "capability_name Mls = ''mls''"

definition negotiate_capabilities :: "capability list \<Rightarrow> capability list \<Rightarrow> capability list" where
  "negotiate_capabilities server client = filter (\<lambda>c. c \<in> set client) server"

definition negotiate_version ::
    "protocol_version \<Rightarrow> protocol_version \<Rightarrow> protocol_version" where
  "negotiate_version server client = min server client"

record hello =
  hello_client :: string
  hello_v :: protocol_version
  hello_capabilities :: "capability list"

record limits =
  max_upload_bytes :: "64 word"
  max_group_size :: u32

record welcome_frame =
  welcome_server :: string
  welcome_v :: protocol_version
  welcome_capabilities :: "capability list"
  welcome_limits :: limits

section \<open>Frames and REST bodies\<close>

record envelope =
  env_v :: protocol_version
  env_type :: string
  env_id :: uuid
  env_ts :: timestamp
  env_payload :: json

record device_registration =
  reg_display_name :: string
  reg_public_identity :: string

record register_request =
  rr_username :: string
  rr_password :: string
  rr_device :: device_registration

record login_request =
  lr_username :: string
  lr_password :: string
  lr_device :: device_registration

record refresh_request =
  rf_refresh_token :: string

record token_pair =
  access_token :: string
  refresh_token :: string
  expires_in :: i64

record auth_session =
  as_account_id :: uuid
  as_device_id :: uuid
  as_tokens :: token_pair

record api_error =
  err_code :: string
  err_message :: string

section \<open>Negotiation\<close>

text \<open>
  The negotiated capability list holds exactly the capabilities both sides advertise, it
  is a subsequence of the server's list, so it keeps the server's order and multiplicities, and
  negotiating once more with either side's list changes nothing.
\<close>

lemma negotiate_capabilities_spec:
  "set (negotiate_capabilities server client) = set server \<inter> set client
   \<and> subseq (negotiate_capabilities server client) server
   \<and> negotiate_capabilities (negotiate_capabilities server client) client
       = negotiate_capabilities server client
   \<and> negotiate_capabilities server (negotiate_capabilities server client)
       = negotiate_capabilities server client"
proof -
  have "filter (\<lambda>c. c \<in> set server \<and> c \<in> set client) server = filter (\<lambda>c. c \<in> set client) server"
    by (rule filter_cong) auto
  then show ?thesis
    by (auto simp: negotiate_capabilities_def conj_commute)
qed

lemma capability_name_inj: "capability_name c = capability_name d \<Longrightarrow> c = d"
  by (cases c; cases d) simp_all

lemma negotiate_version_le:
  "negotiate_version server client \<le> server \<and> negotiate_version server client \<le> client"
  by (simp add: negotiate_version_def)

end
