(* ===== verification/Presence_Tracking.thy ===== *)
theory Presence_Tracking
  imports Prelude "HOL-Library.AList"
begin

text \<open>
  \<open>crates/server/src/presence.rs\<close>: which devices are connected and how many per account. Each
  of the two maps has its own mutex, so \<open>on_connect\<close> and \<open>on_disconnect\<close> are two critical
  sections each; the sections are definitions of their own and the operations compose them. A
  \<open>HashMap\<close> whose keys are enumerated is an association list with distinct keys, in an
  unspecified order. Counters are natural numbers: \<open>2 ^ 64\<close> connections do not fit into memory,
  so \<open>+= 1\<close> does not overflow, while \<open>-= 1\<close> on zero wraps as in the release build.
\<close>

record presence =
  online :: "uuid \<rightharpoonup> nat"
  connected :: "(uuid \<times> uuid) list"

definition presence_new :: presence where
  "presence_new = \<lparr>online = Map.empty, connected = []\<rparr>"

definition connected_insert :: "uuid \<Rightarrow> uuid \<Rightarrow> presence \<Rightarrow> presence" where
  "connected_insert device account p = p\<lparr>connected := AList.update device account (connected p)\<rparr>"

definition online_up :: "uuid \<Rightarrow> presence \<Rightarrow> bool \<times> presence" where
  "online_up account p =
     (let c = (case online p account of None \<Rightarrow> 0 | Some c \<Rightarrow> c) + 1
      in (c = 1, p\<lparr>online := (online p)(account \<mapsto> c)\<rparr>))"

definition on_connect :: "uuid \<Rightarrow> uuid \<Rightarrow> presence \<Rightarrow> bool \<times> presence" where
  "on_connect device account p = online_up account (connected_insert device account p)"

definition connected_remove :: "uuid \<Rightarrow> presence \<Rightarrow> uuid option \<times> presence" where
  "connected_remove device p =
     (map_of (connected p) device, p\<lparr>connected := AList.delete device (connected p)\<rparr>)"

definition usize_dec :: "nat \<Rightarrow> nat" where
  "usize_dec c = (if c = 0 then 2 ^ 64 - 1 else c - 1)"

definition online_down :: "uuid \<Rightarrow> presence \<Rightarrow> bool \<times> presence" where
  "online_down account p =
     (case online p account of
        Some c \<Rightarrow>
          (let c' = usize_dec c
           in if c' = 0 then (True, p\<lparr>online := (online p)(account := None)\<rparr>)
              else (False, p\<lparr>online := (online p)(account \<mapsto> c')\<rparr>))
      | None \<Rightarrow> (True, p))"

definition on_disconnect :: "uuid \<Rightarrow> presence \<Rightarrow> (uuid \<times> bool) option \<times> presence" where
  "on_disconnect device p =
     (case connected_remove device p of
        (None, q) \<Rightarrow> (None, q)
      | (Some account, q) \<Rightarrow>
          (case online_down account q of (went_offline, r) \<Rightarrow> (Some (account, went_offline), r)))"

definition is_online :: "presence \<Rightarrow> uuid \<Rightarrow> bool" where
  "is_online p account \<longleftrightarrow> online p account \<noteq> None"

definition connected_devices :: "nat list \<Rightarrow> presence \<Rightarrow> uuid list" where
  "connected_devices order p = reorder order (map fst (connected p))"

section \<open>Connections as a sequence of events\<close>

datatype conn_event = Connect uuid uuid | Disconnect uuid

fun presence_step :: "conn_event \<Rightarrow> presence \<Rightarrow> presence" where
  "presence_step (Connect d a) p = snd (on_connect d a p)"
| "presence_step (Disconnect d) p = snd (on_disconnect d p)"

definition presence_run :: "conn_event list \<Rightarrow> presence \<Rightarrow> presence" where
  "presence_run es p = fold presence_step es p"

text \<open>The number of connected devices of an account, and what the two maps agree on.\<close>

definition device_count :: "presence \<Rightarrow> uuid \<Rightarrow> nat" where
  "device_count p a = length (filter (\<lambda>e. snd e = a) (connected p))"

definition presence_inv :: "presence \<Rightarrow> bool" where
  "presence_inv p \<longleftrightarrow>
     distinct (map fst (connected p))
   \<and> (\<forall>a. online p a = (if device_count p a = 0 then None else Some (device_count p a)))"

text \<open>No device opens a second connection while it has one.\<close>

fun single_connections :: "conn_event list \<Rightarrow> presence \<Rightarrow> bool" where
  "single_connections [] p = True"
| "single_connections (e # es) p =
     ((case e of Connect d a \<Rightarrow> d \<notin> fst ` set (connected p) | Disconnect d \<Rightarrow> True)
      \<and> single_connections es (presence_step e p))"

section \<open>The counters\<close>

lemma filter_AList_delete:
  assumes "distinct (map fst xs)"
  shows "length (filter (\<lambda>e. snd e = a) (AList.delete d xs))
       = length (filter (\<lambda>e. snd e = a) xs) - (if map_of xs d = Some a then 1 else 0)"
  using assms
proof (induction xs)
  case Nil
  show ?case by simp
next
  case (Cons x xs)
  obtain k v where x: "x = (k, v)" by (cases x)
  show ?case
  proof (cases "k = d")
    case True
    with Cons.prems x have "AList.delete d xs = xs"
      by (auto simp: AList.delete_eq filter_id_conv image_iff)
    with True x show ?thesis by simp
  next
    case False
    have "0 < length (filter (\<lambda>e. snd e = a) xs)" if "map_of xs d = Some a"
      using map_of_SomeD [OF that] by (force simp: filter_empty_conv)
    with Cons False x show ?thesis by auto
  qed
qed

lemma filter_AList_update_new:
  "d \<notin> fst ` set xs \<Longrightarrow> length (filter (\<lambda>e. snd e = a) (AList.update d b xs))
     = length (filter (\<lambda>e. snd e = a) xs) + (if a = b then 1 else 0)"
  by (induction xs) auto

lemma presence_inv_new: "presence_inv presence_new"
  by (simp add: presence_inv_def presence_new_def device_count_def)

lemma device_count_connect:
  "d \<notin> fst ` set (connected p) \<Longrightarrow>
     device_count (snd (on_connect d a p)) x = device_count p x + (if x = a then 1 else 0)"
  by (simp add: on_connect_def online_up_def connected_insert_def device_count_def Let_def
      filter_AList_update_new)

lemma presence_inv_connect:
  assumes "presence_inv p" and "d \<notin> fst ` set (connected p)"
  shows "presence_inv (snd (on_connect d a p))"
proof -
  have "distinct (map fst (connected (snd (on_connect d a p))))"
    using assms(1)
    by (simp add: on_connect_def online_up_def connected_insert_def Let_def presence_inv_def
        distinct_update)
  moreover have "online (snd (on_connect d a p)) = (online p)(a \<mapsto> device_count p a + 1)"
    using assms(1)
    by (simp add: on_connect_def online_up_def connected_insert_def Let_def presence_inv_def)
  ultimately show ?thesis
    using assms by (simp add: presence_inv_def device_count_connect)
qed

lemma connected_on_disconnect [simp]:
  "connected (snd (on_disconnect d p)) = AList.delete d (connected p)"
  by (auto simp: on_disconnect_def connected_remove_def online_down_def Let_def
      split: option.splits)

lemma device_count_disconnect:
  assumes "presence_inv p"
  shows "device_count (snd (on_disconnect d p)) x
       = device_count p x - (if map_of (connected p) d = Some x then 1 else 0)"
  using assms by (simp add: device_count_def presence_inv_def filter_AList_delete)

lemma device_count_pos:
  "map_of (connected p) d = Some a \<Longrightarrow> 0 < device_count p a"
  by (force simp: device_count_def filter_empty_conv dest: map_of_SomeD)

lemma presence_inv_disconnect:
  assumes "presence_inv p"
  shows "presence_inv (snd (on_disconnect d p))"
proof -
  have "distinct (map fst (connected (snd (on_disconnect d p))))"
    using assms by (simp add: presence_inv_def distinct_delete)
  moreover have "online (snd (on_disconnect d p)) x
      = (if device_count (snd (on_disconnect d p)) x = 0 then None
         else Some (device_count (snd (on_disconnect d p)) x))" for x
  proof (cases "map_of (connected p) d")
    case None
    with assms show ?thesis
      by (simp add: device_count_disconnect)
         (simp add: on_disconnect_def connected_remove_def presence_inv_def)
  next
    case (Some a)
    with device_count_pos have "0 < device_count p a" by blast
    with Some assms show ?thesis
      by (simp add: device_count_disconnect)
         (auto simp: on_disconnect_def connected_remove_def online_down_def presence_inv_def
          usize_dec_def Let_def)
  qed
  ultimately show ?thesis by (simp add: presence_inv_def)
qed

lemma presence_inv_run:
  "presence_inv p \<Longrightarrow> single_connections es p \<Longrightarrow> presence_inv (presence_run es p)"
proof (induction es arbitrary: p)
  case Nil
  then show ?case by (simp add: presence_run_def)
next
  case (Cons e es)
  then have "presence_inv (presence_step e p)"
    by (cases e) (auto intro: presence_inv_connect presence_inv_disconnect)
  with Cons show ?case by (simp add: presence_run_def)
qed

text \<open>
  (C30) Presence is exact. As long as no device opens a second connection while it has one, an
  account is online exactly when one of its devices is connected, and its counter is the number
  of those devices, after any sequence of connects and disconnects.
\<close>

theorem presence_exact:
  assumes "single_connections es presence_new"
  shows "is_online (presence_run es presence_new) a
           \<longleftrightarrow> a \<in> snd ` set (connected (presence_run es presence_new))
       \<and> (is_online (presence_run es presence_new) a \<longrightarrow>
            online (presence_run es presence_new) a
              = Some (device_count (presence_run es presence_new) a))"
proof -
  have "presence_inv (presence_run es presence_new)"
    using presence_inv_new assms by (rule presence_inv_run)
  then show ?thesis
    by (auto simp: presence_inv_def is_online_def device_count_def filter_empty_conv image_iff)
qed

theorem presence_exact_witness:
  "single_connections [Connect 1 9, Connect 2 9, Disconnect 1] presence_new
   \<and> is_online (presence_run [Connect 1 9, Connect 2 9, Disconnect 1] presence_new) 9"
proof -
  have h: "single_connections [Connect 1 9, Connect 2 9, Disconnect 1] presence_new"
    by (simp add: presence_new_def on_connect_def online_up_def connected_insert_def)
  have "9 \<in> snd ` set (connected (presence_run [Connect 1 9, Connect 2 9, Disconnect 1] presence_new))"
    by (simp add: presence_run_def presence_new_def on_connect_def online_up_def
        connected_insert_def on_disconnect_def connected_remove_def online_down_def usize_dec_def)
  with h presence_exact [OF h, of 9] show ?thesis by blast
qed

text \<open>
  (C33) A device with two live sockets leaks presence. The counter counts connections while the
  connection map holds one entry per device, so after a device connects twice and both
  connections are closed, the account stays online with no device connected, and no further
  disconnect of that device changes this.
\<close>

theorem second_socket_leaks_presence:
  "is_online (presence_run ([Connect d a, Connect d a, Disconnect d] @ replicate n (Disconnect d))
      presence_new) a
   \<and> connected (presence_run ([Connect d a, Connect d a, Disconnect d] @ replicate n (Disconnect d))
      presence_new) = []"
proof -
  let ?p = "presence_run [Connect d a, Connect d a, Disconnect d] presence_new"
  have p: "?p = \<lparr>online = Map.empty(a \<mapsto> 1), connected = []\<rparr>"
    by (simp add: presence_run_def presence_new_def on_connect_def online_up_def
        connected_insert_def on_disconnect_def connected_remove_def online_down_def usize_dec_def
        Let_def)
  have "presence_step (Disconnect d) ?p = ?p"
    unfolding p by (simp add: on_disconnect_def connected_remove_def)
  then have "presence_run (replicate n (Disconnect d)) ?p = ?p"
    by (induction n) (simp_all add: presence_run_def)
  then have "presence_run ([Connect d a, Connect d a, Disconnect d] @ replicate n (Disconnect d))
      presence_new = ?p"
    unfolding presence_run_def fold_append by simp
  then show ?thesis unfolding p by (simp add: is_online_def)
qed

end
