(* ===== verification/Realtime.thy ===== *)
theory Realtime
  imports Protocol
begin

text \<open>
  \<open>crates/realtime\<close>: the publish/subscribe bus. \<open>tokio::sync::broadcast\<close> is outside the
  repository, so a channel is the sequence of calls the server makes on it; what a receiver
  gets is a function of that sequence given by the channel's documentation (\<open>heard\<close>: the
  values sent after its subscription). Which of them \<open>recv\<close> returns next depends on how far the
  receiver lags behind and is left to the channel, see \<open>recv_outcome\<close>.
  The trait \<open>RealtimeBus\<close> is a locale; \<open>InProcessBus\<close> is its interpretation.
\<close>

datatype chan_op = Send envelope | Subscribe

record in_process_bus =
  channels :: "uuid \<rightharpoonup> chan_op list"
  capacity :: nat

definition bus_new :: "nat \<Rightarrow> in_process_bus" where
  "bus_new cap = \<lparr>channels = Map.empty, capacity = cap\<rparr>"

definition bus_default :: in_process_bus where
  "bus_default = bus_new 256"

text \<open>\<open>sender\<close>: the device's channel, created on first use.\<close>

definition sender :: "uuid \<Rightarrow> in_process_bus \<Rightarrow> chan_op list \<times> in_process_bus" where
  "sender device b =
     (case channels b device of
        Some ch \<Rightarrow> (ch, b)
      | None \<Rightarrow> ([], b\<lparr>channels := (channels b)(device \<mapsto> [])\<rparr>))"

definition publish :: "uuid \<Rightarrow> envelope \<Rightarrow> in_process_bus \<Rightarrow> in_process_bus" where
  "publish device event b =
     (case sender device b of
        (ch, b') \<Rightarrow> b'\<lparr>channels := (channels b')(device \<mapsto> ch @ [Send event])\<rparr>)"

text \<open>The receiver is identified by its position among the channel's subscriptions.\<close>

definition subscribe :: "uuid \<Rightarrow> in_process_bus \<Rightarrow> nat \<times> in_process_bus" where
  "subscribe device b =
     (case sender device b of
        (ch, b') \<Rightarrow> (length (filter (\<lambda>c. c = Subscribe) ch),
                     b'\<lparr>channels := (channels b')(device \<mapsto> ch @ [Subscribe])\<rparr>))"

definition calls :: "in_process_bus \<Rightarrow> uuid \<Rightarrow> chan_op list" where
  "calls b device = (case channels b device of None \<Rightarrow> [] | Some ch \<Rightarrow> ch)"

fun sends :: "chan_op list \<Rightarrow> envelope list" where
  "sends [] = []"
| "sends (Send e # cs) = e # sends cs"
| "sends (Subscribe # cs) = sends cs"

fun heard :: "nat \<Rightarrow> chan_op list \<Rightarrow> envelope list" where
  "heard k [] = []"
| "heard k (Send e # cs) = heard k cs"
| "heard k (Subscribe # cs) = (case k of 0 \<Rightarrow> sends cs | Suc j \<Rightarrow> heard j cs)"

text \<open>
  What \<open>Receiver::recv\<close> returns when it is ready: the next value, or an error that says that values
  were skipped because the receiver lagged behind the channel's capacity. (The channels are never
  closed: the bus keeps every sender.)
\<close>

datatype recv_outcome = Received envelope | Lagged

lemma sends_append [simp]: "sends (xs @ ys) = sends xs @ sends ys"
  by (induction xs rule: sends.induct) auto

lemma heard_append:
  "k < length (filter (\<lambda>c. c = Subscribe) cs) \<Longrightarrow> heard k (cs @ ds) = heard k cs @ sends ds"
  by (induction k cs rule: heard.induct) (auto split: nat.splits)

lemma heard_append_send:
  "k < length (filter (\<lambda>c. c = Subscribe) cs) \<Longrightarrow> heard k (cs @ [Send e]) = heard k cs @ [e]"
  by (simp add: heard_append)

lemma heard_fresh: "heard (length (filter (\<lambda>c. c = Subscribe) cs)) (cs @ [Subscribe]) = []"
  by (induction cs) (auto, metis (full_types) chan_op.exhaust heard.simps(2) chan_op.distinct(1))

section \<open>The bus interface\<close>

locale realtime_bus =
  fixes pub :: "uuid \<Rightarrow> envelope \<Rightarrow> 'b \<Rightarrow> 'b"
    and sub :: "uuid \<Rightarrow> 'b \<Rightarrow> nat \<times> 'b"
    and log :: "'b \<Rightarrow> uuid \<Rightarrow> chan_op list"
  assumes log_pub: "log (pub d e b) x = (if x = d then log b d @ [Send e] else log b x)"
    and log_sub: "log (snd (sub d b)) x = (if x = d then log b d @ [Subscribe] else log b x)"
    and sub_id: "fst (sub d b) = length (filter (\<lambda>c. c = Subscribe) (log b d))"
begin

text \<open>Publishing one event to a list of devices in turn, as every fan-out loop does.\<close>

definition pub_all :: "uuid list \<Rightarrow> envelope \<Rightarrow> 'b \<Rightarrow> 'b" where
  "pub_all ds e b = fold (\<lambda>d. pub d e) ds b"

lemma log_pub_all: "log (pub_all ds e b) x = log b x @ replicate (count_list ds x) (Send e)"
  by (induction ds arbitrary: b) (auto simp: pub_all_def log_pub replicate_append_same)

lemma sends_pub_all: "sends (log (pub_all ds e b) x) = sends (log b x) @ replicate (count_list ds x) e"
proof -
  have "sends (replicate n (Send e)) = replicate n e" for n
    by (induction n) simp_all
  then show ?thesis by (simp add: log_pub_all)
qed

text \<open>A receiver hears what is published after it subscribed.\<close>

lemma heard_after_sub:
  "heard (fst (sub d b)) (log (pub d e (snd (sub d b))) d) = [e]"
proof -
  let ?cs = "log b d @ [Subscribe]"
  have "heard (fst (sub d b)) (?cs @ [Send e]) = heard (fst (sub d b)) ?cs @ [e]"
    by (rule heard_append_send) (simp add: sub_id)
  then show ?thesis by (simp add: log_pub log_sub sub_id heard_fresh)
qed

end

interpretation ipb: realtime_bus publish subscribe calls
  by unfold_locales
     (auto simp: calls_def publish_def subscribe_def sender_def split: option.splits)

end
