(* ===== verification/Schema.thy ===== *)
theory Schema
  imports Prog Protocol Presence_Tracking Realtime
begin

text \<open>
  The database schema of \<open>crates/storage/migrations\<close>, the row types of \<open>models.rs\<close>, the error
  types of the storage layer, and the world outside the repository. A table is the list of its
  rows. A SQL statement is a function from the database to a result and the new database; it
  checks the constraints the migrations declare and changes nothing when it fails.
\<close>

section \<open>Rows\<close>

record account =
  acc_id :: uuid
  acc_username :: string
  acc_password_verifier :: string
  acc_created_at :: timestamp

record device =
  dev_id :: uuid
  dev_account_id :: uuid
  dev_display_name :: string
  dev_public_identity :: bytes
  dev_created_at :: timestamp
  dev_revoked_at :: "timestamp option"

record session =
  ses_id :: uuid
  ses_device_id :: uuid
  ses_access_token_hash :: bytes
  ses_refresh_token_hash :: bytes
  ses_expires_at :: timestamp
  ses_revoked_at :: "timestamp option"
  ses_created_at :: timestamp

record conversation =
  conv_id :: uuid
  conv_kind :: string
  conv_epoch :: i64
  conv_last_seq :: i64
  conv_created_at :: timestamp

record member =
  mem_conversation_id :: uuid
  mem_account_id :: uuid

record dm_pair =
  dm_account_lo :: uuid
  dm_account_hi :: uuid
  dm_conversation_id :: uuid

record message =
  msg_id :: uuid
  msg_conversation_id :: uuid
  msg_seq :: i64
  msg_sender_account_id :: uuid
  msg_sender_device_id :: "uuid option"
  msg_ciphertext :: bytes
  msg_server_ts :: timestamp
  msg_reply_to :: "uuid option"
  msg_edited_at :: "timestamp option"
  msg_deleted_at :: "timestamp option"

record marker =
  mk_conversation_id :: uuid
  mk_account_id :: uuid
  mk_up_to_seq :: i64

record profile =
  pr_account_id :: uuid
  pr_display_name :: "string option"
  pr_bio :: "string option"
  pr_avatar_blob_id :: "uuid option"
  pr_last_seen :: "timestamp option"

record blob =
  bl_id :: uuid
  bl_content_type :: string
  bl_bytes :: bytes
  bl_created_at :: timestamp

record media =
  md_id :: uuid
  md_conversation_id :: uuid
  md_message_id :: uuid
  md_sender_account_id :: uuid
  md_seq :: i64
  md_kind :: string
  md_blob_id :: "uuid option"
  md_thumb_blob_id :: "uuid option"
  md_mime :: "string option"
  md_name :: "string option"
  md_url :: "string option"
  md_size :: "i64 option"
  md_width :: "i64 option"
  md_height :: "i64 option"
  md_created_at :: timestamp

record hidden_message =
  hid_message_id :: uuid
  hid_account_id :: uuid

record database =
  accounts :: "account list"
  devices :: "device list"
  sessions :: "session list"
  conversations :: "conversation list"
  conversation_members :: "member list"
  dm_conversations :: "dm_pair list"
  messages :: "message list"
  read_markers :: "marker list"
  delivered_markers :: "marker list"
  profiles :: "profile list"
  blobs :: "blob list"
  media_rows :: "media list"
  hidden_messages :: "hidden_message list"

definition empty_database :: database where
  "empty_database =
     \<lparr>accounts = [], devices = [], sessions = [], conversations = [], conversation_members = [],
      dm_conversations = [], messages = [], read_markers = [], delivered_markers = [],
      profiles = [], blobs = [], media_rows = [], hidden_messages = []\<rparr>"

section \<open>Errors of the storage layer\<close>

datatype db_error = UniqueViolation | ForeignKeyViolation | NumericOutOfRange | InvalidRowCount

text \<open>\<open>sqlx::Error\<close>, as far as the code tells its values apart.\<close>

datatype sqlx_error = Database db_error | RowNotFound | OtherSqlx string

datatype storage_error = Sqlx sqlx_error | Migrate string | StorageConflict string

type_synonym 'a stmt = "database \<Rightarrow> (sqlx_error + 'a) \<times> database"

section \<open>The world outside\<close>

text \<open>
  Everything the server gets from outside the repository. \<open>fault n\<close> says whether the \<open>n\<close>-th
  interaction, if it is a SQL statement, fails: before it takes effect, or after it (the
  connection breaks while the reply is under way). The other fields are the clocks of Postgres
  and of the server, the generators of UUIDs and random bytes, the row order Postgres chooses,
  its collation (as a sort key), and the functions of third-party crates: \<open>uuid\<close>, \<open>base64\<close>,
  \<open>sha2\<close>, \<open>argon2\<close>, \<open>time\<close>, \<open>http\<close> and the texts of \<open>sqlx::Error\<close>. \<open>chan_recv cap ops k i\<close> is
  \<open>recv\<close> of \<open>tokio\<close>'s broadcast channels: for a channel of capacity \<open>cap\<close> on which \<open>ops\<close> were
  performed, what its \<open>k\<close>-th receiver, having moved past \<open>i\<close> of the values it hears, gets next and
  how many it has then moved past, or nothing if it has to wait.
\<close>

datatype fault = NoFault | FailBefore string | FailAfter string

record world =
  fault :: "nat \<Rightarrow> fault"
  pg_now :: "nat \<Rightarrow> timestamp"
  app_now :: "nat \<Rightarrow> timestamp"
  uuid_at :: "nat \<Rightarrow> uuid"
  random_bytes :: "nat \<Rightarrow> bytes"
  row_order :: "nat \<Rightarrow> nat list"
  collate :: "string \<Rightarrow> nat list"
  uuid_str :: "uuid \<Rightarrow> string"
  uuid_parse :: "string \<Rightarrow> uuid option"
  b64_decode :: "string \<Rightarrow> bytes option"
  b64_encode :: "bytes \<Rightarrow> string"
  b64url_encode :: "bytes \<Rightarrow> string"
  sha256 :: "string \<Rightarrow> bytes"
  argon2_hash :: "nat \<Rightarrow> string \<Rightarrow> string + string"
  phc_valid :: "string \<Rightarrow> bool"
  argon2_verify :: "string \<Rightarrow> string \<Rightarrow> bool"
  rfc3339_format :: "timestamp \<Rightarrow> string option"
  rfc3339_parse :: "string \<Rightarrow> timestamp option"
  chan_recv :: "nat \<Rightarrow> chan_op list \<Rightarrow> nat \<Rightarrow> nat \<Rightarrow> (recv_outcome \<times> nat) option"
  header_to_str :: "string \<Rightarrow> string option"
  sqlx_text :: "sqlx_error \<Rightarrow> string"

section \<open>The state of the running server\<close>

text \<open>
  \<open>AppState\<close>: the database behind the pool, live presence and the bus. \<open>tick\<close> numbers the
  interactions with the outside world. \<open>dm_claim\<close> is an auxiliary variable in the sense of Owicki
  and Gries: no program reads it; the statement that creates a conversation records the account
  pair the conversation was created for, so that proofs about interleaved tasks can say so.
\<close>

record sys =
  db :: database
  pres :: presence
  bus :: in_process_bus
  tick :: nat
  dm_claim :: "uuid \<rightharpoonup> uuid \<times> uuid"

definition advance :: "sys \<Rightarrow> sys" where
  "advance s = s\<lparr>tick := Suc (tick s)\<rparr>"

text \<open>Executing one SQL statement through the pool.\<close>

definition pg :: "world \<Rightarrow> (nat \<Rightarrow> 'a stmt) \<Rightarrow> (sys, sqlx_error + 'a) prog" where
  "pg w q = atomic (\<lambda>s.
     (case fault w (tick s) of
        NoFault \<Rightarrow> (case q (tick s) (db s) of (r, d) \<Rightarrow> (r, (advance s)\<lparr>db := d\<rparr>))
      | FailBefore e \<Rightarrow> (Inl (OtherSqlx e), advance s)
      | FailAfter e \<Rightarrow> (Inl (OtherSqlx e), (advance s)\<lparr>db := snd (q (tick s) (db s))\<rparr>)))"

text \<open>\<open>Uuid::new_v4\<close> and \<open>Uuid::now_v7\<close>; \<open>OffsetDateTime::now_utc\<close>; \<open>OsRng.fill_bytes\<close>.\<close>

definition new_uuid :: "world \<Rightarrow> (sys, uuid) prog" where
  "new_uuid w = atomic (\<lambda>s. (uuid_at w (tick s), advance s))"

definition now_utc :: "world \<Rightarrow> (sys, timestamp) prog" where
  "now_utc w = atomic (\<lambda>s. (app_now w (tick s), advance s))"

definition fill_bytes :: "world \<Rightarrow> (sys, bytes) prog" where
  "fill_bytes w = atomic (\<lambda>s. (random_bytes w (tick s), advance s))"

text \<open>Reading state that a handler only looks at.\<close>

definition look :: "(sys \<Rightarrow> 'a) \<Rightarrow> (sys, 'a) prog" where
  "look f = atomic (\<lambda>s. (f s, s))"

section \<open>Executing the primitives\<close>

lemma advance_simps [simp]:
  "db (advance s) = db s" "pres (advance s) = pres s" "bus (advance s) = bus s"
  "tick (advance s) = Suc (tick s)" "dm_claim (advance s) = dm_claim s"
  by (simp_all add: advance_def)

lemma run_pg [run_simps]:
  "run (pg w q) s =
     (case fault w (tick s) of
        NoFault \<Rightarrow> (case q (tick s) (db s) of (r, d) \<Rightarrow> (r, (advance s)\<lparr>db := d\<rparr>))
      | FailBefore e \<Rightarrow> (Inl (OtherSqlx e), advance s)
      | FailAfter e \<Rightarrow> (Inl (OtherSqlx e), (advance s)\<lparr>db := snd (q (tick s) (db s))\<rparr>))"
  by (simp add: pg_def run_atomic)

lemma run_pg_cases:
  obtains "db (snd (run (pg w q) s)) = db s" | "db (snd (run (pg w q) s)) = snd (q (tick s) (db s))"
  by (cases "q (tick s) (db s)"; cases "fault w (tick s)") (simp_all add: run_pg)

lemma run_new_uuid [run_simps]: "run (new_uuid w) s = (uuid_at w (tick s), advance s)"
  by (simp add: new_uuid_def run_atomic)

lemma run_now_utc [run_simps]: "run (now_utc w) s = (app_now w (tick s), advance s)"
  by (simp add: now_utc_def run_atomic)

lemma run_fill_bytes [run_simps]: "run (fill_bytes w) s = (random_bytes w (tick s), advance s)"
  by (simp add: fill_bytes_def run_atomic)

lemma run_look [run_simps]: "run (look f) s = (f s, s)"
  by (simp add: look_def run_atomic)

text \<open>Without faults a statement is executed exactly once.\<close>

definition no_faults :: "world \<Rightarrow> bool" where
  "no_faults w \<longleftrightarrow> (\<forall>n. fault w n = NoFault)"

lemma no_faultsD: "no_faults w \<Longrightarrow> fault w n = NoFault"
  by (simp add: no_faults_def)

lemma advance_same_db [simp]: "(advance s)\<lparr>db := db s\<rparr> = advance s"
  by (simp add: advance_def)

lemma run_pg_ok:
  "no_faults w \<Longrightarrow> run (pg w q) s = (case q (tick s) (db s) of (r, d) \<Rightarrow> (r, (advance s)\<lparr>db := d\<rparr>))"
  by (simp add: run_pg no_faults_def)

section \<open>Statements that only read\<close>

definition reads :: "'a stmt \<Rightarrow> bool" where
  "reads q \<longleftrightarrow> (\<forall>d. snd (q d) = d)"

definition same_db :: "sys \<Rightarrow> sys \<Rightarrow> bool" where
  "same_db s t \<longleftrightarrow> db t = db s"

lemma same_db_refl [simp]: "same_db s s"
  by (simp add: same_db_def)

lemma same_db_trans: "same_db s t \<Longrightarrow> same_db t u \<Longrightarrow> same_db s u"
  by (simp add: same_db_def)

lemma guar_pg_reads [guar_intros]: "(\<And>n. reads (q n)) \<Longrightarrow> guar same_db (pg w q)"
  unfolding pg_def
  by (rule guar_atomic) (auto simp: same_db_def reads_def split: fault.splits prod.splits, metis snd_conv)

lemma guar_new_uuid [guar_intros]: "guar same_db (new_uuid w)"
  unfolding new_uuid_def by (rule guar_atomic) (simp add: same_db_def)

lemma guar_now_utc [guar_intros]: "guar same_db (now_utc w)"
  unfolding now_utc_def by (rule guar_atomic) (simp add: same_db_def)

lemma guar_fill_bytes [guar_intros]: "guar same_db (fill_bytes w)"
  unfolding fill_bytes_def by (rule guar_atomic) (simp add: same_db_def)

lemma guar_look [guar_intros]: "guar same_db (look f)"
  unfolding look_def by (rule guar_atomic) simp

lemma guar_same_db_run: "guar same_db p \<Longrightarrow> db (snd (run p s)) = db s"
  using guar_run [of same_db p s] same_db_trans by (auto simp: same_db_def)

section \<open>A concrete world\<close>

text \<open>
  One world in which nothing fails, for evaluating the model on concrete inputs. Its codecs and
  hash are simple injective functions, its clocks count interactions.
\<close>

text \<open>A channel that keeps the last \<open>cap\<close> values, and a receiver at position \<open>i\<close> of what it hears.\<close>

definition demo_recv :: "nat \<Rightarrow> chan_op list \<Rightarrow> nat \<Rightarrow> nat \<Rightarrow> (recv_outcome \<times> nat) option" where
  "demo_recv cap ops k i =
     (let h = heard k ops in
      if length h \<le> i then None
      else if length h - i \<le> cap then Some (Received (h ! i), Suc i)
      else Some (Lagged, length h - cap))"

definition demo_world :: world where
  "demo_world =
     \<lparr>fault = (\<lambda>_. NoFault), pg_now = int, app_now = int, uuid_at = (\<lambda>n. of_nat (1000 + n)),
      random_bytes = (\<lambda>n. [of_nat n]), row_order = (\<lambda>_. []), collate = map of_char,
      uuid_str = (\<lambda>u. replicate (unat u) CHR ''x''), uuid_parse = (\<lambda>s. Some (of_nat (length s))),
      b64_decode = (\<lambda>s. Some (map of_char s)), b64_encode = map (\<lambda>b. char_of (unat b)),
      b64url_encode = map (\<lambda>b. char_of (unat b)), sha256 = map of_char,
      argon2_hash = (\<lambda>_ p. Inr p), phc_valid = (\<lambda>_. True), argon2_verify = (\<lambda>v p. v = p),
      rfc3339_format = (\<lambda>_. Some ''ts''), rfc3339_parse = (\<lambda>_. None), chan_recv = demo_recv,
      header_to_str = Some, sqlx_text = (\<lambda>_. ''sql'')\<rparr>"

definition demo_sys :: sys where
  "demo_sys = \<lparr>db = empty_database, pres = presence_new, bus = bus_default, tick = 0,
     dm_claim = Map.empty\<rparr>"

lemma no_faults_demo [simp]: "no_faults demo_world"
  by (simp add: no_faults_def demo_world_def)

lemma demo_world_simps [simp]:
  "fault demo_world n = NoFault" "pg_now demo_world = int" "app_now demo_world = int"
  "uuid_at demo_world n = of_nat (1000 + n)" "random_bytes demo_world n = [of_nat n]"
  "row_order demo_world n = []" "uuid_str demo_world u = replicate (unat u) CHR ''x''"
  "uuid_parse demo_world s = Some (of_nat (length s))" "b64_decode demo_world s = Some (map of_char s)"
  "b64_encode demo_world = map (\<lambda>b. char_of (unat b))" "b64url_encode demo_world = map (\<lambda>b. char_of (unat b))"
  "sha256 demo_world = map of_char" "argon2_hash demo_world n p = Inr p" "phc_valid demo_world p = True"
  "argon2_verify demo_world v p = (v = p)" "rfc3339_format demo_world ts = Some ''ts''"
  "header_to_str demo_world = Some" "chan_recv demo_world = demo_recv"
  by (simp_all add: demo_world_def)

lemma of_char_char_of_byte [simp]: "of_char (char_of (n :: nat)) = (of_nat (n mod 256) :: 8 word)"
proof -
  have "of_char c = (of_nat (of_char c) :: 8 word)" for c by (cases c) simp
  then show ?thesis by (simp add: of_char_of)
qed

text \<open>Two accounts, each with a device and a live session, and the headers of their requests.\<close>

definition demo_two :: sys where
  "demo_two = demo_sys\<lparr>tick := 30, db := empty_database\<lparr>
     accounts :=
       [\<lparr>acc_id = 1, acc_username = ''al'', acc_password_verifier = ''passw0rd'', acc_created_at = 2\<rparr>,
        \<lparr>acc_id = 2, acc_username = ''bo'', acc_password_verifier = ''hunter22'', acc_created_at = 3\<rparr>],
     devices :=
       [\<lparr>dev_id = 11, dev_account_id = 1, dev_display_name = ''pc'', dev_public_identity = [], dev_created_at = 4,
          dev_revoked_at = None\<rparr>,
        \<lparr>dev_id = 12, dev_account_id = 2, dev_display_name = ''tv'', dev_public_identity = [], dev_created_at = 5,
          dev_revoked_at = None\<rparr>],
     sessions :=
       [\<lparr>ses_id = 21, ses_device_id = 11, ses_access_token_hash = [65], ses_refresh_token_hash = [97],
          ses_expires_at = 4000000, ses_revoked_at = None, ses_created_at = 6\<rparr>,
        \<lparr>ses_id = 22, ses_device_id = 12, ses_access_token_hash = [66], ses_refresh_token_hash = [98],
          ses_expires_at = 4000000, ses_revoked_at = None, ses_created_at = 7\<rparr>]\<rparr>\<rparr>"

definition demo_al :: "(string \<times> string) list" where
  "demo_al = [(''authorization'', ''Bearer A'')]"

definition demo_bo :: "(string \<times> string) list" where
  "demo_bo = [(''authorization'', ''Bearer B'')]"

lemmas demo_defs [prog_defs] = demo_sys_def demo_two_def demo_al_def demo_bo_def empty_database_def
  advance_def

end
