(* ===== verification/Auth_Repo.thy ===== *)
theory Auth_Repo
  imports Schema
begin

text \<open>
  \<open>crates/storage/src/auth_repo.rs\<close>: the SQL repository for accounts, devices and sessions, one
  statement per function. \<open>now\<close> is the value of Postgres' \<open>now()\<close> in the statement.
\<close>

definition create_account :: "timestamp \<Rightarrow> uuid \<Rightarrow> string \<Rightarrow> string \<Rightarrow> account stmt" where
  "create_account now aid username verifier d =
     (if has_key acc_id aid (accounts d) \<or> has_key acc_username username (accounts d)
      then (Inl (Database UniqueViolation), d)
      else let a = \<lparr>acc_id = aid, acc_username = username, acc_password_verifier = verifier,
                    acc_created_at = now\<rparr>
           in (Inr a, d\<lparr>accounts := accounts d @ [a]\<rparr>))"

definition find_account_by_username :: "string \<Rightarrow> account option stmt" where
  "find_account_by_username username d =
     (Inr (List.find (\<lambda>a. acc_username a = username) (accounts d)), d)"

definition create_device ::
    "timestamp \<Rightarrow> uuid \<Rightarrow> uuid \<Rightarrow> string \<Rightarrow> bytes \<Rightarrow> device stmt" where
  "create_device now did account display_name public_identity d =
     (if has_key dev_id did (devices d) then (Inl (Database UniqueViolation), d)
      else if \<not> has_key acc_id account (accounts d) then (Inl (Database ForeignKeyViolation), d)
      else let v = \<lparr>dev_id = did, dev_account_id = account, dev_display_name = display_name,
                    dev_public_identity = public_identity, dev_created_at = now,
                    dev_revoked_at = None\<rparr>
           in (Inr v, d\<lparr>devices := devices d @ [v]\<rparr>))"

definition create_session ::
    "timestamp \<Rightarrow> uuid \<Rightarrow> uuid \<Rightarrow> bytes \<Rightarrow> bytes \<Rightarrow> timestamp \<Rightarrow> session stmt" where
  "create_session now sid device access_hash refresh_hash expires_at d =
     (if has_key ses_id sid (sessions d)
       \<or> has_key ses_access_token_hash access_hash (sessions d)
       \<or> has_key ses_refresh_token_hash refresh_hash (sessions d)
      then (Inl (Database UniqueViolation), d)
      else if \<not> has_key dev_id device (devices d) then (Inl (Database ForeignKeyViolation), d)
      else let e = \<lparr>ses_id = sid, ses_device_id = device, ses_access_token_hash = access_hash,
                    ses_refresh_token_hash = refresh_hash, ses_expires_at = expires_at,
                    ses_revoked_at = None, ses_created_at = now\<rparr>
           in (Inr e, d\<lparr>sessions := sessions d @ [e]\<rparr>))"

definition find_live_session_by_access_hash ::
    "timestamp \<Rightarrow> bytes \<Rightarrow> session option stmt" where
  "find_live_session_by_access_hash now h d =
     (Inr (List.find (\<lambda>e. ses_access_token_hash e = h \<and> ses_revoked_at e = None
                          \<and> ses_expires_at e > now) (sessions d)), d)"

definition find_live_session_by_refresh_hash :: "bytes \<Rightarrow> session option stmt" where
  "find_live_session_by_refresh_hash h d =
     (Inr (List.find (\<lambda>e. ses_refresh_token_hash e = h \<and> ses_revoked_at e = None)
        (sessions d)), d)"

text \<open>An \<open>UPDATE\<close> that would repeat another session's token hash violates a unique index.\<close>

definition rotate_session ::
    "uuid \<Rightarrow> bytes \<Rightarrow> bytes \<Rightarrow> timestamp \<Rightarrow> unit stmt" where
  "rotate_session sid new_access new_refresh expires_at d =
     (if has_key ses_id sid (sessions d)
       \<and> (has_key ses_access_token_hash new_access (filter (\<lambda>e. ses_id e \<noteq> sid) (sessions d))
         \<or> has_key ses_refresh_token_hash new_refresh (filter (\<lambda>e. ses_id e \<noteq> sid) (sessions d)))
      then (Inl (Database UniqueViolation), d)
      else (Inr (), d\<lparr>sessions := update_where (\<lambda>e. ses_id e = sid)
              (\<lambda>e. e\<lparr>ses_access_token_hash := new_access, ses_refresh_token_hash := new_refresh,
                    ses_expires_at := expires_at\<rparr>) (sessions d)\<rparr>))"

definition list_accounts :: "(string \<Rightarrow> nat list) \<Rightarrow> nat list \<Rightarrow> account list stmt" where
  "list_accounts coll order d =
     (Inr (sort_key (\<lambda>a. coll (acc_username a)) (reorder order (accounts d))), d)"

definition find_device_by_id :: "uuid \<Rightarrow> device option stmt" where
  "find_device_by_id did d = (Inr (List.find (\<lambda>v. dev_id v = did) (devices d)), d)"

definition list_devices_for_account :: "nat list \<Rightarrow> uuid \<Rightarrow> device list stmt" where
  "list_devices_for_account order account d =
     (Inr (reorder order
        (filter (\<lambda>v. dev_account_id v = account \<and> dev_revoked_at v = None) (devices d))), d)"

definition revoke_session :: "timestamp \<Rightarrow> uuid \<Rightarrow> unit stmt" where
  "revoke_session now sid d =
     (Inr (), d\<lparr>sessions := update_where (\<lambda>e. ses_id e = sid \<and> ses_revoked_at e = None)
              (\<lambda>e. e\<lparr>ses_revoked_at := Some now\<rparr>) (sessions d)\<rparr>)"

lemmas auth_writes [table_defs] =
  create_account_def create_device_def create_session_def rotate_session_def revoke_session_def

lemma reads_auth [guar_intros, simp]:
  "reads (find_account_by_username u)" "reads (find_live_session_by_access_hash now h)"
  "reads (find_live_session_by_refresh_hash h)" "reads (list_accounts coll order)"
  "reads (find_device_by_id did)" "reads (list_devices_for_account order a)"
  by (simp_all add: reads_def find_account_by_username_def find_live_session_by_access_hash_def
      find_live_session_by_refresh_hash_def list_accounts_def find_device_by_id_def
      list_devices_for_account_def)

section \<open>The invariant of the auth tables\<close>

definition auth_inv :: "database \<Rightarrow> bool" where
  "auth_inv d \<longleftrightarrow>
     distinct (map acc_id (accounts d)) \<and> distinct (map acc_username (accounts d))
   \<and> distinct (map dev_id (devices d))
   \<and> distinct (map ses_id (sessions d))
   \<and> distinct (map ses_access_token_hash (sessions d))
   \<and> distinct (map ses_refresh_token_hash (sessions d))
   \<and> dev_account_id ` set (devices d) \<subseteq> acc_id ` set (accounts d)
   \<and> ses_device_id ` set (sessions d) \<subseteq> dev_id ` set (devices d)"

text \<open>
  What every statement keeps of the auth tables: accounts and devices stay as they are, a
  session keeps its device, and a revoked session stays revoked.
\<close>

definition ses_le :: "session \<Rightarrow> session \<Rightarrow> bool" where
  "ses_le x y \<longleftrightarrow> ses_id y = ses_id x \<and> ses_device_id y = ses_device_id x
     \<and> (ses_revoked_at x \<noteq> None \<longrightarrow> ses_revoked_at y = ses_revoked_at x)"

definition auth_grows :: "database \<Rightarrow> database \<Rightarrow> bool" where
  "auth_grows d e \<longleftrightarrow>
     set (accounts d) \<subseteq> set (accounts e) \<and> set (devices d) \<subseteq> set (devices e)
   \<and> rows_grow ses_le (sessions d) (sessions e)"

lemma auth_inv_create_account: "auth_inv d \<Longrightarrow> auth_inv (snd (create_account now i u v d))"
  by (auto simp: auth_inv_def create_account_def has_key_iff Let_def)

lemma auth_inv_create_device: "auth_inv d \<Longrightarrow> auth_inv (snd (create_device now i a n k d))"
  by (auto simp: auth_inv_def create_device_def has_key_iff Let_def)

lemma auth_inv_create_session: "auth_inv d \<Longrightarrow> auth_inv (snd (create_session now i v a r x d))"
  by (auto simp: auth_inv_def create_session_def has_key_iff Let_def)

lemma auth_inv_revoke_session: "auth_inv d \<Longrightarrow> auth_inv (snd (revoke_session now i d))"
  by (auto simp: auth_inv_def revoke_session_def)

text \<open>Replacing one row's key by a value no other row has keeps the key unique.\<close>

lemma distinct_rekey:
  assumes "distinct (map pk rows)" and "distinct (map key rows)"
    and "\<not> has_key key k (filter (\<lambda>r. pk r \<noteq> i) rows)"
    and "\<And>r. key (f r) = k" and "\<And>r. pk (f r) = pk r"
  shows "distinct (map key (update_where (\<lambda>r. pk r = i) f rows))"
  using assms(1-3)
proof (induction rows)
  case Nil
  show ?case by (simp add: update_where_def)
next
  case (Cons r rows)
  show ?case
  proof (cases "pk r = i")
    case True
    with Cons.prems have no: "\<forall>x \<in> set rows. pk x \<noteq> i" by (auto simp: image_iff)
    then have "filter (\<lambda>r. pk r \<noteq> i) rows = rows" by simp
    moreover have "update_where (\<lambda>r. pk r = i) f (r # rows) = f r # rows"
      using True update_where_no [OF no, of f] by (simp add: update_where_def)
    ultimately show ?thesis
      using Cons.prems True assms(4) by (simp add: has_key_iff)
  next
    case False
    have "key r \<notin> key ` set (update_where (\<lambda>r. pk r = i) f rows)"
      using Cons.prems False assms(4) by (auto simp: update_where_def has_key_iff)
    with Cons False show ?thesis
      by (auto simp: update_where_def)
  qed
qed

lemma auth_inv_rotate_session: "auth_inv d \<Longrightarrow> auth_inv (snd (rotate_session i a r x d))"
proof (cases "has_key ses_id i (sessions d)")
  case True
  assume "auth_inv d"
  with True show ?thesis
    by (auto simp: auth_inv_def rotate_session_def intro!: distinct_rekey)
next
  case False
  assume "auth_inv d"
  have "update_where (\<lambda>e. ses_id e = i) f (sessions d) = sessions d" for f
    using False by (intro update_where_no) (auto simp: has_key_iff)
  with \<open>auth_inv d\<close> False show ?thesis by (simp add: rotate_session_def)
qed

lemma ses_le_refl [simp]: "ses_le x x"
  by (simp add: ses_le_def)

lemma ses_le_trans: "ses_le x y \<Longrightarrow> ses_le y z \<Longrightarrow> ses_le x z"
  by (auto simp: ses_le_def)

lemma auth_grows_refl [simp]: "auth_grows d d"
  by (simp add: auth_grows_def rows_grow_refl)

lemma auth_grows_trans: "auth_grows c d \<Longrightarrow> auth_grows d e \<Longrightarrow> auth_grows c e"
  using rows_grow_trans ses_le_trans unfolding auth_grows_def by (meson subset_trans)

lemma auth_grows_inserts:
  "auth_grows d (snd (create_account now i u v d))"
  "auth_grows d (snd (create_device now i a n k d))"
  "auth_grows d (snd (create_session now i s h r x d))"
  by (auto simp: auth_grows_def create_account_def create_device_def create_session_def
      intro: rows_grow_refl rows_grow_append)

lemma auth_grows_updates:
  "auth_grows d (snd (rotate_session i h r x d))"
  "auth_grows d (snd (revoke_session now i d))"
  by (auto simp: auth_grows_def rotate_session_def revoke_session_def ses_le_def
      intro!: rows_grow_refl rows_grow_update)

lemmas auth_grows_writes = auth_grows_inserts auth_grows_updates

lemmas auth_repo_defs [prog_defs] = create_account_def find_account_by_username_def create_device_def
  create_session_def find_live_session_by_access_hash_def find_live_session_by_refresh_hash_def
  rotate_session_def find_device_by_id_def list_devices_for_account_def revoke_session_def
  has_key_def update_where_def

end
