(* ===== verification/App_Error.thy ===== *)
theory App_Error
  imports Schema
begin

text \<open>
  \<open>crates/server/src/error.rs\<close>: the error type of the handlers, its HTTP rendering and the
  conversions from the storage layer's errors, with the texts that \<open>thiserror\<close> derives for
  \<open>StorageError\<close> from the attributes in \<open>crates/storage/src/lib.rs\<close>.
\<close>

datatype app_error =
    BadRequest string
  | Unauthorized string
  | NotFound string
  | AppConflict string
  | Internal string

fun parts :: "app_error \<Rightarrow> nat \<times> string \<times> string" where
  "parts (BadRequest m) = (400, ''BAD_REQUEST'', m)"
| "parts (Unauthorized m) = (401, ''UNAUTHENTICATED'', m)"
| "parts (NotFound m) = (404, ''NOT_FOUND'', m)"
| "parts (AppConflict m) = (409, ''CONFLICT'', m)"
| "parts (Internal m) = (500, ''INTERNAL'', m)"

record response =
  status :: nat
  body :: json

definition app_error_response :: "app_error \<Rightarrow> response" where
  "app_error_response e =
     (case parts e of (st, code, message) \<Rightarrow>
        \<lparr>status = st, body = JObj [(''code'', JStr code), (''message'', JStr message)]\<rparr>)"

fun storage_text :: "world \<Rightarrow> storage_error \<Rightarrow> string" where
  "storage_text w (Sqlx e) = ''database error: '' @ sqlx_text w e"
| "storage_text w (Migrate m) = ''migration error: '' @ m"
| "storage_text w (StorageConflict m) = ''conflict: '' @ m"

fun from_storage :: "world \<Rightarrow> storage_error \<Rightarrow> app_error" where
  "from_storage w (StorageConflict m) = AppConflict m"
| "from_storage w (Sqlx (Database UniqueViolation)) = AppConflict ''already exists''"
| "from_storage w e = Internal (storage_text w e)"

fun from_sqlx :: "world \<Rightarrow> sqlx_error \<Rightarrow> app_error" where
  "from_sqlx w (Database UniqueViolation) = AppConflict ''already exists''"
| "from_sqlx w e = Internal (sqlx_text w e)"

text \<open>
  A query made by a handler, with the conversion the \<open>?\<close> operator inserts: \<open>dbq\<close> for the
  functions of \<open>db.rs\<close>, \<open>auth\<close> for the methods of the \<open>AuthStore\<close>.
\<close>

definition dbq :: "world \<Rightarrow> (sys, sqlx_error + 'a) prog \<Rightarrow> (sys, app_error + 'a) prog" where
  "dbq w p = map_err (from_sqlx w) p"

definition auth :: "world \<Rightarrow> (nat \<Rightarrow> 'a stmt) \<Rightarrow> (sys, app_error + 'a) prog" where
  "auth w q = map_err (\<lambda>e. from_storage w (Sqlx e)) (pg w q)"

lemma run_dbq [run_simps]:
  "run (dbq w p) s = (case run p s of (r, t) \<Rightarrow> (map_sum (from_sqlx w) id r, t))"
  by (simp add: dbq_def run_map_err)

lemma run_auth [run_simps]:
  "run (auth w q) s = (case run (pg w q) s of (r, t) \<Rightarrow> (map_sum (\<lambda>e. from_storage w (Sqlx e)) id r, t))"
  by (simp add: auth_def run_map_err)

lemma guar_dbq [guar_intros]: "guar G p \<Longrightarrow> guar G (dbq w p)"
  by (simp add: dbq_def guar_intros)

lemma guar_auth [guar_intros]: "(\<And>n. reads (q n)) \<Longrightarrow> guar same_db (auth w q)"
  by (simp add: auth_def guar_intros)

end
