(* ===== verification/Auth_Store.thy ===== *)
theory Auth_Store
  imports Auth_Repo App_Error
begin

text \<open>
  \<open>crates/storage/src/auth_store.rs\<close>: the trait \<open>AuthStore\<close> and its two implementations.
  The trait is the record \<open>auth_store\<close> of its operations, a trait object. \<open>PgAuthStore\<close> delegates
  to the statements of \<open>Auth_Repo\<close>; \<open>MemoryAuthStore\<close> keeps three vectors. The contract of the
  session part is the locale \<open>session_store\<close>, with the token life cycle proved once and
  interpreted for both.
\<close>

section \<open>The trait\<close>

text \<open>Calls that store a time take the time of the call, which the implementations read themselves.\<close>

record 's auth_store =
  op_create_account :: "timestamp \<Rightarrow> uuid \<Rightarrow> string \<Rightarrow> string \<Rightarrow> 's \<Rightarrow> (storage_error + account) \<times> 's"
  op_find_account_by_username :: "string \<Rightarrow> 's \<Rightarrow> (storage_error + account option) \<times> 's"
  op_create_device :: "timestamp \<Rightarrow> uuid \<Rightarrow> uuid \<Rightarrow> string \<Rightarrow> bytes \<Rightarrow> 's \<Rightarrow> (storage_error + device) \<times> 's"
  op_create_session ::
    "timestamp \<Rightarrow> uuid \<Rightarrow> uuid \<Rightarrow> bytes \<Rightarrow> bytes \<Rightarrow> timestamp \<Rightarrow> 's \<Rightarrow> (storage_error + session) \<times> 's"
  op_find_live_session_by_access_hash ::
    "timestamp \<Rightarrow> bytes \<Rightarrow> 's \<Rightarrow> (storage_error + session option) \<times> 's"
  op_find_live_session_by_refresh_hash :: "bytes \<Rightarrow> 's \<Rightarrow> (storage_error + session option) \<times> 's"
  op_rotate_session :: "uuid \<Rightarrow> bytes \<Rightarrow> bytes \<Rightarrow> timestamp \<Rightarrow> 's \<Rightarrow> (storage_error + unit) \<times> 's"
  op_revoke_session :: "timestamp \<Rightarrow> uuid \<Rightarrow> 's \<Rightarrow> (storage_error + unit) \<times> 's"
  op_list_accounts :: "'s \<Rightarrow> (storage_error + account list) \<times> 's"
  op_find_device_by_id :: "uuid \<Rightarrow> 's \<Rightarrow> (storage_error + device option) \<times> 's"
  op_list_devices_for_account :: "uuid \<Rightarrow> 's \<Rightarrow> (storage_error + device list) \<times> 's"

section \<open>The in-memory store\<close>

record memory_auth_store =
  mem_accounts :: "account list"
  mem_devices :: "device list"
  mem_sessions :: "session list"

definition mem_new :: memory_auth_store where
  "mem_new = \<lparr>mem_accounts = [], mem_devices = [], mem_sessions = []\<rparr>"

definition mem_export :: "memory_auth_store \<Rightarrow> account list \<times> device list \<times> session list" where
  "mem_export m = (mem_accounts m, mem_devices m, mem_sessions m)"

definition mem_import ::
    "account list \<Rightarrow> device list \<Rightarrow> session list \<Rightarrow> memory_auth_store \<Rightarrow> memory_auth_store" where
  "mem_import as ds ss m = m\<lparr>mem_accounts := as, mem_devices := ds, mem_sessions := ss\<rparr>"

definition mem_create_account ::
    "timestamp \<Rightarrow> uuid \<Rightarrow> string \<Rightarrow> string \<Rightarrow> memory_auth_store
      \<Rightarrow> (storage_error + account) \<times> memory_auth_store" where
  "mem_create_account now aid username verifier m =
     (if list_ex (\<lambda>a. acc_username a = username) (mem_accounts m)
      then (Inl (StorageConflict ''username taken''), m)
      else let a = \<lparr>acc_id = aid, acc_username = username, acc_password_verifier = verifier,
                    acc_created_at = now\<rparr>
           in (Inr a, m\<lparr>mem_accounts := mem_accounts m @ [a]\<rparr>))"

definition mem_find_account_by_username ::
    "string \<Rightarrow> memory_auth_store \<Rightarrow> (storage_error + account option) \<times> memory_auth_store" where
  "mem_find_account_by_username username m =
     (Inr (List.find (\<lambda>a. acc_username a = username) (mem_accounts m)), m)"

definition mem_create_device ::
    "timestamp \<Rightarrow> uuid \<Rightarrow> uuid \<Rightarrow> string \<Rightarrow> bytes \<Rightarrow> memory_auth_store
      \<Rightarrow> (storage_error + device) \<times> memory_auth_store" where
  "mem_create_device now did account display_name public_identity m =
     (let v = \<lparr>dev_id = did, dev_account_id = account, dev_display_name = display_name,
               dev_public_identity = public_identity, dev_created_at = now,
               dev_revoked_at = None\<rparr>
      in (Inr v, m\<lparr>mem_devices := mem_devices m @ [v]\<rparr>))"

definition mem_create_session ::
    "timestamp \<Rightarrow> uuid \<Rightarrow> uuid \<Rightarrow> bytes \<Rightarrow> bytes \<Rightarrow> timestamp \<Rightarrow> memory_auth_store
      \<Rightarrow> (storage_error + session) \<times> memory_auth_store" where
  "mem_create_session now sid device access_hash refresh_hash expires_at m =
     (let e = \<lparr>ses_id = sid, ses_device_id = device, ses_access_token_hash = access_hash,
               ses_refresh_token_hash = refresh_hash, ses_expires_at = expires_at,
               ses_revoked_at = None, ses_created_at = now\<rparr>
      in (Inr e, m\<lparr>mem_sessions := mem_sessions m @ [e]\<rparr>))"

definition mem_find_live_session_by_access_hash ::
    "timestamp \<Rightarrow> bytes \<Rightarrow> memory_auth_store \<Rightarrow> (storage_error + session option) \<times> memory_auth_store" where
  "mem_find_live_session_by_access_hash now h m =
     (Inr (List.find (\<lambda>e. ses_access_token_hash e = h \<and> ses_revoked_at e = None
                          \<and> ses_expires_at e > now) (mem_sessions m)), m)"

definition mem_find_live_session_by_refresh_hash ::
    "bytes \<Rightarrow> memory_auth_store \<Rightarrow> (storage_error + session option) \<times> memory_auth_store" where
  "mem_find_live_session_by_refresh_hash h m =
     (Inr (List.find (\<lambda>e. ses_refresh_token_hash e = h \<and> ses_revoked_at e = None)
        (mem_sessions m)), m)"

definition mem_rotate_session ::
    "uuid \<Rightarrow> bytes \<Rightarrow> bytes \<Rightarrow> timestamp \<Rightarrow> memory_auth_store
      \<Rightarrow> (storage_error + unit) \<times> memory_auth_store" where
  "mem_rotate_session sid new_access new_refresh expires_at m =
     (Inr (), m\<lparr>mem_sessions := update_first (\<lambda>e. ses_id e = sid)
        (\<lambda>e. e\<lparr>ses_access_token_hash := new_access, ses_refresh_token_hash := new_refresh,
              ses_expires_at := expires_at\<rparr>) (mem_sessions m)\<rparr>)"

definition mem_revoke_session ::
    "timestamp \<Rightarrow> uuid \<Rightarrow> memory_auth_store \<Rightarrow> (storage_error + unit) \<times> memory_auth_store" where
  "mem_revoke_session now sid m =
     (Inr (), m\<lparr>mem_sessions := update_first (\<lambda>e. ses_id e = sid)
        (\<lambda>e. if ses_revoked_at e = None then e\<lparr>ses_revoked_at := Some now\<rparr> else e)
        (mem_sessions m)\<rparr>)"

definition mem_list_accounts ::
    "memory_auth_store \<Rightarrow> (storage_error + account list) \<times> memory_auth_store" where
  "mem_list_accounts m = (Inr (mem_accounts m), m)"

definition mem_find_device_by_id ::
    "uuid \<Rightarrow> memory_auth_store \<Rightarrow> (storage_error + device option) \<times> memory_auth_store" where
  "mem_find_device_by_id did m = (Inr (List.find (\<lambda>v. dev_id v = did) (mem_devices m)), m)"

definition mem_list_devices_for_account ::
    "uuid \<Rightarrow> memory_auth_store \<Rightarrow> (storage_error + device list) \<times> memory_auth_store" where
  "mem_list_devices_for_account account m =
     (Inr (filter (\<lambda>v. dev_account_id v = account \<and> dev_revoked_at v = None) (mem_devices m)), m)"

definition mem_auth_store :: "memory_auth_store auth_store" where
  "mem_auth_store =
     \<lparr>op_create_account = mem_create_account,
      op_find_account_by_username = mem_find_account_by_username,
      op_create_device = mem_create_device,
      op_create_session = mem_create_session,
      op_find_live_session_by_access_hash = mem_find_live_session_by_access_hash,
      op_find_live_session_by_refresh_hash = mem_find_live_session_by_refresh_hash,
      op_rotate_session = mem_rotate_session,
      op_revoke_session = mem_revoke_session,
      op_list_accounts = mem_list_accounts,
      op_find_device_by_id = mem_find_device_by_id,
      op_list_devices_for_account = mem_list_devices_for_account\<rparr>"

section \<open>The Postgres store\<close>

text \<open>\<open>PgAuthStore\<close> runs the repository's statement; its error becomes \<open>StorageError::Sqlx\<close>.\<close>

definition pg_store :: "'a stmt \<Rightarrow> database \<Rightarrow> (storage_error + 'a) \<times> database" where
  "pg_store q d = map_prod (map_sum Sqlx id) id (q d)"

text \<open>The collation and the row order Postgres chooses are parameters.\<close>

definition pg_auth_store :: "(string \<Rightarrow> nat list) \<Rightarrow> nat list \<Rightarrow> database auth_store" where
  "pg_auth_store coll order =
     \<lparr>op_create_account = (\<lambda>now i u v. pg_store (create_account now i u v)),
      op_find_account_by_username = (\<lambda>u. pg_store (find_account_by_username u)),
      op_create_device = (\<lambda>now i a n k. pg_store (create_device now i a n k)),
      op_create_session = (\<lambda>now i v a r x. pg_store (create_session now i v a r x)),
      op_find_live_session_by_access_hash = (\<lambda>now h. pg_store (find_live_session_by_access_hash now h)),
      op_find_live_session_by_refresh_hash = (\<lambda>h. pg_store (find_live_session_by_refresh_hash h)),
      op_rotate_session = (\<lambda>i a r x. pg_store (rotate_session i a r x)),
      op_revoke_session = (\<lambda>now i. pg_store (revoke_session now i)),
      op_list_accounts = pg_store (list_accounts coll order),
      op_find_device_by_id = (\<lambda>i. pg_store (find_device_by_id i)),
      op_list_devices_for_account = (\<lambda>a. pg_store (list_devices_for_account order a))\<rparr>"

section \<open>The session interface\<close>

locale session_store =
  fixes create :: "timestamp \<Rightarrow> uuid \<Rightarrow> uuid \<Rightarrow> bytes \<Rightarrow> bytes \<Rightarrow> timestamp \<Rightarrow> 's
                     \<Rightarrow> (storage_error + session) \<times> 's"
    and find_access :: "timestamp \<Rightarrow> bytes \<Rightarrow> 's \<Rightarrow> (storage_error + session option) \<times> 's"
    and find_refresh :: "bytes \<Rightarrow> 's \<Rightarrow> (storage_error + session option) \<times> 's"
    and rotate :: "uuid \<Rightarrow> bytes \<Rightarrow> bytes \<Rightarrow> timestamp \<Rightarrow> 's \<Rightarrow> (storage_error + unit) \<times> 's"
    and revoke :: "timestamp \<Rightarrow> uuid \<Rightarrow> 's \<Rightarrow> (storage_error + unit) \<times> 's"
    and sess :: "'s \<Rightarrow> session list"
    and has_device :: "'s \<Rightarrow> uuid \<Rightarrow> bool"
  assumes create_fresh:
      "\<not> has_key ses_id i (sess s) \<Longrightarrow> \<not> has_key ses_access_token_hash a (sess s) \<Longrightarrow>
       \<not> has_key ses_refresh_token_hash r (sess s) \<Longrightarrow> has_device s v \<Longrightarrow>
       \<exists>e s'. create now i v a r x s = (Inr e, s') \<and> sess s' = sess s @ [e]
         \<and> ses_id e = i \<and> ses_device_id e = v \<and> ses_access_token_hash e = a
         \<and> ses_refresh_token_hash e = r \<and> ses_expires_at e = x \<and> ses_revoked_at e = None"
    and find_access:
      "find_access now h s = (Inr (List.find (\<lambda>e. ses_access_token_hash e = h
         \<and> ses_revoked_at e = None \<and> ses_expires_at e > now) (sess s)), s)"
    and find_refresh:
      "find_refresh h s = (Inr (List.find (\<lambda>e. ses_refresh_token_hash e = h
         \<and> ses_revoked_at e = None) (sess s)), s)"
    and rotate_fresh:
      "distinct (map ses_id (sess s)) \<Longrightarrow>
       \<not> has_key ses_access_token_hash a (sess s) \<Longrightarrow> \<not> has_key ses_refresh_token_hash r (sess s) \<Longrightarrow>
       fst (rotate i a r x s) = Inr () \<and>
       sess (snd (rotate i a r x s)) = update_where (\<lambda>e. ses_id e = i)
         (\<lambda>e. e\<lparr>ses_access_token_hash := a, ses_refresh_token_hash := r, ses_expires_at := x\<rparr>) (sess s)"
    and revoke_law:
      "distinct (map ses_id (sess s)) \<Longrightarrow> fst (revoke now i s) = Inr () \<and>
       sess (snd (revoke now i s)) = update_where (\<lambda>e. ses_id e = i \<and> ses_revoked_at e = None)
         (\<lambda>e. e\<lparr>ses_revoked_at := Some now\<rparr>) (sess s)"
begin

text \<open>A new session is found by its access token until it expires, and by its refresh token.\<close>

lemma created_is_live:
  assumes "\<not> has_key ses_id i (sess s)" "\<not> has_key ses_access_token_hash a (sess s)"
    "\<not> has_key ses_refresh_token_hash r (sess s)" "has_device s v"
    and c: "create now i v a r x s = (Inr e, s')"
  shows "fst (find_access now' a s') = Inr (if x > now' then Some e else None)"
    and "fst (find_refresh r s') = Inr (Some e)"
proof -
  have s': "sess s' = sess s @ [e]" and e: "ses_access_token_hash e = a" "ses_expires_at e = x"
    "ses_refresh_token_hash e = r" "ses_revoked_at e = None"
    using create_fresh [OF assms(1-4), of now x] c by auto
  have new: "ses_access_token_hash y \<noteq> a" "ses_refresh_token_hash y \<noteq> r" if "y \<in> set (sess s)" for y
    using that assms(2,3) by (auto simp: has_key_iff)
  show "fst (find_access now' a s') = Inr (if x > now' then Some e else None)"
    unfolding find_access fst_conv s' by (subst find_snoc_new) (use new e in auto)
  show "fst (find_refresh r s') = Inr (Some e)"
    unfolding find_refresh fst_conv s' by (subst find_snoc_new) (use new e in auto)
qed

text \<open>A revoked session is found by no token, at no time.\<close>

lemma revoked_is_dead:
  assumes "distinct (map ses_id (sess s))" and "e \<in> set (sess (snd (revoke now i s)))"
    and "ses_id e = i"
  shows "fst (find_access now' h (snd (revoke now i s))) \<noteq> Inr (Some e)"
    and "fst (find_refresh h (snd (revoke now i s))) \<noteq> Inr (Some e)"
proof -
  have "ses_revoked_at e \<noteq> None"
  proof -
    have "sess (snd (revoke now i s)) = update_where (\<lambda>e. ses_id e = i \<and> ses_revoked_at e = None)
        (\<lambda>e. e\<lparr>ses_revoked_at := Some now\<rparr>) (sess s)"
      using revoke_law [OF assms(1)] by blast
    then have "e \<in> set (update_where (\<lambda>e. ses_id e = i \<and> ses_revoked_at e = None)
        (\<lambda>e. e\<lparr>ses_revoked_at := Some now\<rparr>) (sess s))"
      using assms(2) by simp
    then show ?thesis using assms(3) by (cases rule: in_update_whereE) auto
  qed
  then show "fst (find_access now' h (snd (revoke now i s))) \<noteq> Inr (Some e)"
    and "fst (find_refresh h (snd (revoke now i s))) \<noteq> Inr (Some e)"
    by (auto simp: find_access find_refresh find_Some_iff)
qed

text \<open>Rotation: the old tokens find nothing any more, the new ones find the session.\<close>

lemma rotated_replaces:
  assumes d: "distinct (map ses_id (sess s))" "distinct (map ses_access_token_hash (sess s))"
      "distinct (map ses_refresh_token_hash (sess s))"
    and e: "e \<in> set (sess s)" "ses_id e = i" "ses_revoked_at e = None"
    and fresh: "\<not> has_key ses_access_token_hash a (sess s)" "\<not> has_key ses_refresh_token_hash r (sess s)"
    and s'_def: "s' = snd (rotate i a r x s)"
    and e'_def: "e' = e\<lparr>ses_access_token_hash := a, ses_refresh_token_hash := r, ses_expires_at := x\<rparr>"
  shows "fst (find_access now (ses_access_token_hash e) s') = Inr None"
    and "fst (find_refresh (ses_refresh_token_hash e) s') = Inr None"
    and "fst (find_access now a s') = Inr (if x > now then Some e' else None)"
    and "fst (find_refresh r s') = Inr (Some e')"
proof -
  let ?f = "\<lambda>e. e\<lparr>ses_access_token_hash := a, ses_refresh_token_hash := r, ses_expires_at := x\<rparr>"
  have s': "sess s' = update_where (\<lambda>y. ses_id y = i) ?f (sess s)"
    unfolding s'_def using rotate_fresh [OF d(1) fresh] by blast
  have mem: "y \<in> set (sess s') \<longleftrightarrow> y = e' \<or> (y \<in> set (sess s) \<and> ses_id y \<noteq> i)" for y
    unfolding s' set_update_where e'_def using e distinct_key_eq [OF d(1)] by (auto split: if_splits)
  have pk: "distinct (map ses_id (sess s'))" using d(1) unfolding s' by simp
  have no: "List.find P (sess s') = None" if "\<And>y. y \<in> set (sess s') \<Longrightarrow> \<not> P y" for P
    using that by (auto simp: find_None_iff)
  have old: "ses_access_token_hash y \<noteq> ses_access_token_hash e"
      "ses_refresh_token_hash y \<noteq> ses_refresh_token_hash e" if "y \<in> set (sess s')" for y
    using that fresh e distinct_key_eq [OF d(2), of y e] distinct_key_eq [OF d(3), of y e]
    by (auto simp: mem e'_def has_key_iff)
  then show "fst (find_access now (ses_access_token_hash e) s') = Inr None"
    and "fst (find_refresh (ses_refresh_token_hash e) s') = Inr None"
    by (auto simp: find_access find_refresh intro!: no)
  have e'_id: "ses_id e' = i" using e(2) by (simp add: e'_def)
  have new: "y = e'" if "y \<in> set (sess s')" "ses_access_token_hash y = a \<or> ses_refresh_token_hash y = r" for y
    using that fresh by (auto simp: mem has_key_iff)
  have pick: "List.find P (sess s') = (if P e' then Some e' else None)"
    if P: "\<And>y. P y \<Longrightarrow> ses_access_token_hash y = a \<or> ses_refresh_token_hash y = r" for P
  proof (cases "List.find P (sess s')")
    case None
    then show ?thesis using mem by (auto simp: find_None_iff)
  next
    case (Some y)
    then show ?thesis using find_SomeD [OF Some] new P by auto
  qed
  show "fst (find_access now a s') = Inr (if x > now then Some e' else None)"
    and "fst (find_refresh r s') = Inr (Some e')"
    unfolding find_access find_refresh fst_conv
    by (subst pick, use e(3) in \<open>auto simp: e'_def\<close>)+
qed

end

interpretation pgs: session_store
  "\<lambda>now i v a r x. pg_store (create_session now i v a r x)"
  "\<lambda>now h. pg_store (find_live_session_by_access_hash now h)"
  "\<lambda>h. pg_store (find_live_session_by_refresh_hash h)"
  "\<lambda>i a r x. pg_store (rotate_session i a r x)"
  "\<lambda>now i. pg_store (revoke_session now i)"
  sessions "\<lambda>d v. has_key dev_id v (devices d)"
  by unfold_locales
     (auto simp: pg_store_def create_session_def find_live_session_by_access_hash_def
        find_live_session_by_refresh_hash_def rotate_session_def revoke_session_def Let_def
        has_key_iff)

interpretation mems: session_store
  mem_create_session mem_find_live_session_by_access_hash mem_find_live_session_by_refresh_hash
  mem_rotate_session mem_revoke_session mem_sessions "\<lambda>_ _. True"
proof (unfold_locales, goal_cases)
  case 5
  then show ?case
    by (simp add: mem_revoke_session_def update_first_unique update_where_if)
qed (auto simp: mem_create_session_def mem_find_live_session_by_access_hash_def
      mem_find_live_session_by_refresh_hash_def mem_rotate_session_def Let_def update_first_unique)

section \<open>The two stores, operation by operation\<close>

text \<open>
  The calls of the trait, and what a handler can see of their results: the value, or the HTTP
  status of the error. The two stores list rows in different orders, so a list is observed as the
  multiset of its elements.
\<close>

datatype auth_op =
    OpCreateAccount timestamp uuid string string
  | OpFindAccount string
  | OpCreateDevice timestamp uuid uuid string bytes
  | OpCreateSession timestamp uuid uuid bytes bytes timestamp
  | OpFindAccess timestamp bytes
  | OpFindRefresh bytes
  | OpRotate uuid bytes bytes timestamp
  | OpRevoke timestamp uuid
  | OpFindDevice uuid
  | OpListAccounts
  | OpListDevices uuid

datatype auth_result =
    RAccount account
  | RDevice device
  | RSession session
  | ROptAccount "account option"
  | ROptDevice "device option"
  | ROptSession "session option"
  | RAccounts "account multiset"
  | RDevices "device multiset"
  | RUnit
  | RError nat

definition observe ::
    "world \<Rightarrow> ('a \<Rightarrow> auth_result) \<Rightarrow> (storage_error + 'a) \<times> 's \<Rightarrow> auth_result \<times> 's" where
  "observe w f rs = (case fst rs of Inl e \<Rightarrow> RError (fst (parts (from_storage w e))) | Inr x \<Rightarrow> f x, snd rs)"

fun auth_exec :: "world \<Rightarrow> 's auth_store \<Rightarrow> auth_op \<Rightarrow> 's \<Rightarrow> auth_result \<times> 's" where
  "auth_exec w st (OpCreateAccount now i u v) s = observe w RAccount (op_create_account st now i u v s)"
| "auth_exec w st (OpFindAccount u) s = observe w ROptAccount (op_find_account_by_username st u s)"
| "auth_exec w st (OpCreateDevice now i a n k) s = observe w RDevice (op_create_device st now i a n k s)"
| "auth_exec w st (OpCreateSession now i v a r x) s = observe w RSession (op_create_session st now i v a r x s)"
| "auth_exec w st (OpFindAccess now h) s = observe w ROptSession (op_find_live_session_by_access_hash st now h s)"
| "auth_exec w st (OpFindRefresh h) s = observe w ROptSession (op_find_live_session_by_refresh_hash st h s)"
| "auth_exec w st (OpRotate i a r x) s = observe w (\<lambda>_. RUnit) (op_rotate_session st i a r x s)"
| "auth_exec w st (OpRevoke now i) s = observe w (\<lambda>_. RUnit) (op_revoke_session st now i s)"
| "auth_exec w st (OpFindDevice i) s = observe w ROptDevice (op_find_device_by_id st i s)"
| "auth_exec w st OpListAccounts s = observe w (\<lambda>xs. RAccounts (mset xs)) (op_list_accounts st s)"
| "auth_exec w st (OpListDevices a) s = observe w (\<lambda>xs. RDevices (mset xs)) (op_list_devices_for_account st a s)"

abbreviation pg_exec :: "world \<Rightarrow> auth_op \<Rightarrow> database \<Rightarrow> auth_result \<times> database" where
  "pg_exec w \<equiv> auth_exec w (pg_auth_store (collate w) (row_order w 0))"

abbreviation mem_exec :: "world \<Rightarrow> auth_op \<Rightarrow> memory_auth_store \<Rightarrow> auth_result \<times> memory_auth_store" where
  "mem_exec w \<equiv> auth_exec w mem_auth_store"

primrec run_ops :: "('op \<Rightarrow> 's \<Rightarrow> 'r \<times> 's) \<Rightarrow> 'op list \<Rightarrow> 's \<Rightarrow> 'r list \<times> 's" where
  "run_ops ex [] s = ([], s)"
| "run_ops ex (x # xs) s =
     (case ex x s of (r, t) \<Rightarrow> (case run_ops ex xs t of (rs, u) \<Rightarrow> (r # rs, u)))"

text \<open>The vectors a database holds, as the memory store has them.\<close>

definition mem_view :: "database \<Rightarrow> memory_auth_store" where
  "mem_view d = \<lparr>mem_accounts = accounts d, mem_devices = devices d, mem_sessions = sessions d\<rparr>"

text \<open>
  The inputs on which the constraints Postgres checks, and the memory store does not, hold: new
  identifiers and token hashes, and references to rows that exist. A username may be taken.
\<close>

fun op_ok :: "auth_op \<Rightarrow> database \<Rightarrow> bool" where
  "op_ok (OpCreateAccount now i u v) d = (\<not> has_key acc_id i (accounts d))"
| "op_ok (OpCreateDevice now i a n k) d =
     (\<not> has_key dev_id i (devices d) \<and> has_key acc_id a (accounts d))"
| "op_ok (OpCreateSession now i v a r x) d =
     (\<not> has_key ses_id i (sessions d) \<and> \<not> has_key ses_access_token_hash a (sessions d)
      \<and> \<not> has_key ses_refresh_token_hash r (sessions d) \<and> has_key dev_id v (devices d))"
| "op_ok (OpRotate i a r x) d =
     (\<not> has_key ses_access_token_hash a (sessions d) \<and> \<not> has_key ses_refresh_token_hash r (sessions d))"
| "op_ok _ d = True"

fun ops_ok :: "world \<Rightarrow> auth_op list \<Rightarrow> database \<Rightarrow> bool" where
  "ops_ok w [] d = True"
| "ops_ok w (x # xs) d = (op_ok x d \<and> ops_ok w xs (snd (pg_exec w x d)))"

lemma auth_inv_pg_exec: "auth_inv d \<Longrightarrow> auth_inv (snd (pg_exec w x d))"
  by (cases x)
     (simp_all add: observe_def pg_store_def auth_inv_create_account auth_inv_create_device
       auth_inv_create_session auth_inv_rotate_session auth_inv_revoke_session
       find_account_by_username_def find_live_session_by_access_hash_def
       find_live_session_by_refresh_hash_def find_device_by_id_def pg_auth_store_def list_accounts_def
       list_devices_for_account_def)

lemmas mem_defs = mem_auth_store_def mem_list_accounts_def mem_list_devices_for_account_def
  mem_create_account_def mem_find_account_by_username_def mem_create_device_def
  mem_create_session_def mem_find_live_session_by_access_hash_def
  mem_find_live_session_by_refresh_hash_def mem_rotate_session_def mem_revoke_session_def
  mem_find_device_by_id_def

lemmas pg_defs = pg_auth_store_def list_accounts_def list_devices_for_account_def
  create_account_def find_account_by_username_def create_device_def create_session_def
  find_live_session_by_access_hash_def find_live_session_by_refresh_hash_def rotate_session_def
  revoke_session_def find_device_by_id_def

lemma has_key_filter: "\<not> has_key key k rows \<Longrightarrow> \<not> has_key key k (filter P rows)"
  by (auto simp: has_key_iff)

lemma mem_exec_simulates:
  assumes "auth_inv d" and "op_ok x d"
  shows "mem_exec w x (mem_view d) = map_prod id mem_view (pg_exec w x d)"
proof -
  have "distinct (map ses_id (sessions d))" using assms(1) by (simp add: auth_inv_def)
  then show ?thesis
    using assms(2)
    by (cases x)
       (simp_all add: observe_def pg_store_def mem_defs pg_defs mem_view_def Let_def
          update_first_unique update_where_if has_key_filter, auto simp: has_key_def)
qed



text \<open>
  The agreement ends where Postgres enforces more. A second session with the access-token
  hash of an existing one is refused by the Postgres store as a conflict and accepted by the
  in-memory store, which then holds two sessions with one hash.
\<close>

lemma stores_differ_on_duplicate_hash:
  assumes "e \<in> set (sessions d)"
  shows "fst (pg_exec w (OpCreateSession now i v (ses_access_token_hash e) r x) d) = RError 409
       \<and> (\<exists>y. fst (mem_exec w (OpCreateSession now i v (ses_access_token_hash e) r x) (mem_view d))
                = RSession y)
       \<and> \<not> distinct (map ses_access_token_hash
            (mem_sessions (snd (mem_exec w (OpCreateSession now i v (ses_access_token_hash e) r x)
               (mem_view d)))))"
  using assms
  by (auto simp: observe_def pg_store_def create_session_def mem_create_session_def mem_view_def
      has_key_iff Let_def pg_auth_store_def mem_auth_store_def)

end
