(* ===== verification/Db_Queries.thy ===== *)
theory Db_Queries
  imports Auth_Repo
begin

text \<open>
  \<open>crates/server/src/db.rs\<close>: the queries for conversations, messages, receipts, listings,
  profiles, blobs and shared media. A function with one statement is that statement; a function
  with several is a program that runs them one after the other through the pool, without a
  transaction, as the source does. The row structs \<open>MsgRow\<close>, \<open>ProfileRow\<close>, \<open>BlobRow\<close> and
  \<open>MediaRow\<close> are the table rows themselves: the columns a query does not select are carried
  along and never read.
\<close>

section \<open>Conversations\<close>

definition pair_order :: "uuid \<Rightarrow> uuid \<Rightarrow> uuid \<times> uuid" where
  "pair_order a b = (if a \<le> b then (a, b) else (b, a))"

definition dm_key :: "dm_pair \<Rightarrow> uuid \<times> uuid" where
  "dm_key p = (dm_account_lo p, dm_account_hi p)"

definition mem_key :: "member \<Rightarrow> uuid \<times> uuid" where
  "mem_key m = (mem_conversation_id m, mem_account_id m)"

definition select_dm :: "uuid \<Rightarrow> uuid \<Rightarrow> uuid option stmt" where
  "select_dm lo hi d =
     (Inr (map_option dm_conversation_id (List.find (\<lambda>p. dm_key p = (lo, hi)) (dm_conversations d))), d)"

definition select_dm_one :: "uuid \<Rightarrow> uuid \<Rightarrow> uuid stmt" where
  "select_dm_one lo hi d =
     (case List.find (\<lambda>p. dm_key p = (lo, hi)) (dm_conversations d) of
        None \<Rightarrow> (Inl RowNotFound, d)
      | Some p \<Rightarrow> (Inr (dm_conversation_id p), d))"

definition insert_conversation :: "timestamp \<Rightarrow> uuid \<Rightarrow> unit stmt" where
  "insert_conversation now cid d =
     (if has_key conv_id cid (conversations d) then (Inl (Database UniqueViolation), d)
      else (Inr (), d\<lparr>conversations := conversations d @
              [\<lparr>conv_id = cid, conv_kind = ''dm'', conv_epoch = 0, conv_last_seq = 0,
                conv_created_at = now\<rparr>]\<rparr>))"

text \<open>\<open>INSERT .. VALUES .. ON CONFLICT DO NOTHING\<close> of one or two member rows.\<close>

definition insert_members :: "uuid \<Rightarrow> uuid list \<Rightarrow> unit stmt" where
  "insert_members cid as d =
     (let new = filter (\<lambda>m. \<not> has_key mem_key (mem_key m) (conversation_members d))
                  (map (\<lambda>a. \<lparr>mem_conversation_id = cid, mem_account_id = a\<rparr>) as)
      in if (\<forall>m \<in> set new. has_key conv_id (mem_conversation_id m) (conversations d)
                         \<and> has_key acc_id (mem_account_id m) (accounts d))
         then (Inr (), d\<lparr>conversation_members := conversation_members d @ new\<rparr>)
         else (Inl (Database ForeignKeyViolation), d))"

definition insert_dm :: "uuid \<Rightarrow> uuid \<Rightarrow> uuid \<Rightarrow> unit stmt" where
  "insert_dm lo hi cid d =
     (if has_key dm_key (lo, hi) (dm_conversations d) then (Inr (), d)
      else if has_key acc_id lo (accounts d) \<and> has_key acc_id hi (accounts d)
            \<and> has_key conv_id cid (conversations d)
      then (Inr (), d\<lparr>dm_conversations := dm_conversations d @
              [\<lparr>dm_account_lo = lo, dm_account_hi = hi, dm_conversation_id = cid\<rparr>]\<rparr>)
      else (Inl (Database ForeignKeyViolation), d))"

text \<open>The creating statement, with the record of the pair in the auxiliary variable.\<close>

definition claim_on :: "uuid \<Rightarrow> uuid \<Rightarrow> uuid \<Rightarrow> database \<Rightarrow> sys \<Rightarrow> sys" where
  "claim_on cid lo hi before s =
     (if has_key conv_id cid (conversations (db s)) \<and> \<not> has_key conv_id cid (conversations before)
      then s\<lparr>dm_claim := (dm_claim s)(cid \<mapsto> (lo, hi))\<rparr> else s)"

definition create_conversation :: "world \<Rightarrow> uuid \<Rightarrow> uuid \<Rightarrow> uuid \<Rightarrow> (sys, sqlx_error + unit) prog" where
  "create_conversation w cid lo hi = atomic (\<lambda>s.
     map_prod id (claim_on cid lo hi (db s)) (run (pg w (\<lambda>n. insert_conversation (pg_now w n) cid)) s))"

definition dm_conversation :: "world \<Rightarrow> uuid \<Rightarrow> uuid \<Rightarrow> (sys, sqlx_error + uuid) prog" where
  "dm_conversation w a b =
     (case pair_order a b of (lo, hi) \<Rightarrow>
        bindE (pg w (\<lambda>_. select_dm lo hi)) (\<lambda>found.
          case found of
            Some cid \<Rightarrow> Ret (Inr cid)
          | None \<Rightarrow>
              bind (new_uuid w) (\<lambda>cid.
              bindE (create_conversation w cid lo hi) (\<lambda>_.
              bindE (pg w (\<lambda>_. insert_members cid (if lo = hi then [lo] else [lo, hi]))) (\<lambda>_.
              bindE (pg w (\<lambda>_. insert_dm lo hi cid)) (\<lambda>_.
              pg w (\<lambda>_. select_dm_one lo hi)))))))"

definition is_participant :: "uuid \<Rightarrow> uuid \<Rightarrow> bool stmt" where
  "is_participant cid account d =
     (Inr (length (filter (\<lambda>m. mem_conversation_id m = cid \<and> mem_account_id m = account)
        (conversation_members d)) > 0), d)"

section \<open>Messages\<close>

definition bump_last_seq :: "uuid \<Rightarrow> i64 stmt" where
  "bump_last_seq cid d =
     (case List.find (\<lambda>c. conv_id c = cid) (conversations d) of
        None \<Rightarrow> (Inl RowNotFound, d)
      | Some c \<Rightarrow>
          if conv_last_seq c + 1 > i64_max then (Inl (Database NumericOutOfRange), d)
          else (Inr (conv_last_seq c + 1),
                d\<lparr>conversations := update_where (\<lambda>x. conv_id x = cid)
                    (\<lambda>x. x\<lparr>conv_last_seq := conv_last_seq x + 1\<rparr>) (conversations d)\<rparr>))"

definition seq_key :: "message \<Rightarrow> uuid \<times> i64" where
  "seq_key m = (msg_conversation_id m, msg_seq m)"

definition insert_message :: "message \<Rightarrow> timestamp stmt" where
  "insert_message m d =
     (if has_key msg_id (msg_id m) (messages d) \<or> has_key seq_key (seq_key m) (messages d)
      then (Inl (Database UniqueViolation), d)
      else if has_key conv_id (msg_conversation_id m) (conversations d)
            \<and> has_key acc_id (msg_sender_account_id m) (accounts d)
      then (Inr (msg_server_ts m), d\<lparr>messages := messages d @ [m]\<rparr>)
      else (Inl (Database ForeignKeyViolation), d))"

text \<open>The row an insert creates: columns not listed take their defaults.\<close>

definition new_message ::
    "uuid \<Rightarrow> uuid \<Rightarrow> i64 \<Rightarrow> uuid \<Rightarrow> uuid \<Rightarrow> bytes \<Rightarrow> uuid option \<Rightarrow> timestamp \<Rightarrow> message" where
  "new_message mid cid seq sender_account device ciphertext reply_to now =
     \<lparr>msg_id = mid, msg_conversation_id = cid, msg_seq = seq, msg_sender_account_id = sender_account,
      msg_sender_device_id = Some device, msg_ciphertext = ciphertext, msg_server_ts = now,
      msg_reply_to = reply_to, msg_edited_at = None, msg_deleted_at = None\<rparr>"

definition store_message ::
    "world \<Rightarrow> uuid \<Rightarrow> uuid \<Rightarrow> uuid \<Rightarrow> bytes \<Rightarrow> uuid option \<Rightarrow> (sys, sqlx_error + message) prog" where
  "store_message w cid sender_account device ciphertext reply_to =
     bindE (pg w (\<lambda>_. bump_last_seq cid)) (\<lambda>seq.
     bind (new_uuid w) (\<lambda>mid.
     bindE (pg w (\<lambda>n. insert_message
         (new_message mid cid seq sender_account device ciphertext reply_to (pg_now w n)))) (\<lambda>server_ts.
     Ret (Inr (new_message mid cid seq sender_account device ciphertext reply_to server_ts)))))"

definition history :: "uuid \<Rightarrow> uuid \<Rightarrow> message list stmt" where
  "history cid me d =
     (Inr (sort_key msg_seq
        (filter (\<lambda>m. msg_conversation_id m = cid \<and> msg_deleted_at m = None
                     \<and> \<not> list_ex (\<lambda>h. hid_message_id h = msg_id m \<and> hid_account_id h = me)
                         (hidden_messages d)) (messages d))), d)"

definition hid_key :: "hidden_message \<Rightarrow> uuid \<times> uuid" where
  "hid_key h = (hid_message_id h, hid_account_id h)"

definition hide_message_for :: "uuid \<Rightarrow> uuid \<Rightarrow> unit stmt" where
  "hide_message_for mid account d =
     (if has_key hid_key (mid, account) (hidden_messages d) then (Inr (), d)
      else if \<not> has_key acc_id account (accounts d) then (Inl (Database ForeignKeyViolation), d)
      else (Inr (), d\<lparr>hidden_messages := hidden_messages d @
              [\<lparr>hid_message_id = mid, hid_account_id = account\<rparr>]\<rparr>))"

definition edit_message ::
    "timestamp \<Rightarrow> uuid \<Rightarrow> uuid \<Rightarrow> bytes \<Rightarrow> (uuid \<times> i64 \<times> timestamp) option stmt" where
  "edit_message now mid sender_account ciphertext d =
     (let hit = (\<lambda>m. msg_id m = mid \<and> msg_sender_account_id m = sender_account \<and> msg_deleted_at m = None)
      in (Inr (map_option (\<lambda>m. (msg_conversation_id m, msg_seq m, now)) (List.find hit (messages d))),
          d\<lparr>messages := update_where hit
              (\<lambda>m. m\<lparr>msg_ciphertext := ciphertext, msg_edited_at := Some now\<rparr>) (messages d)\<rparr>))"

definition soft_delete :: "timestamp \<Rightarrow> uuid \<Rightarrow> uuid \<Rightarrow> (uuid \<times> i64) option stmt" where
  "soft_delete now mid actor d =
     (let hit = (\<lambda>m. msg_id m = mid \<and> msg_deleted_at m = None
                   \<and> list_ex (\<lambda>x. mem_account_id x = actor
                              \<and> mem_conversation_id x = msg_conversation_id m)
                       (conversation_members d))
      in (Inr (map_option (\<lambda>m. (msg_conversation_id m, msg_seq m)) (List.find hit (messages d))),
          d\<lparr>messages := update_where hit
              (\<lambda>m. m\<lparr>msg_deleted_at := Some now, msg_ciphertext := []\<rparr>) (messages d)\<rparr>))"

definition delete_media_of :: "uuid \<Rightarrow> unit stmt" where
  "delete_media_of mid d =
     (Inr (), d\<lparr>media_rows := filter (\<lambda>e. md_message_id e \<noteq> mid) (media_rows d)\<rparr>)"

definition delete_message :: "world \<Rightarrow> uuid \<Rightarrow> uuid \<Rightarrow> (sys, sqlx_error + (uuid \<times> i64) option) prog" where
  "delete_message w mid actor =
     bindE (pg w (\<lambda>n. soft_delete (pg_now w n) mid actor)) (\<lambda>row.
     case row of
       None \<Rightarrow> Ret (Inr None)
     | Some r \<Rightarrow> bindE (pg w (\<lambda>_. delete_media_of mid)) (\<lambda>_. Ret (Inr (Some r))))"

definition conversation_member_ids :: "nat list \<Rightarrow> uuid \<Rightarrow> uuid list stmt" where
  "conversation_member_ids order cid d =
     (Inr (reorder order (map mem_account_id
        (filter (\<lambda>m. mem_conversation_id m = cid) (conversation_members d)))), d)"

section \<open>Receipts\<close>

datatype marker_table = ReadMarkers | DeliveredMarkers

definition marker_rows :: "marker_table \<Rightarrow> database \<Rightarrow> marker list" where
  "marker_rows tb d = (case tb of ReadMarkers \<Rightarrow> read_markers d | DeliveredMarkers \<Rightarrow> delivered_markers d)"

definition set_marker_rows :: "marker_table \<Rightarrow> marker list \<Rightarrow> database \<Rightarrow> database" where
  "set_marker_rows tb rows d =
     (case tb of ReadMarkers \<Rightarrow> d\<lparr>read_markers := rows\<rparr> | DeliveredMarkers \<Rightarrow> d\<lparr>delivered_markers := rows\<rparr>)"

definition mk_key :: "marker \<Rightarrow> uuid \<times> uuid" where
  "mk_key k = (mk_conversation_id k, mk_account_id k)"

definition max_seq :: "uuid \<Rightarrow> database \<Rightarrow> i64" where
  "max_seq cid d =
     (let seqs = map msg_seq (filter (\<lambda>m. msg_conversation_id m = cid) (messages d))
      in if seqs = [] then 0 else Max (set seqs))"

definition mark :: "marker_table \<Rightarrow> uuid \<Rightarrow> uuid \<Rightarrow> unit stmt" where
  "mark tb cid account d =
     (if has_key mk_key (cid, account) (marker_rows tb d)
      then (Inr (), set_marker_rows tb (update_where (\<lambda>k. mk_key k = (cid, account))
              (\<lambda>k. k\<lparr>mk_up_to_seq := max (mk_up_to_seq k) (max_seq cid d)\<rparr>) (marker_rows tb d)) d)
      else if has_key conv_id cid (conversations d) \<and> has_key acc_id account (accounts d)
      then (Inr (), set_marker_rows tb (marker_rows tb d @
              [\<lparr>mk_conversation_id = cid, mk_account_id = account, mk_up_to_seq = max_seq cid d\<rparr>]) d)
      else (Inl (Database ForeignKeyViolation), d))"

definition mark_read :: "uuid \<Rightarrow> uuid \<Rightarrow> unit stmt" where
  "mark_read = mark ReadMarkers"

definition mark_delivered :: "uuid \<Rightarrow> uuid \<Rightarrow> unit stmt" where
  "mark_delivered = mark DeliveredMarkers"

definition marker_of :: "marker_table \<Rightarrow> uuid \<Rightarrow> uuid \<Rightarrow> i64 stmt" where
  "marker_of tb cid account d =
     (Inr (case List.find (\<lambda>k. mk_key k = (cid, account)) (marker_rows tb d) of
             None \<Rightarrow> 0 | Some k \<Rightarrow> mk_up_to_seq k), d)"

definition read_seq :: "uuid \<Rightarrow> uuid \<Rightarrow> i64 stmt" where
  "read_seq = marker_of ReadMarkers"

definition delivered_seq :: "uuid \<Rightarrow> uuid \<Rightarrow> i64 stmt" where
  "delivered_seq = marker_of DeliveredMarkers"

section \<open>Listings\<close>

record convo_list_row =
  cl_other :: uuid
  cl_cid :: uuid
  cl_username :: string
  cl_display_name :: "string option"
  cl_avatar_blob_id :: "uuid option"
  cl_last_seen :: "timestamp option"

record user_row =
  ur_id :: uuid
  ur_username :: string
  ur_display_name :: "string option"
  ur_avatar_blob_id :: "uuid option"
  ur_last_seen :: "timestamp option"

text \<open>The row of a \<open>LEFT JOIN profiles\<close>: at most one, since the account is its primary key.\<close>

definition profile_of :: "database \<Rightarrow> uuid \<Rightarrow> profile option" where
  "profile_of d account = List.find (\<lambda>p. pr_account_id p = account) (profiles d)"

definition has_messages :: "database \<Rightarrow> uuid \<Rightarrow> bool" where
  "has_messages d cid = list_ex (\<lambda>m. msg_conversation_id m = cid) (messages d)"

definition latest_ts :: "database \<Rightarrow> uuid \<Rightarrow> timestamp" where
  "latest_ts d cid = Max (set (map msg_server_ts
     (filter (\<lambda>m. msg_conversation_id m = cid) (messages d))))"

definition convo_row :: "database \<Rightarrow> member \<Rightarrow> account \<Rightarrow> convo_list_row" where
  "convo_row d ot a =
     \<lparr>cl_other = mem_account_id ot, cl_cid = mem_conversation_id ot, cl_username = acc_username a,
      cl_display_name = Option.bind (profile_of d (mem_account_id ot)) pr_display_name,
      cl_avatar_blob_id = Option.bind (profile_of d (mem_account_id ot)) pr_avatar_blob_id,
      cl_last_seen = Option.bind (profile_of d (mem_account_id ot)) pr_last_seen\<rparr>"

definition conversations_for :: "nat list \<Rightarrow> uuid \<Rightarrow> convo_list_row list stmt" where
  "conversations_for order account d =
     (Inr (sort_key (\<lambda>r. - latest_ts d (cl_cid r)) (reorder order
        [convo_row d ot a.
           me \<leftarrow> conversation_members d, mem_account_id me = account,
           ot \<leftarrow> conversation_members d,
             mem_conversation_id ot = mem_conversation_id me \<and> mem_account_id ot \<noteq> mem_account_id me,
           a \<leftarrow> accounts d, acc_id a = mem_account_id ot \<and> has_messages d (mem_conversation_id me)])), d)"

definition user_row_of :: "database \<Rightarrow> account \<Rightarrow> user_row" where
  "user_row_of d a =
     \<lparr>ur_id = acc_id a, ur_username = acc_username a,
      ur_display_name = Option.bind (profile_of d (acc_id a)) pr_display_name,
      ur_avatar_blob_id = Option.bind (profile_of d (acc_id a)) pr_avatar_blob_id,
      ur_last_seen = Option.bind (profile_of d (acc_id a)) pr_last_seen\<rparr>"

definition list_users :: "(string \<Rightarrow> nat list) \<Rightarrow> nat list \<Rightarrow> uuid \<Rightarrow> user_row list stmt" where
  "list_users coll order me d =
     (Inr (sort_key (\<lambda>u. coll (ur_username u)) (reorder order
        (map (user_row_of d) (filter (\<lambda>a. acc_id a \<noteq> me) (accounts d))))), d)"

definition find_user_by_username :: "string \<Rightarrow> user_row option stmt" where
  "find_user_by_username username d =
     (Inr (map_option (user_row_of d) (List.find (\<lambda>a. acc_username a = username) (accounts d))), d)"

definition username_of :: "uuid \<Rightarrow> string stmt" where
  "username_of i d =
     (Inr (case List.find (\<lambda>a. acc_id a = i) (accounts d) of None \<Rightarrow> [] | Some a \<Rightarrow> acc_username a), d)"

section \<open>Profiles\<close>

definition profile_default :: "uuid \<Rightarrow> profile" where
  "profile_default account =
     \<lparr>pr_account_id = account, pr_display_name = None, pr_bio = None, pr_avatar_blob_id = None,
      pr_last_seen = None\<rparr>"

definition get_profile :: "uuid \<Rightarrow> profile stmt" where
  "get_profile account d =
     (Inr (case profile_of d account of None \<Rightarrow> profile_default account | Some p \<Rightarrow> p), d)"

text \<open>\<open>INSERT INTO profiles .. ON CONFLICT (account_id) DO UPDATE\<close>.\<close>

definition upsert_profile_row :: "uuid \<Rightarrow> (profile \<Rightarrow> profile) \<Rightarrow> unit stmt" where
  "upsert_profile_row account f d =
     (if has_key pr_account_id account (profiles d)
      then (Inr (), d\<lparr>profiles := update_where (\<lambda>p. pr_account_id p = account) f (profiles d)\<rparr>)
      else if has_key acc_id account (accounts d)
      then (Inr (), d\<lparr>profiles := profiles d @ [f (profile_default account)]\<rparr>)
      else (Inl (Database ForeignKeyViolation), d))"

definition upsert_profile ::
    "uuid \<Rightarrow> string option \<Rightarrow> string option \<Rightarrow> uuid option \<Rightarrow> unit stmt" where
  "upsert_profile account display_name bio avatar =
     upsert_profile_row account
       (\<lambda>p. p\<lparr>pr_display_name := display_name, pr_bio := bio, pr_avatar_blob_id := avatar\<rparr>)"

definition set_last_seen :: "uuid \<Rightarrow> timestamp \<Rightarrow> unit stmt" where
  "set_last_seen account at = upsert_profile_row account (\<lambda>p. p\<lparr>pr_last_seen := Some at\<rparr>)"

section \<open>Blobs\<close>

definition insert_blob :: "timestamp \<Rightarrow> uuid \<Rightarrow> string \<Rightarrow> bytes \<Rightarrow> unit stmt" where
  "insert_blob now i content_type bs d =
     (if has_key bl_id i (blobs d) then (Inl (Database UniqueViolation), d)
      else (Inr (), d\<lparr>blobs := blobs d @ [\<lparr>bl_id = i, bl_content_type = content_type,
              bl_bytes = bs, bl_created_at = now\<rparr>]\<rparr>))"

definition put_blob :: "world \<Rightarrow> string \<Rightarrow> bytes \<Rightarrow> (sys, sqlx_error + uuid) prog" where
  "put_blob w content_type bs =
     bind (new_uuid w) (\<lambda>i.
     bindE (pg w (\<lambda>n. insert_blob (pg_now w n) i content_type bs)) (\<lambda>_. Ret (Inr i)))"

definition get_blob :: "uuid \<Rightarrow> blob option stmt" where
  "get_blob i d = (Inr (List.find (\<lambda>b. bl_id b = i) (blobs d)), d)"

section \<open>Shared media\<close>

definition insert_media :: "media \<Rightarrow> unit stmt" where
  "insert_media e d =
     (if has_key md_id (md_id e) (media_rows d) then (Inl (Database UniqueViolation), d)
      else if has_key conv_id (md_conversation_id e) (conversations d)
            \<and> has_key acc_id (md_sender_account_id e) (accounts d)
      then (Inr (), d\<lparr>media_rows := media_rows d @ [e]\<rparr>)
      else (Inl (Database ForeignKeyViolation), d))"

definition record_media ::
    "world \<Rightarrow> uuid \<Rightarrow> uuid \<Rightarrow> uuid \<Rightarrow> i64 \<Rightarrow> string \<Rightarrow> uuid option \<Rightarrow> uuid option \<Rightarrow> string option
      \<Rightarrow> string option \<Rightarrow> string option \<Rightarrow> i64 option \<Rightarrow> i64 option \<Rightarrow> i64 option
      \<Rightarrow> (sys, sqlx_error + unit) prog" where
  "record_media w cid message_id sender_account seq kind blob_id thumb_blob_id mime name url size' width height =
     bind (new_uuid w) (\<lambda>i.
     pg w (\<lambda>n. insert_media
       \<lparr>md_id = i, md_conversation_id = cid, md_message_id = message_id,
        md_sender_account_id = sender_account, md_seq = seq, md_kind = kind, md_blob_id = blob_id,
        md_thumb_blob_id = thumb_blob_id, md_mime = mime, md_name = name, md_url = url,
        md_size = size', md_width = width, md_height = height, md_created_at = pg_now w n\<rparr>))"

definition media_hits :: "uuid \<Rightarrow> string option \<Rightarrow> i64 option \<Rightarrow> database \<Rightarrow> media list" where
  "media_hits cid kind before d =
     filter (\<lambda>e. md_conversation_id e = cid
               \<and> (case kind of None \<Rightarrow> True | Some k \<Rightarrow> md_kind e = k)
               \<and> (case before of None \<Rightarrow> True | Some b \<Rightarrow> md_seq e < b)) (media_rows d)"

text \<open>
  \<open>ORDER BY seq DESC LIMIT limit + 1\<close>, then the extra row is cut off and only tells that there
  are more. Postgres refuses a negative \<open>LIMIT\<close>; \<open>limit as usize\<close> of a negative number is huge.
\<close>

definition list_media ::
    "nat list \<Rightarrow> uuid \<Rightarrow> string option \<Rightarrow> i64 option \<Rightarrow> i64 \<Rightarrow> (media list \<times> i64 option) stmt" where
  "list_media order cid kind before limit d =
     (if limit + 1 < 0 then (Inl (Database InvalidRowCount), d)
      else
        let rows = take (nat (limit + 1))
                     (sort_key (\<lambda>e. - md_seq e) (reorder order (media_hits cid kind before d)));
            has_more = int (length rows) > limit;
            rows' = (if has_more \<and> 0 \<le> limit then take (nat limit) rows else rows);
            nxt = (if has_more \<and> rows' \<noteq> [] then Some (md_seq (last rows')) else None)
        in (Inr (rows', nxt), d))"

lemma reads_db [guar_intros, simp]:
  "reads (select_dm lo hi)" "reads (select_dm_one lo hi)" "reads (is_participant cid a)"
  "reads (history cid a)" "reads (conversation_member_ids order cid)"
  "reads (marker_of tb cid a)" "reads (read_seq cid a)" "reads (delivered_seq cid a)"
  "reads (conversations_for order a)" "reads (list_users coll order a)"
  "reads (find_user_by_username u)" "reads (username_of a)" "reads (get_profile a)"
  "reads (get_blob b)" "reads (list_media order cid kind before limit)"
  by (auto simp: reads_def select_dm_def select_dm_one_def is_participant_def history_def
      conversation_member_ids_def marker_of_def read_seq_def delivered_seq_def
      conversations_for_def list_users_def find_user_by_username_def username_of_def
      get_profile_def get_blob_def list_media_def split: option.splits)

lemmas db_query_defs [prog_defs] = i64_max_def reorder_def pair_order_def dm_key_def mem_key_def select_dm_def
  select_dm_one_def insert_conversation_def insert_members_def insert_dm_def claim_on_def
  create_conversation_def dm_conversation_def is_participant_def bump_last_seq_def seq_key_def
  insert_message_def new_message_def store_message_def history_def hid_key_def hide_message_for_def
  edit_message_def soft_delete_def delete_media_of_def delete_message_def conversation_member_ids_def
  marker_rows_def set_marker_rows_def mk_key_def max_seq_def mark_def mark_read_def mark_delivered_def
  marker_of_def read_seq_def delivered_seq_def profile_of_def profile_default_def get_profile_def
  upsert_profile_row_def upsert_profile_def set_last_seen_def insert_blob_def put_blob_def get_blob_def
  insert_media_def record_media_def media_hits_def list_media_def

end
