(* ===== verification/Db_Invariant.thy ===== *)
theory Db_Invariant
  imports Db_Queries
begin

text \<open>
  The invariant of the database and the way it grows. \<open>sys_inv\<close> collects the key and reference
  constraints with the facts the code adds to them (sequence numbers, deleted messages, members
  of a direct conversation); \<open>sys_grows\<close> says what no step ever takes back. Every statement of
  the server keeps the first and respects the second, from any state, so both hold for every
  interleaving of requests.
\<close>

section \<open>The invariant\<close>

definition acc_ids :: "database \<Rightarrow> uuid set" where
  "acc_ids d = acc_id ` set (accounts d)"

definition conv_ids :: "database \<Rightarrow> uuid set" where
  "conv_ids d = conv_id ` set (conversations d)"

definition dm_ids :: "database \<Rightarrow> uuid set" where
  "dm_ids d = dm_conversation_id ` set (dm_conversations d)"

definition seq_within :: "database \<Rightarrow> uuid \<Rightarrow> i64 \<Rightarrow> bool" where
  "seq_within d cid n \<longleftrightarrow> (\<exists>c \<in> set (conversations d). conv_id c = cid \<and> n \<le> conv_last_seq c)"

definition conv_inv :: "database \<Rightarrow> bool" where
  "conv_inv d \<longleftrightarrow>
     distinct (map conv_id (conversations d))
   \<and> distinct (map mem_key (conversation_members d))
   \<and> distinct (map dm_key (dm_conversations d))
   \<and> (\<forall>c \<in> set (conversations d). 0 \<le> conv_last_seq c \<and> conv_last_seq c \<le> i64_max)
   \<and> (\<forall>m \<in> set (conversation_members d). mem_conversation_id m \<in> conv_ids d \<and> mem_account_id m \<in> acc_ids d)
   \<and> (\<forall>p \<in> set (dm_conversations d). dm_account_lo p \<le> dm_account_hi p
        \<and> (dm_conversation_id p, dm_account_lo p) \<in> mem_key ` set (conversation_members d)
        \<and> (dm_conversation_id p, dm_account_hi p) \<in> mem_key ` set (conversation_members d))"

definition msg_inv :: "database \<Rightarrow> bool" where
  "msg_inv d \<longleftrightarrow>
     distinct (map msg_id (messages d)) \<and> distinct (map seq_key (messages d))
   \<and> (\<forall>m \<in> set (messages d). msg_conversation_id m \<in> dm_ids d
        \<and> (msg_conversation_id m, msg_sender_account_id m) \<in> mem_key ` set (conversation_members d)
        \<and> msg_sender_account_id m \<in> acc_ids d \<and> 1 \<le> msg_seq m
        \<and> seq_within d (msg_conversation_id m) (msg_seq m)
        \<and> (msg_deleted_at m \<noteq> None \<longrightarrow> msg_ciphertext m = []))"

definition marker_inv :: "database \<Rightarrow> bool" where
  "marker_inv d \<longleftrightarrow>
     (\<forall>tb. distinct (map mk_key (marker_rows tb d))
        \<and> (\<forall>k \<in> set (marker_rows tb d). mk_account_id k \<in> acc_ids d \<and> 0 \<le> mk_up_to_seq k
             \<and> seq_within d (mk_conversation_id k) (mk_up_to_seq k)))"

definition media_inv :: "database \<Rightarrow> bool" where
  "media_inv d \<longleftrightarrow>
     distinct (map md_id (media_rows d))
   \<and> (\<forall>e \<in> set (media_rows d). \<exists>m \<in> set (messages d). msg_id m = md_message_id e
        \<and> msg_conversation_id m = md_conversation_id e \<and> msg_seq m = md_seq e
        \<and> msg_sender_account_id m = md_sender_account_id e)"

definition misc_inv :: "database \<Rightarrow> bool" where
  "misc_inv d \<longleftrightarrow>
     distinct (map pr_account_id (profiles d)) \<and> pr_account_id ` set (profiles d) \<subseteq> acc_ids d
   \<and> distinct (map bl_id (blobs d))
   \<and> distinct (map hid_key (hidden_messages d)) \<and> hid_account_id ` set (hidden_messages d) \<subseteq> acc_ids d"

definition db_inv :: "database \<Rightarrow> bool" where
  "db_inv d \<longleftrightarrow> auth_inv d \<and> conv_inv d \<and> msg_inv d \<and> marker_inv d \<and> media_inv d \<and> misc_inv d"

text \<open>Every conversation was created for a pair of accounts, and has no other members.\<close>

definition claim_inv :: "sys \<Rightarrow> bool" where
  "claim_inv s \<longleftrightarrow>
     dom (dm_claim s) = conv_ids (db s)
   \<and> (\<forall>m \<in> set (conversation_members (db s)). \<exists>lo hi.
        dm_claim s (mem_conversation_id m) = Some (lo, hi) \<and> mem_account_id m \<in> {lo, hi})
   \<and> (\<forall>p \<in> set (dm_conversations (db s)). dm_claim s (dm_conversation_id p) = Some (dm_key p))"

definition sys_inv :: "sys \<Rightarrow> bool" where
  "sys_inv s \<longleftrightarrow> db_inv (db s) \<and> claim_inv s"

section \<open>Growth\<close>

definition msg_grows :: "message \<Rightarrow> message \<Rightarrow> bool" where
  "msg_grows m n \<longleftrightarrow>
     msg_id n = msg_id m \<and> msg_conversation_id n = msg_conversation_id m \<and> msg_seq n = msg_seq m
   \<and> msg_sender_account_id n = msg_sender_account_id m
   \<and> msg_sender_device_id n = msg_sender_device_id m \<and> msg_server_ts n = msg_server_ts m
   \<and> msg_reply_to n = msg_reply_to m \<and> (msg_deleted_at m \<noteq> None \<longrightarrow> n = m)"

definition conv_le :: "conversation \<Rightarrow> conversation \<Rightarrow> bool" where
  "conv_le c c' \<longleftrightarrow> conv_id c' = conv_id c \<and> conv_kind c' = conv_kind c
     \<and> conv_last_seq c \<le> conv_last_seq c'"

definition mk_le :: "marker \<Rightarrow> marker \<Rightarrow> bool" where
  "mk_le k k' \<longleftrightarrow> mk_key k' = mk_key k \<and> mk_up_to_seq k \<le> mk_up_to_seq k'"

definition conv_grows :: "database \<Rightarrow> database \<Rightarrow> bool" where
  "conv_grows d e \<longleftrightarrow>
     rows_grow conv_le (conversations d) (conversations e)
   \<and> set (conversation_members d) \<subseteq> set (conversation_members e)
   \<and> set (dm_conversations d) \<subseteq> set (dm_conversations e)"

definition content_grows :: "database \<Rightarrow> database \<Rightarrow> bool" where
  "content_grows d e \<longleftrightarrow>
     rows_grow msg_grows (messages d) (messages e)
   \<and> rows_grow mk_le (read_markers d) (read_markers e)
   \<and> rows_grow mk_le (delivered_markers d) (delivered_markers e)
   \<and> set (blobs d) \<subseteq> set (blobs e) \<and> set (hidden_messages d) \<subseteq> set (hidden_messages e)"

definition db_grows :: "database \<Rightarrow> database \<Rightarrow> bool" where
  "db_grows d e \<longleftrightarrow> auth_grows d e \<and> conv_grows d e \<and> content_grows d e"

definition sys_grows :: "sys \<Rightarrow> sys \<Rightarrow> bool" where
  "sys_grows s t \<longleftrightarrow> db_grows (db s) (db t) \<and> dm_claim s \<subseteq>\<^sub>m dm_claim t \<and> tick s \<le> tick t"

lemma msg_grows_refl [simp]: "msg_grows m m"
  by (simp add: msg_grows_def)

lemma msg_grows_trans: "msg_grows a b \<Longrightarrow> msg_grows b c \<Longrightarrow> msg_grows a c"
  by (auto simp: msg_grows_def)

lemma conv_le_refl [simp]: "conv_le c c" and mk_le_refl [simp]: "mk_le k k"
  by (simp_all add: conv_le_def mk_le_def)

lemma conv_le_trans: "conv_le a b \<Longrightarrow> conv_le b c \<Longrightarrow> conv_le a c"
  by (simp add: conv_le_def)

lemma mk_le_trans: "mk_le a b \<Longrightarrow> mk_le b c \<Longrightarrow> mk_le a c"
  by (simp add: mk_le_def)

lemma conv_grows_refl [simp]: "conv_grows d d"
  by (simp add: conv_grows_def rows_grow_refl)

lemma conv_grows_trans: "conv_grows a b \<Longrightarrow> conv_grows b c \<Longrightarrow> conv_grows a c"
  using rows_grow_trans conv_le_trans unfolding conv_grows_def by (meson subset_trans)

lemma content_grows_refl [simp]: "content_grows d d"
  by (simp add: content_grows_def rows_grow_refl)

lemma content_grows_trans: "content_grows a b \<Longrightarrow> content_grows b c \<Longrightarrow> content_grows a c"
  using rows_grow_trans msg_grows_trans mk_le_trans unfolding content_grows_def
  by (meson subset_trans)

lemma db_grows_refl [simp]: "db_grows d d"
  by (simp add: db_grows_def)

lemma db_grows_trans: "db_grows a b \<Longrightarrow> db_grows b c \<Longrightarrow> db_grows a c"
  using auth_grows_trans conv_grows_trans content_grows_trans by (auto simp: db_grows_def)

interpretation srv: rely_guarantee sys_grows sys_inv
proof
  fix s t u
  show "sys_grows s s" by (simp add: sys_grows_def)
  show "sys_grows s t \<Longrightarrow> sys_grows t u \<Longrightarrow> sys_grows s u"
    using db_grows_trans map_le_trans by (fastforce simp: sys_grows_def)
qed

text \<open>What growth keeps.\<close>

lemma acc_ids_mono: "auth_grows d e \<Longrightarrow> acc_ids d \<subseteq> acc_ids e"
  by (auto simp: auth_grows_def acc_ids_def)

lemma conv_ids_mono: "conv_grows d e \<Longrightarrow> conv_ids d \<subseteq> conv_ids e"
  unfolding conv_grows_def conv_ids_def conv_le_def rows_grow_def by (auto simp: image_iff) metis

lemma dm_ids_mono: "conv_grows d e \<Longrightarrow> dm_ids d \<subseteq> dm_ids e"
  by (auto simp: conv_grows_def dm_ids_def)

lemma seq_within_mono: "conv_grows d e \<Longrightarrow> seq_within d c n \<Longrightarrow> seq_within e c n"
  by (fastforce simp: conv_grows_def seq_within_def conv_le_def rows_grow_def)

section \<open>Concrete states\<close>

lemma sys_inv_demo_sys [simp]: "sys_inv demo_sys"
  by (simp add: sys_inv_def claim_inv_def db_inv_def auth_inv_def conv_inv_def msg_inv_def marker_inv_def
      media_inv_def misc_inv_def demo_sys_def empty_database_def conv_ids_def marker_rows_def split: marker_table.splits)

lemma sys_inv_demo_two [simp]: "sys_inv demo_two"
  by (simp add: sys_inv_def claim_inv_def db_inv_def auth_inv_def conv_inv_def msg_inv_def marker_inv_def
      media_inv_def misc_inv_def demo_sys_def demo_two_def empty_database_def conv_ids_def marker_rows_def split: marker_table.splits)

end
