(* ===== verification/Db_Steps.thy ===== *)
theory Db_Steps
  imports Db_Invariant
begin

text \<open>
  Every statement of the server keeps the invariant of the database and lets the database grow:
  one lemma \<open>keeps_*\<close> per statement, from lemmas about the parts a statement does not touch. The
  last section lifts statements to programs that other tasks interleave with.
\<close>

section \<open>Parts a statement does not touch\<close>

lemma conv_inv_frame:
  "conv_inv d \<Longrightarrow> conversations e = conversations d \<Longrightarrow>
   conversation_members e = conversation_members d \<Longrightarrow> dm_conversations e = dm_conversations d \<Longrightarrow>
   auth_grows d e \<Longrightarrow> conv_inv e"
  using acc_ids_mono [of d e] by (auto simp: conv_inv_def conv_ids_def)

lemma members_mono: "conv_grows d e \<Longrightarrow>
    mem_key ` set (conversation_members d) \<subseteq> mem_key ` set (conversation_members e)"
  by (auto simp: conv_grows_def)

lemma msg_inv_frame:
  "msg_inv d \<Longrightarrow> messages e = messages d \<Longrightarrow> auth_grows d e \<Longrightarrow> conv_grows d e \<Longrightarrow> msg_inv e"
  using acc_ids_mono [of d e] dm_ids_mono [of d e] seq_within_mono [of d e] members_mono [of d e]
  unfolding msg_inv_def by auto

lemma marker_inv_frame:
  "marker_inv d \<Longrightarrow> read_markers e = read_markers d \<Longrightarrow> delivered_markers e = delivered_markers d \<Longrightarrow>
   auth_grows d e \<Longrightarrow> conv_grows d e \<Longrightarrow> marker_inv e"
  using acc_ids_mono [of d e] seq_within_mono [of d e]
  by (auto simp: marker_inv_def marker_rows_def split: marker_table.splits)

lemma media_inv_frame:
  assumes "media_inv d" and "media_rows e = media_rows d" and "rows_grow msg_grows (messages d) (messages e)"
  shows "media_inv e"
proof -
  have "\<exists>n \<in> set (messages e). msg_id n = md_message_id x
        \<and> msg_conversation_id n = md_conversation_id x \<and> msg_seq n = md_seq x
        \<and> msg_sender_account_id n = md_sender_account_id x" if x: "x \<in> set (media_rows d)" for x
  proof -
    from x assms(1) obtain m where m: "m \<in> set (messages d)" "msg_id m = md_message_id x"
      "msg_conversation_id m = md_conversation_id x" "msg_seq m = md_seq x"
      "msg_sender_account_id m = md_sender_account_id x" by (auto simp: media_inv_def)
    from assms(3) m(1) obtain n where "n \<in> set (messages e)" "msg_grows m n" by (rule rows_growE)
    with m show ?thesis by (auto simp: msg_grows_def)
  qed
  with assms(1,2) show ?thesis by (auto simp: media_inv_def)
qed

lemma misc_inv_frame:
  "misc_inv d \<Longrightarrow> profiles e = profiles d \<Longrightarrow> blobs e = blobs d \<Longrightarrow>
   hidden_messages e = hidden_messages d \<Longrightarrow> auth_grows d e \<Longrightarrow> misc_inv e"
  using acc_ids_mono [of d e] by (auto simp: misc_inv_def)

lemma auth_inv_frame:
  "auth_inv d \<Longrightarrow> accounts e = accounts d \<Longrightarrow> devices e = devices d \<Longrightarrow> sessions e = sessions d \<Longrightarrow> auth_inv e"
  by (simp add: auth_inv_def)

lemma auth_grows_frame:
  "accounts e = accounts d \<Longrightarrow> devices e = devices d \<Longrightarrow> sessions e = sessions d \<Longrightarrow> auth_grows d e"
  by (simp add: auth_grows_def rows_grow_refl)

lemma conv_grows_frame:
  "conversations e = conversations d \<Longrightarrow> conversation_members e = conversation_members d \<Longrightarrow>
   dm_conversations e = dm_conversations d \<Longrightarrow> conv_grows d e"
  by (simp add: conv_grows_def rows_grow_refl)

lemma content_grows_frame:
  "messages e = messages d \<Longrightarrow> read_markers e = read_markers d \<Longrightarrow>
   delivered_markers e = delivered_markers d \<Longrightarrow> blobs e = blobs d \<Longrightarrow>
   hidden_messages e = hidden_messages d \<Longrightarrow> content_grows d e"
  by (simp add: content_grows_def rows_grow_refl)

lemma msg_inv_cong:
  "msg_inv d \<Longrightarrow> messages e = messages d \<Longrightarrow> accounts e = accounts d \<Longrightarrow>
   conversations e = conversations d \<Longrightarrow> dm_conversations e = dm_conversations d \<Longrightarrow>
   conversation_members e = conversation_members d \<Longrightarrow> msg_inv e"
  by (simp add: msg_inv_def acc_ids_def dm_ids_def seq_within_def)

lemma marker_inv_cong:
  "marker_inv d \<Longrightarrow> read_markers e = read_markers d \<Longrightarrow> delivered_markers e = delivered_markers d \<Longrightarrow>
   accounts e = accounts d \<Longrightarrow> conversations e = conversations d \<Longrightarrow> marker_inv e"
  by (auto simp: marker_inv_def marker_rows_def acc_ids_def seq_within_def split: marker_table.splits)

lemma misc_inv_cong:
  "misc_inv d \<Longrightarrow> profiles e = profiles d \<Longrightarrow> blobs e = blobs d \<Longrightarrow>
   hidden_messages e = hidden_messages d \<Longrightarrow> accounts e = accounts d \<Longrightarrow> misc_inv e"
  by (simp add: misc_inv_def acc_ids_def)

lemma media_inv_cong:
  "media_inv d \<Longrightarrow> media_rows e = media_rows d \<Longrightarrow> messages e = messages d \<Longrightarrow> media_inv e"
  by (simp add: media_inv_def)

lemmas inv_congs = msg_inv_cong marker_inv_cong misc_inv_cong media_inv_cong

text \<open>The conversation tables hold the same conversations, members and pairs.\<close>

definition same_convs :: "database \<Rightarrow> database \<Rightarrow> bool" where
  "same_convs d e \<longleftrightarrow> conv_ids e = conv_ids d \<and> conversation_members e = conversation_members d
     \<and> dm_conversations e = dm_conversations d"

text \<open>
  \<open>keeps P q\<close>: in a state that satisfies \<open>P\<close> the statement keeps the invariant, lets the
  database grow only, and leaves the set of conversations alone.
\<close>

definition good_step :: "database \<Rightarrow> database \<Rightarrow> bool" where
  "good_step d e \<longleftrightarrow> db_inv e \<and> db_grows d e \<and> same_convs d e"

definition keeps :: "(database \<Rightarrow> bool) \<Rightarrow> 'a stmt \<Rightarrow> bool" where
  "keeps P q \<longleftrightarrow> (\<forall>d. db_inv d \<longrightarrow> P d \<longrightarrow> good_step d (snd (q d)))"

lemma good_step_refl: "db_inv d \<Longrightarrow> good_step d d"
  by (simp add: good_step_def same_convs_def)

lemma keeps_reads [ok_intros]: "reads q \<Longrightarrow> keeps P q"
  by (simp add: keeps_def reads_def good_step_refl)

section \<open>Statements on the auth tables\<close>

lemma good_step_auth:
  assumes "db_inv d" and "auth_inv e" and "auth_grows d e"
    and "conversations e = conversations d" "conversation_members e = conversation_members d"
      "dm_conversations e = dm_conversations d" "messages e = messages d"
      "read_markers e = read_markers d" "delivered_markers e = delivered_markers d"
      "profiles e = profiles d" "blobs e = blobs d" "media_rows e = media_rows d"
      "hidden_messages e = hidden_messages d"
  shows "good_step d e"
  using assms conv_inv_frame [of d e] msg_inv_frame [of d e] marker_inv_frame [of d e]
    media_inv_frame [of d e] misc_inv_frame [of d e] conv_grows_frame [of e d]
    content_grows_frame [of e d]
  by (simp add: good_step_def db_inv_def db_grows_def same_convs_def conv_ids_def rows_grow_refl)

lemma keeps_auth [ok_intros]:
  "keeps P (create_account now i u v)" "keeps P (create_device now i a n k)"
  "keeps P (create_session now i dv h r x)" "keeps P (rotate_session i h r x)"
  "keeps P (revoke_session now i)"
  unfolding keeps_def
  by (auto intro!: good_step_auth simp: db_inv_def auth_grows_writes auth_inv_create_account
      auth_inv_create_device auth_inv_create_session auth_inv_rotate_session auth_inv_revoke_session)
     (auto simp: create_account_def create_device_def create_session_def rotate_session_def
       revoke_session_def)


section \<open>Statements on conversations and messages\<close>

lemma conv_found: "List.find (\<lambda>c. conv_id c = cid) (conversations d) = Some c \<Longrightarrow>
    c \<in> set (conversations d) \<and> conv_id c = cid"
  by (rule find_SomeD)

lemma conv_inv_bump:
  assumes "conv_inv d"
  shows "conv_inv (snd (bump_last_seq cid d))"
proof (cases "List.find (\<lambda>c. conv_id c = cid) (conversations d)")
  case None
  with assms show ?thesis by (simp add: bump_last_seq_def)
next
  case (Some c)
  have ids: "conv_ids (d\<lparr>conversations := update_where (\<lambda>x. conv_id x = cid)
      (\<lambda>x. x\<lparr>conv_last_seq := conv_last_seq x + 1\<rparr>) (conversations d)\<rparr>) = conv_ids d"
    by (simp add: conv_ids_def)
  have only: "x = c" if "x \<in> set (conversations d)" "conv_id x = cid" for x
    using assms that conv_found [OF Some] distinct_key_eq [of conv_id "conversations d" x c]
    by (simp add: conv_inv_def)
  have "0 \<le> conv_last_seq y \<and> conv_last_seq y \<le> i64_max"
    if "y \<in> set (update_where (\<lambda>x. conv_id x = cid)
          (\<lambda>x. x\<lparr>conv_last_seq := conv_last_seq x + 1\<rparr>) (conversations d))"
      and "\<not> i64_max < conv_last_seq c + 1" for y
  proof -
    from that(1) show ?thesis
    proof (cases rule: in_update_whereE)
      case (changed x)
      with assms that(2) only show ?thesis by (auto simp: conv_inv_def)
    next
      case kept
      with assms show ?thesis by (auto simp: conv_inv_def)
    qed
  qed
  with assms Some ids show ?thesis
    by (auto simp: bump_last_seq_def conv_inv_def acc_ids_def)
qed

lemma keeps_bump [ok_intros]: "keeps P (bump_last_seq cid)"
  unfolding keeps_def
proof (intro allI impI)
  fix d assume d: "db_inv d"
  let ?e = "snd (bump_last_seq cid d)"
  have frame: "accounts ?e = accounts d" "devices ?e = devices d" "sessions ?e = sessions d"
      "conversation_members ?e = conversation_members d" "dm_conversations ?e = dm_conversations d"
      "messages ?e = messages d" "read_markers ?e = read_markers d"
      "delivered_markers ?e = delivered_markers d" "profiles ?e = profiles d" "blobs ?e = blobs d"
      "media_rows ?e = media_rows d" "hidden_messages ?e = hidden_messages d"
    by (auto simp: bump_last_seq_def split: option.splits)
  have ag: "auth_grows d ?e" using frame by (simp add: auth_grows_frame)
  have cg: "conv_grows d ?e"
    by (auto simp: bump_last_seq_def conv_grows_def conv_le_def
        intro!: rows_grow_refl rows_grow_update split: option.splits)
  have ids: "conv_ids ?e = conv_ids d"
    by (auto simp: bump_last_seq_def conv_ids_def split: option.splits)
  show "good_step d ?e"
    using d frame ag cg ids conv_inv_bump [of d cid] auth_inv_frame [of d ?e]
      msg_inv_frame [of d ?e] marker_inv_frame [of d ?e] media_inv_frame [of d ?e]
      misc_inv_frame [of d ?e] content_grows_frame [of ?e d]
    by (simp add: good_step_def db_inv_def db_grows_def same_convs_def rows_grow_refl)
qed

lemma bump_result:
  assumes "bump_last_seq cid d = (Inr n, e)" and "conv_inv d"
  shows "seq_within e cid n \<and> 1 \<le> n"
proof -
  obtain c where c: "List.find (\<lambda>c. conv_id c = cid) (conversations d) = Some c"
    and n: "n = conv_last_seq c + 1"
    and e: "e = d\<lparr>conversations := update_where (\<lambda>x. conv_id x = cid)
                    (\<lambda>x. x\<lparr>conv_last_seq := conv_last_seq x + 1\<rparr>) (conversations d)\<rparr>"
    using assms(1) by (auto simp: bump_last_seq_def split: option.splits if_splits)
  then have "c\<lparr>conv_last_seq := conv_last_seq c + 1\<rparr> \<in> set (conversations e)"
    using conv_found [OF c] by (auto simp: set_update_where)
  then have "seq_within e cid n"
    using conv_found [OF c] n unfolding seq_within_def by (intro bexI) auto
  moreover have "0 \<le> conv_last_seq c" using assms(2) conv_found [OF c] by (simp add: conv_inv_def)
  ultimately show ?thesis using n by simp
qed

text \<open>Statements that change the contents of conversations only.\<close>

lemma good_step_content:
  assumes "db_inv d" and "msg_inv e" "marker_inv e" "media_inv e" "misc_inv e" and "content_grows d e"
    and "accounts e = accounts d" "devices e = devices d" "sessions e = sessions d"
      "conversations e = conversations d" "conversation_members e = conversation_members d"
      "dm_conversations e = dm_conversations d"
  shows "good_step d e"
  using assms auth_inv_frame [of d e] conv_inv_frame [of d e] auth_grows_frame [of e d]
    conv_grows_frame [of e d]
  by (simp add: good_step_def db_inv_def db_grows_def same_convs_def conv_ids_def)

lemma id_sets_cong [simp]:
  "acc_ids (d\<lparr>messages := ms\<rparr>) = acc_ids d" "dm_ids (d\<lparr>messages := ms\<rparr>) = dm_ids d"
  "seq_within (d\<lparr>messages := ms\<rparr>) = seq_within d"
  by (simp_all add: acc_ids_def dm_ids_def seq_within_def fun_eq_iff)

definition insertable :: "message \<Rightarrow> database \<Rightarrow> bool" where
  "insertable m d \<longleftrightarrow> msg_conversation_id m \<in> dm_ids d
     \<and> (msg_conversation_id m, msg_sender_account_id m) \<in> mem_key ` set (conversation_members d)
     \<and> seq_within d (msg_conversation_id m) (msg_seq m) \<and> 1 \<le> msg_seq m \<and> msg_deleted_at m = None"

lemma keeps_insert_message [ok_intros]: "keeps (insertable m) (insert_message m)"
  unfolding keeps_def
proof (intro allI impI)
  fix d assume d: "db_inv d" and m: "insertable m d"
  let ?e = "snd (insert_message m d)"
  show "good_step d ?e"
  proof (cases "?e = d")
    case True
    with d show ?thesis by (simp add: good_step_refl)
  next
    case False
    then have e: "?e = d\<lparr>messages := messages d @ [m]\<rparr>"
      and new: "\<not> has_key msg_id (msg_id m) (messages d)" "\<not> has_key seq_key (seq_key m) (messages d)"
      and snd_ok: "msg_sender_account_id m \<in> acc_ids d"
      by (auto simp: insert_message_def has_key_iff acc_ids_def split: if_splits)
    have "msg_inv ?e"
      using d m new snd_ok unfolding e
      by (auto simp: db_inv_def msg_inv_def insertable_def has_key_iff)
    then show ?thesis
      using d unfolding e
      by (intro good_step_content) (auto simp: db_inv_def content_grows_def rows_grow_refl
          rows_grow_append intro: marker_inv_cong media_inv_frame misc_inv_cong)
  qed
qed

text \<open>An update of messages that respects \<open>msg_grows\<close> and keeps deleted messages empty.\<close>

lemma good_step_update_messages:
  assumes d: "db_inv d"
    and le: "\<And>m. m \<in> set (messages d) \<Longrightarrow> hit m \<Longrightarrow> msg_grows m (f m)"
    and del: "\<And>m. hit m \<Longrightarrow> msg_deleted_at (f m) \<noteq> None \<Longrightarrow> msg_ciphertext (f m) = []"
    and f: "\<And>m. msg_id (f m) = msg_id m" "\<And>m. seq_key (f m) = seq_key m"
      "\<And>m. msg_sender_account_id (f m) = msg_sender_account_id m"
  shows "good_step d (d\<lparr>messages := update_where hit f (messages d)\<rparr>)"
proof -
  have f2: "msg_conversation_id (f m) = msg_conversation_id m" "msg_seq (f m) = msg_seq m" for m
    using f(2) [of m] by (simp_all add: seq_key_def)
  have "msg_inv (d\<lparr>messages := update_where hit f (messages d)\<rparr>)"
    using d del by (auto simp: db_inv_def msg_inv_def f f2 elim!: in_update_whereE)
  moreover have "rows_grow msg_grows (messages d) (update_where hit f (messages d))"
    by (rule rows_grow_update) (simp_all add: le)
  ultimately show ?thesis
    using d
    by (intro good_step_content) (auto simp: db_inv_def content_grows_def rows_grow_refl
        intro: marker_inv_cong media_inv_frame misc_inv_cong)
qed

lemma keeps_edit_message [ok_intros]: "keeps P (edit_message now mid sender_account ct)"
  unfolding keeps_def edit_message_def Let_def snd_conv
  by (auto intro!: good_step_update_messages simp: msg_grows_def seq_key_def)

lemma keeps_soft_delete [ok_intros]: "keeps P (soft_delete now mid actor)"
  unfolding keeps_def soft_delete_def Let_def snd_conv
  by (auto intro!: good_step_update_messages simp: msg_grows_def seq_key_def)

section \<open>Statements on the remaining tables\<close>

lemma keeps_delete_media [ok_intros]: "keeps P (delete_media_of mid)"
  unfolding keeps_def delete_media_of_def snd_conv
  by (auto intro!: good_step_content intro: inv_congs content_grows_frame simp: db_inv_def media_inv_def distinct_map_filter)

lemma keeps_insert_blob [ok_intros]: "keeps P (insert_blob now i ct bs)"
  unfolding keeps_def insert_blob_def
  by (auto intro!: good_step_content good_step_refl
      intro: inv_congs
      simp: db_inv_def misc_inv_def acc_ids_def content_grows_def rows_grow_refl has_key_iff)

lemma keeps_hide [ok_intros]: "keeps P (hide_message_for mid a)"
  unfolding keeps_def hide_message_for_def
  by (auto intro!: good_step_content good_step_refl
      intro: inv_congs
      simp: db_inv_def misc_inv_def acc_ids_def content_grows_def rows_grow_refl has_key_iff hid_key_def)

lemma keeps_upsert_profile_row [ok_intros]:
  assumes "\<And>p. pr_account_id (f p) = pr_account_id p"
  shows "keeps P (upsert_profile_row a f)"
  unfolding keeps_def upsert_profile_row_def using assms
  by (auto intro!: good_step_content good_step_refl
      intro: inv_congs
      simp: db_inv_def misc_inv_def acc_ids_def content_grows_def rows_grow_refl has_key_iff
        profile_default_def)

lemma keeps_profile [ok_intros]:
  "keeps P (upsert_profile a dn b av)" "keeps P (set_last_seen a at)"
  by (auto simp: upsert_profile_def set_last_seen_def intro!: keeps_upsert_profile_row)


lemma max_seq_bounds:
  assumes "conv_inv d" "msg_inv d" and "cid \<in> conv_ids d"
  shows "0 \<le> max_seq cid d \<and> seq_within d cid (max_seq cid d)"
proof (cases "filter (\<lambda>m. msg_conversation_id m = cid) (messages d) = []")
  case True
  with assms show ?thesis
    by (auto simp: max_seq_def conv_ids_def seq_within_def conv_inv_def)
next
  case False
  let ?S = "set (map msg_seq (filter (\<lambda>m. msg_conversation_id m = cid) (messages d)))"
  from False have "Max ?S \<in> ?S" by (intro Max_in) (auto simp: filter_empty_conv)
  then obtain m where "m \<in> set (messages d)" "msg_conversation_id m = cid" "msg_seq m = Max ?S"
    by auto
  with assms(2) False show ?thesis by (fastforce simp: max_seq_def msg_inv_def)
qed

lemma marker_rows_set [simp]:
  "marker_rows tb' (set_marker_rows tb rows d) = (if tb' = tb then rows else marker_rows tb' d)"
  by (cases tb; cases tb') (simp_all add: marker_rows_def set_marker_rows_def)

lemma set_marker_rows_frame [simp]:
  "accounts (set_marker_rows tb rows d) = accounts d" "devices (set_marker_rows tb rows d) = devices d"
  "sessions (set_marker_rows tb rows d) = sessions d"
  "conversations (set_marker_rows tb rows d) = conversations d"
  "conversation_members (set_marker_rows tb rows d) = conversation_members d"
  "dm_conversations (set_marker_rows tb rows d) = dm_conversations d"
  "messages (set_marker_rows tb rows d) = messages d" "profiles (set_marker_rows tb rows d) = profiles d"
  "blobs (set_marker_rows tb rows d) = blobs d" "media_rows (set_marker_rows tb rows d) = media_rows d"
  "hidden_messages (set_marker_rows tb rows d) = hidden_messages d"
  by (cases tb; simp add: set_marker_rows_def)+

lemma good_step_markers:
  assumes d: "db_inv d" and "distinct (map mk_key rows)"
    and "\<And>k. k \<in> set rows \<Longrightarrow> mk_account_id k \<in> acc_ids d \<and> 0 \<le> mk_up_to_seq k
           \<and> seq_within d (mk_conversation_id k) (mk_up_to_seq k)"
    and "rows_grow mk_le (marker_rows tb d) rows"
  shows "good_step d (set_marker_rows tb rows d)"
proof (rule good_step_content [OF d])
  show "marker_inv (set_marker_rows tb rows d)"
    using assms by (auto simp: db_inv_def marker_inv_def acc_ids_def seq_within_def)
  show "content_grows d (set_marker_rows tb rows d)"
    using assms(4) by (cases tb) (auto simp: content_grows_def set_marker_rows_def marker_rows_def
        rows_grow_refl)
qed (use d in \<open>auto simp: db_inv_def intro: inv_congs\<close>)

lemma keeps_mark [ok_intros]: "keeps P (mark tb cid a)"
  unfolding keeps_def
proof (intro allI impI)
  fix d assume d: "db_inv d"
  then have rows: "distinct (map mk_key (marker_rows tb d))"
      "\<And>k. k \<in> set (marker_rows tb d) \<Longrightarrow> mk_account_id k \<in> acc_ids d \<and> 0 \<le> mk_up_to_seq k
           \<and> seq_within d (mk_conversation_id k) (mk_up_to_seq k)"
    by (auto simp: db_inv_def marker_inv_def)
  consider (upd) "has_key mk_key (cid, a) (marker_rows tb d)"
    | (new) "\<not> has_key mk_key (cid, a) (marker_rows tb d)" "cid \<in> conv_ids d" "a \<in> acc_ids d"
    | (fk) "\<not> has_key mk_key (cid, a) (marker_rows tb d)" "\<not> (cid \<in> conv_ids d \<and> a \<in> acc_ids d)"
    by blast
  then show "good_step d (snd (mark tb cid a d))"
  proof cases
    case upd
    let ?f = "\<lambda>k. k\<lparr>mk_up_to_seq := max (mk_up_to_seq k) (max_seq cid d)\<rparr>"
    from upd obtain k0 where "k0 \<in> set (marker_rows tb d)" "mk_conversation_id k0 = cid"
      by (auto simp: has_key_iff mk_key_def)
    with rows(2) [of k0] have "cid \<in> conv_ids d"
      by (auto simp: seq_within_def conv_ids_def intro: rev_image_eqI)
    with d have mx: "0 \<le> max_seq cid d" "seq_within d cid (max_seq cid d)"
      using max_seq_bounds by (auto simp: db_inv_def)
    have "mk_account_id k \<in> acc_ids d \<and> 0 \<le> mk_up_to_seq k
           \<and> seq_within d (mk_conversation_id k) (mk_up_to_seq k)"
      if "k \<in> set (update_where (\<lambda>k. mk_key k = (cid, a)) ?f (marker_rows tb d))" for k
      using that
    proof (cases rule: in_update_whereE)
      case (changed y)
      with rows(2) [of y] mx show ?thesis by (auto simp: mk_key_def max_def)
    qed (use rows in auto)
    moreover have "rows_grow mk_le (marker_rows tb d)
        (update_where (\<lambda>k. mk_key k = (cid, a)) ?f (marker_rows tb d))"
      by (rule rows_grow_update) (auto simp: mk_le_def mk_key_def)
    ultimately show ?thesis
      using upd rows(1) by (auto simp: mark_def mk_key_def intro!: good_step_markers [OF d])
  next
    case new
    with d have "0 \<le> max_seq cid d" "seq_within d cid (max_seq cid d)"
      using max_seq_bounds by (auto simp: db_inv_def)
    with new rows show ?thesis
      by (auto simp: mark_def mk_key_def has_key_iff conv_ids_def acc_ids_def
          intro!: good_step_markers [OF d] rows_grow_append)
  next
    case fk
    then have "snd (mark tb cid a d) = d" by (auto simp: mark_def has_key_iff conv_ids_def acc_ids_def)
    with d show ?thesis by (simp add: good_step_refl)
  qed
qed

lemma keeps_receipts [ok_intros]: "keeps P (mark_read cid a)" "keeps P (mark_delivered cid a)"
  by (simp_all add: mark_read_def mark_delivered_def keeps_mark)

definition media_target :: "media \<Rightarrow> database \<Rightarrow> bool" where
  "media_target e d \<longleftrightarrow> (\<exists>m \<in> set (messages d). msg_id m = md_message_id e
     \<and> msg_conversation_id m = md_conversation_id e \<and> msg_seq m = md_seq e
     \<and> msg_sender_account_id m = md_sender_account_id e)"

lemma keeps_insert_media [ok_intros]: "keeps (media_target e) (insert_media e)"
  unfolding keeps_def insert_media_def
  by (auto intro!: good_step_content good_step_refl intro: inv_congs
      simp: db_inv_def media_inv_def media_target_def content_grows_def rows_grow_refl has_key_iff)


section \<open>From statements to programs\<close>

lemma claim_inv_same_convs:
  "claim_inv s \<Longrightarrow> same_convs (db s) (db t) \<Longrightarrow> dm_claim t = dm_claim s \<Longrightarrow> claim_inv t"
  by (simp add: claim_inv_def same_convs_def)

lemma good_step_sys:
  assumes "sys_inv s" and "good_step (db s) d"
  shows "sys_inv ((advance s)\<lparr>db := d\<rparr>) \<and> sys_grows s ((advance s)\<lparr>db := d\<rparr>)"
  using assms claim_inv_same_convs [of s "(advance s)\<lparr>db := d\<rparr>"]
  by (auto simp: sys_inv_def sys_grows_def good_step_def)

lemma advance_sys: "sys_inv s \<Longrightarrow> sys_inv (advance s) \<and> sys_grows s (advance s)"
  by (auto simp: sys_inv_def sys_grows_def claim_inv_def)

text \<open>A property of the state that growth keeps.\<close>

definition stable :: "(sys \<Rightarrow> bool) \<Rightarrow> bool" where
  "stable P \<longleftrightarrow> (\<forall>s t. P s \<longrightarrow> sys_grows s t \<longrightarrow> P t)"

lemma stable_const [simp]: "stable (\<lambda>_. b)"
  by (simp add: stable_def)

lemma stable_conj [intro]: "stable P \<Longrightarrow> stable Q \<Longrightarrow> stable (\<lambda>s. P s \<and> Q s)"
  by (auto simp: stable_def)

text \<open>
  \<open>spec P p Q\<close>: started in a state with \<open>P\<close>, and whatever the other tasks do meanwhile, every step
  of \<open>p\<close> keeps the invariant and lets the state grow, and when \<open>p\<close> succeeds, \<open>Q\<close> holds of its
  result. \<open>safe p\<close> is the same without pre- and postcondition.
\<close>

definition post :: "('a \<Rightarrow> sys \<Rightarrow> bool) \<Rightarrow> 'e + 'a \<Rightarrow> sys \<Rightarrow> bool" where
  "post Q r s = (case r of Inl _ \<Rightarrow> True | Inr x \<Rightarrow> Q x s)"

definition spec :: "(sys \<Rightarrow> bool) \<Rightarrow> (sys, 'e + 'a) prog \<Rightarrow> ('a \<Rightarrow> sys \<Rightarrow> bool) \<Rightarrow> bool" where
  "spec P p Q \<longleftrightarrow> (\<forall>s. P s \<longrightarrow> ok sys_grows sys_inv (post Q) p s)"

definition safe :: "(sys, 'a) prog \<Rightarrow> bool" where
  "safe p \<longleftrightarrow> (\<forall>s. ok sys_grows sys_inv (\<lambda>_ _. True) p s)"

lemma post_Inl [simp]: "post Q (Inl e) s" and post_Inr [simp]: "post Q (Inr x) s = Q x s"
  by (simp_all add: post_def)

lemma spec_atomic:
  fixes f :: "sys \<Rightarrow> ('e + 'a) \<times> sys"
  assumes "stable P" and "\<And>x. stable (Q x)"
    and step: "\<And>s. sys_inv s \<Longrightarrow> P s \<Longrightarrow> sys_inv (snd (f s)) \<and> sys_grows s (snd (f s))"
    and res: "\<And>s x t. sys_inv s \<Longrightarrow> P s \<Longrightarrow> f s = (Inr x, t) \<Longrightarrow> Q x t"
  shows "spec P (atomic f) Q"
  unfolding spec_def
proof (intro allI impI srv.ok_atomic)
  fix s t :: sys
  assume "P s" and R: "sys_grows s t" and I: "sys_inv t"
  then have P: "P t" using assms(1) by (auto simp: stable_def)
  have "post Q (fst (f t)) u" if "sys_grows (snd (f t)) u" for u
  proof (cases "fst (f t)")
    case (Inl e)
    then show ?thesis by simp
  next
    case (Inr x)
    then have "f t = (Inr x, snd (f t))" by (simp add: prod_eq_iff)
    then have "Q x (snd (f t))" by (rule res [OF I P])
    with Inr that assms(2) [of x] show ?thesis by (auto simp: stable_def)
  qed
  with step [OF I P] show "sys_inv (snd (f t)) \<and> sys_grows t (snd (f t))
      \<and> (\<forall>u. sys_grows (snd (f t)) u \<longrightarrow> sys_inv u \<longrightarrow> post Q (fst (f t)) u)" by blast
qed

lemma pg_step:
  assumes I: "sys_inv s"
    and "sys_inv ((advance s)\<lparr>db := snd (q (tick s) (db s))\<rparr>)"
    and "sys_grows s ((advance s)\<lparr>db := snd (q (tick s) (db s))\<rparr>)"
  shows "sys_inv (snd (run (pg w q) s)) \<and> sys_grows s (snd (run (pg w q) s))"
  using assms advance_sys [OF I] by (auto simp: run_pg split: fault.splits prod.splits)

lemma pg_result: "run (pg w q) s = (Inr x, t) \<Longrightarrow>
    t = (advance s)\<lparr>db := snd (q (tick s) (db s))\<rparr> \<and> q (tick s) (db s) = (Inr x, db t)"
  by (auto simp: run_pg split: fault.splits prod.splits)

lemma pg_atomic: "pg w q = atomic (run (pg w q))"
  unfolding pg_def by (simp add: run_atomic [abs_def])

lemma spec_pg_gen:
  fixes q :: "nat \<Rightarrow> 'a stmt" and P :: "sys \<Rightarrow> bool"
  assumes P: "stable P" and Q: "\<And>x. stable (Q x)"
    and keep: "\<And>n s. sys_inv s \<Longrightarrow> P s \<Longrightarrow> sys_inv ((advance s)\<lparr>db := snd (q n (db s))\<rparr>)
           \<and> sys_grows s ((advance s)\<lparr>db := snd (q n (db s))\<rparr>)"
    and res: "\<And>n s x e. sys_inv s \<Longrightarrow> P s \<Longrightarrow> q n (db s) = (Inr x, e) \<Longrightarrow> Q x ((advance s)\<lparr>db := e\<rparr>)"
  shows "spec P (pg w q) Q"
proof -
  have "spec P (atomic (run (pg w q))) Q"
  proof (rule spec_atomic [OF P Q])
    fix s assume I: "sys_inv s" and Ps: "P s"
    show "sys_inv (snd (run (pg w q) s)) \<and> sys_grows s (snd (run (pg w q) s))"
      by (rule pg_step [OF I]) (use keep [OF I Ps] in blast)+
  next
    fix s x t assume I: "sys_inv s" and Ps: "P s" and r: "run (pg w q) s = (Inr x, t)"
    note t = pg_result [OF r, THEN conjunct1] and e = pg_result [OF r, THEN conjunct2]
    have "Q x ((advance s)\<lparr>db := db t\<rparr>)" by (rule res [OF I Ps e])
    moreover have "(advance s)\<lparr>db := db t\<rparr> = t" using t by (subst (2) t) (simp only: e snd_conv)
    ultimately show "Q x t" by simp
  qed
  then show ?thesis by (simp only: pg_atomic [symmetric])
qed

lemma spec_pg:
  assumes "\<And>n. keeps K (q n)" and "stable P" and "\<And>s. P s \<Longrightarrow> K (db s)" and "\<And>x. stable (Q x)"
    and "\<And>n s x e. sys_inv s \<Longrightarrow> P s \<Longrightarrow> q n (db s) = (Inr x, e) \<Longrightarrow> Q x ((advance s)\<lparr>db := e\<rparr>)"
  shows "spec P (pg w q) Q"
proof (rule spec_pg_gen [OF assms(2,4)])
  fix n s assume I: "sys_inv s" and P: "P s"
  have "good_step (db s) (snd (q n (db s)))"
    using assms(1) [of n] assms(3) [OF P] I by (simp add: keeps_def sys_inv_def)
  then show "sys_inv ((advance s)\<lparr>db := snd (q n (db s))\<rparr>)
      \<and> sys_grows s ((advance s)\<lparr>db := snd (q n (db s))\<rparr>)"
    by (rule good_step_sys [OF I])
qed (rule assms(5))

lemma spec_bindE:
  assumes "spec P p Q" and "\<And>x. spec (Q x) (k x) Q'"
  shows "spec P (bindE p k) Q'"
  unfolding spec_def
proof (intro allI impI)
  fix s :: sys assume "P s"
  with assms(1) have "ok sys_grows sys_inv (post Q) p s" by (simp add: spec_def)
  then have "ok sys_grows sys_inv (\<lambda>r t. case r of Inl e \<Rightarrow> post Q' (Inl e) t | Inr x \<Rightarrow> Q x t) p s"
    by (rule srv.ok_weaken) (auto simp: post_def split: sum.splits)
  then show "ok sys_grows sys_inv (post Q') (bindE p k) s"
    by (rule srv.ok_bindE) (use assms(2) in \<open>auto simp: spec_def\<close>)
qed

text \<open>A program that needs no precondition does not disturb what is known.\<close>

lemma spec_bind_safe:
  assumes "safe p" and "stable P" and "\<And>x. spec P (k x) Q"
  shows "spec P (bind p k) Q"
  unfolding spec_def
proof (intro allI impI)
  fix s :: sys assume P: "P s"
  have "ok sys_grows sys_inv (\<lambda>_ _. True) p s" using assms(1) by (simp add: safe_def)
  then show "ok sys_grows sys_inv (post Q) (bind p k) s"
    by (rule srv.ok_bind) (use assms(2,3) P in \<open>auto simp: spec_def stable_def\<close>)
qed

lemma spec_weaken:
  assumes "spec P p Q" and "\<And>s. P' s \<Longrightarrow> P s" and "\<And>x s. Q x s \<Longrightarrow> Q' x s"
  shows "spec P' p Q'"
  unfolding spec_def
proof (intro allI impI)
  fix s :: sys assume "P' s"
  then have "ok sys_grows sys_inv (post Q) p s" using assms(1,2) by (simp add: spec_def)
  then show "ok sys_grows sys_inv (post Q') p s"
    by (rule srv.ok_weaken) (auto simp: post_def assms(3) split: sum.splits)
qed

lemma spec_frame:
  assumes "spec P p Q" and "stable F" and "\<And>s. P s \<Longrightarrow> F s"
  shows "spec P p (\<lambda>x s. Q x s \<and> F s)"
  unfolding spec_def
proof (intro allI impI)
  fix s :: sys assume "P s"
  then have "ok sys_grows sys_inv (\<lambda>r t. post Q r t \<and> F t) p s"
    using assms by (intro srv.ok_frame) (auto simp: spec_def stable_def)
  then show "ok sys_grows sys_inv (post (\<lambda>x s. Q x s \<and> F s)) p s"
    by (rule srv.ok_weaken) (auto simp: post_def split: sum.splits)
qed

lemma spec_Ret: "stable P \<Longrightarrow> (\<And>x s. r = Inr x \<Longrightarrow> P s \<Longrightarrow> Q x s) \<Longrightarrow> spec P (Ret r) Q"
  by (auto simp: spec_def ok_Ret post_def stable_def split: sum.splits)

lemma post_True: "post (\<lambda>_ _. True) = (\<lambda>r s. True)"
  by (auto simp: post_def fun_eq_iff split: sum.splits)

lemma safe_iff_spec: "safe p \<longleftrightarrow> spec (\<lambda>_. True) p (\<lambda>_ _. True)"
  by (simp add: spec_def safe_def post_True)

end
