(* ===== verification/Db_Programs.thy ===== *)
theory Db_Programs
  imports Db_Steps App_Error
begin

text \<open>
  What the functions of \<open>db.rs\<close> that run several statements promise, under any interference by
  other tasks: \<open>dm_conversation\<close> returns a conversation registered for exactly its pair,
  \<open>store_message\<close> stores the message it returns. The rules \<open>safe_*\<close> and \<open>spec_*\<close> compose these
  promises along the handlers.
\<close>

section \<open>Steps outside the database\<close>

lemma safe_atomic_advance:
  assumes "\<And>s. snd (f s) = advance s \<or> snd (f s) = s"
  shows "safe (atomic f)"
  unfolding safe_def
proof (intro allI srv.ok_atomic)
  fix s t :: sys assume "sys_inv t"
  then show "sys_inv (snd (f t)) \<and> sys_grows t (snd (f t)) \<and> (\<forall>u. sys_grows (snd (f t)) u \<longrightarrow> sys_inv u \<longrightarrow> True)"
    using assms [of t] advance_sys [of t] srv.refl [of t] by auto
qed

lemma safe_new_uuid [ok_intros]: "safe (new_uuid w)" and safe_now_utc [ok_intros]: "safe (now_utc w)"
  and safe_fill_bytes [ok_intros]: "safe (fill_bytes w)" and safe_look [ok_intros]: "safe (look f)"
  unfolding new_uuid_def now_utc_def fill_bytes_def look_def by (rule safe_atomic_advance, simp)+

section \<open>Creating a direct conversation\<close>

lemma good_step_convs:
  assumes d: "db_inv d" and c: "conv_inv e" and g: "conv_grows d e"
    and same: "accounts e = accounts d" "devices e = devices d" "sessions e = sessions d"
      "messages e = messages d" "read_markers e = read_markers d"
      "delivered_markers e = delivered_markers d" "profiles e = profiles d" "blobs e = blobs d"
      "media_rows e = media_rows d" "hidden_messages e = hidden_messages d"
  shows "db_inv e \<and> db_grows d e"
  using assms auth_inv_frame [of d e] msg_inv_frame [of d e] marker_inv_frame [of d e]
    media_inv_frame [of d e] misc_inv_frame [of d e] auth_grows_frame [of e d]
    content_grows_frame [of e d]
  by (simp add: db_inv_def db_grows_def rows_grow_refl)

lemma insert_conversation_grows:
  assumes "db_inv d"
  shows "db_inv (snd (insert_conversation now cid d)) \<and> db_grows d (snd (insert_conversation now cid d))"
proof (rule good_step_convs [OF assms])
  show "conv_inv (snd (insert_conversation now cid d))"
    using assms by (auto simp: insert_conversation_def db_inv_def conv_inv_def conv_ids_def acc_ids_def
        has_key_iff i64_max_def)
  show "conv_grows d (snd (insert_conversation now cid d))"
    by (auto simp: insert_conversation_def conv_grows_def intro!: rows_grow_refl rows_grow_append)
qed (simp_all add: insert_conversation_def)

lemma conv_ids_insert_conversation:
  "conv_ids (snd (insert_conversation now cid d)) = insert cid (conv_ids d)"
  by (auto simp: insert_conversation_def conv_ids_def has_key_iff)

lemma claim_on_new:
  assumes "sys_inv s" and "cid \<notin> conv_ids (db s)" and "db t = snd (insert_conversation now cid (db s))"
    and "dm_claim t = dm_claim s"
  shows "claim_inv (t\<lparr>dm_claim := (dm_claim t)(cid \<mapsto> (lo, hi))\<rparr>)
       \<and> dm_claim s \<subseteq>\<^sub>m (dm_claim t)(cid \<mapsto> (lo, hi))"
proof -
  have new: "dm_claim s cid = None" using assms(1,2) by (auto simp: sys_inv_def claim_inv_def)
  have tabs: "conversation_members (db t) = conversation_members (db s)"
    "dm_conversations (db t) = dm_conversations (db s)"
    by (auto simp: assms(3) insert_conversation_def)
  have "dom (dm_claim s) = conv_ids (db s)" using assms(1) by (simp add: sys_inv_def claim_inv_def)
  then have dom: "dom ((dm_claim t)(cid \<mapsto> (lo, hi))) = conv_ids (db t)"
    by (simp add: assms(3,4) conv_ids_insert_conversation)
  show ?thesis
    unfolding claim_inv_def using assms(1) dom new
    by (auto simp: sys_inv_def claim_inv_def tabs assms(4) map_le_def)
qed

lemma create_conversation_step:
  assumes s: "sys_inv s" and t_def: "t = (advance s)\<lparr>db := snd (insert_conversation now cid (db s))\<rparr>"
  shows "sys_inv (claim_on cid lo hi (db s) t) \<and> sys_grows s (claim_on cid lo hi (db s) t)
    \<and> (cid \<notin> conv_ids (db s) \<longrightarrow> dm_claim (claim_on cid lo hi (db s) t) cid = Some (lo, hi))"
proof (cases "cid \<in> conv_ids (db s)")
  case True
  then have "t = advance s" by (simp add: t_def insert_conversation_def has_key_iff conv_ids_def advance_def)
  with True s show ?thesis
    using advance_sys [OF s] by (simp add: claim_on_def has_key_iff conv_ids_def)
next
  case False
  have "claim_on cid lo hi (db s) t = t\<lparr>dm_claim := (dm_claim t)(cid \<mapsto> (lo, hi))\<rparr>"
    using False conv_ids_insert_conversation [of now cid "db s"]
    by (auto simp: claim_on_def has_key_iff conv_ids_def t_def)
  moreover have "claim_inv (t\<lparr>dm_claim := (dm_claim t)(cid \<mapsto> (lo, hi))\<rparr>)
       \<and> dm_claim s \<subseteq>\<^sub>m (dm_claim t)(cid \<mapsto> (lo, hi))"
    by (rule claim_on_new [OF s False]) (simp_all add: t_def)
  moreover have "db_inv (db t) \<and> db_grows (db s) (db t)"
    using insert_conversation_grows [of "db s" now cid] s by (simp add: t_def sys_inv_def)
  ultimately show ?thesis by (simp add: sys_inv_def sys_grows_def t_def)
qed

text \<open>What a task knows about a conversation: the pair it was created for.\<close>

definition claimed :: "uuid \<Rightarrow> uuid \<times> uuid \<Rightarrow> sys \<Rightarrow> bool" where
  "claimed cid p s \<longleftrightarrow> dm_claim s cid = Some p"

definition joined :: "uuid \<Rightarrow> uuid list \<Rightarrow> sys \<Rightarrow> bool" where
  "joined cid as s \<longleftrightarrow> (\<forall>a \<in> set as. (cid, a) \<in> mem_key ` set (conversation_members (db s)))"

definition dm_row :: "uuid \<times> uuid \<Rightarrow> uuid \<Rightarrow> sys \<Rightarrow> bool" where
  "dm_row p cid s \<longleftrightarrow> \<lparr>dm_account_lo = fst p, dm_account_hi = snd p, dm_conversation_id = cid\<rparr>
     \<in> set (dm_conversations (db s)) \<and> joined cid [fst p, snd p] s"

lemma stable_claimed [intro, simp]: "stable (claimed cid p)"
  by (auto simp: stable_def claimed_def sys_grows_def map_le_def dom_def)

lemma stable_joined [intro, simp]: "stable (joined cid as)"
  by (fastforce simp: stable_def joined_def sys_grows_def db_grows_def conv_grows_def)

lemma stable_dm_row [intro, simp]: "stable (dm_row p cid)"
  unfolding dm_row_def
  by (rule stable_conj) (auto simp: stable_def sys_grows_def db_grows_def conv_grows_def joined_def)

lemma spec_create_conversation:
  "spec (\<lambda>_. True) (create_conversation w cid lo hi) (\<lambda>_. claimed cid (lo, hi))"
  unfolding create_conversation_def
proof (rule spec_atomic)
  fix s :: sys assume s: "sys_inv s"
  show "sys_inv (snd (map_prod id (claim_on cid lo hi (db s))
          (run (pg w (\<lambda>n. insert_conversation (pg_now w n) cid)) s)))
      \<and> sys_grows s (snd (map_prod id (claim_on cid lo hi (db s))
          (run (pg w (\<lambda>n. insert_conversation (pg_now w n) cid)) s)))"
    using create_conversation_step [where now = "pg_now w (tick s)" and cid = cid and lo = lo and hi = hi, OF s refl] advance_sys [OF s]
    by (auto simp: run_pg claim_on_def [of _ _ _ _ "advance s"] split: fault.splits prod.splits)
next
  fix s :: sys and x t
  assume s: "sys_inv s" and r: "map_prod id (claim_on cid lo hi (db s))
          (run (pg w (\<lambda>n. insert_conversation (pg_now w n) cid)) s) = (Inr x, t)"
  from r obtain u where u: "run (pg w (\<lambda>n. insert_conversation (pg_now w n) cid)) s = (Inr x, u)"
    and t: "t = claim_on cid lo hi (db s) u"
    by (cases "run (pg w (\<lambda>n. insert_conversation (pg_now w n) cid)) s") auto
  from pg_result [OF u] have q: "insert_conversation (pg_now w (tick s)) cid (db s) = (Inr x, db u)" ..
  then have "cid \<notin> conv_ids (db s)" by (auto simp: insert_conversation_def has_key_iff conv_ids_def split: if_splits)
  then show "claimed cid (lo, hi) t"
    using create_conversation_step [where now = "pg_now w (tick s)" and cid = cid and lo = lo and hi = hi, OF s refl] 
    unfolding t pg_result [OF u, THEN conjunct1] claimed_def by blast
qed simp_all


definition pair_members :: "uuid \<times> uuid \<Rightarrow> uuid list" where
  "pair_members p = (if fst p = snd p then [fst p] else [fst p, snd p])"

lemma set_pair_members [simp]: "set (pair_members p) = {fst p, snd p}"
  and distinct_pair_members [simp]: "distinct (pair_members p)"
  by (auto simp: pair_members_def)

lemma insert_members_grows:
  assumes d: "db_inv d" and "distinct as"
  shows "db_inv (snd (insert_members cid as d)) \<and> db_grows d (snd (insert_members cid as d))"
proof (rule good_step_convs [OF d])
  have "distinct (map mem_key (conversation_members d @
      filter (\<lambda>m. \<not> has_key mem_key (mem_key m) (conversation_members d))
        (map (\<lambda>a. \<lparr>mem_conversation_id = cid, mem_account_id = a\<rparr>) as)))"
    using assms by (auto simp: db_inv_def conv_inv_def mem_key_def distinct_map has_key_iff inj_on_def
        intro!: distinct_filter)
  then show "conv_inv (snd (insert_members cid as d))"
    using d by (auto simp: insert_members_def db_inv_def conv_inv_def conv_ids_def acc_ids_def has_key_iff)
  show "conv_grows d (snd (insert_members cid as d))"
    by (auto simp: insert_members_def conv_grows_def rows_grow_refl)
qed (simp_all add: insert_members_def)

lemma insert_members_all:
  assumes "a \<in> set as" and "insert_members cid as d = (Inr x, e)"
  shows "(cid, a) \<in> mem_key ` set (conversation_members e)"
proof (cases "has_key mem_key (cid, a) (conversation_members d)")
  case True
  with assms(2) show ?thesis by (auto simp: insert_members_def has_key_iff split: if_splits)
next
  case False
  with assms show ?thesis
    by (intro image_eqI [where x = "\<lparr>mem_conversation_id = cid, mem_account_id = a\<rparr>"])
       (auto simp: insert_members_def mem_key_def split: if_splits)
qed

lemma spec_insert_members:
  assumes "distinct as" and "set as \<subseteq> {lo, hi}"
  shows "spec (claimed cid (lo, hi)) (pg w (\<lambda>_. insert_members cid as))
           (\<lambda>_ s. claimed cid (lo, hi) s \<and> joined cid as s)"
proof (rule spec_pg_gen)
  fix n and s :: sys assume s: "sys_inv s" and P: "claimed cid (lo, hi) s"
  let ?t = "(advance s)\<lparr>db := snd (insert_members cid as (db s))\<rparr>"
  have "claim_inv ?t"
    using s P assms(2) by (auto simp: sys_inv_def claim_inv_def claimed_def insert_members_def conv_ids_def)
  then show "sys_inv ?t \<and> sys_grows s ?t"
    using s insert_members_grows [OF _ assms(1), of "db s" cid] by (simp add: sys_inv_def sys_grows_def)
next
  fix n x e and s :: sys
  assume "sys_inv s" and P: "claimed cid (lo, hi) s" and q: "insert_members cid as (db s) = (Inr x, e)"
  have "(cid, a) \<in> mem_key ` set (conversation_members e)" if "a \<in> set as" for a
    using q that insert_members_all [of a as cid "db s"] by simp
  with P show "claimed cid (lo, hi) ((advance s)\<lparr>db := e\<rparr>) \<and> joined cid as ((advance s)\<lparr>db := e\<rparr>)"
    by (simp add: claimed_def joined_def)
qed auto

lemma insert_dm_grows:
  assumes d: "db_inv d" and "lo \<le> hi" and "(cid, lo) \<in> mem_key ` set (conversation_members d)"
    and "(cid, hi) \<in> mem_key ` set (conversation_members d)"
  shows "db_inv (snd (insert_dm lo hi cid d)) \<and> db_grows d (snd (insert_dm lo hi cid d))"
proof (rule good_step_convs [OF d])
  show "conv_inv (snd (insert_dm lo hi cid d))"
    using assms by (auto simp: insert_dm_def db_inv_def conv_inv_def conv_ids_def acc_ids_def has_key_iff dm_key_def)
  show "conv_grows d (snd (insert_dm lo hi cid d))"
    by (auto simp: insert_dm_def conv_grows_def rows_grow_refl)
qed (simp_all add: insert_dm_def)

lemma spec_insert_dm:
  assumes "lo \<le> hi"
  shows "spec (\<lambda>s. claimed cid (lo, hi) s \<and> joined cid (pair_members (lo, hi)) s)
           (pg w (\<lambda>_. insert_dm lo hi cid)) (\<lambda>_ _. True)"
proof (rule spec_pg_gen)
  fix n and s :: sys
  assume s: "sys_inv s" and P: "claimed cid (lo, hi) s \<and> joined cid (pair_members (lo, hi)) s"
  let ?t = "(advance s)\<lparr>db := snd (insert_dm lo hi cid (db s))\<rparr>"
  have "claim_inv ?t"
    using s P by (auto simp: sys_inv_def claim_inv_def claimed_def insert_dm_def conv_ids_def dm_key_def)
  then show "sys_inv ?t \<and> sys_grows s ?t"
    using s P assms insert_dm_grows [of "db s" lo hi cid]
    by (simp add: sys_inv_def sys_grows_def joined_def)
qed auto

lemma stable_case_option: "(\<And>x. stable (Q x)) \<Longrightarrow>
    stable (\<lambda>s. case r of None \<Rightarrow> True | Some x \<Rightarrow> Q x s)"
  by (cases r) simp_all

lemma find_dm_row:
  "sys_inv s \<Longrightarrow> List.find (\<lambda>p. dm_key p = (lo, hi)) (dm_conversations (db s)) = Some p \<Longrightarrow>
   dm_row (lo, hi) (dm_conversation_id p) s"
  by (cases p) (auto simp: dm_row_def dm_key_def joined_def sys_inv_def db_inv_def conv_inv_def
      dest!: find_SomeD)

text \<open>\<open>dm_conversation\<close> returns a conversation that is registered for exactly this pair.\<close>

lemma spec_dm_conversation [ok_intros]:
  "spec (\<lambda>_. True) (dm_conversation w a b) (dm_row (pair_order a b))"
proof -
  obtain lo hi where p: "pair_order a b = (lo, hi)" and le: "lo \<le> hi"
    using linear [of a b] by (cases "a \<le> b") (auto simp: pair_order_def)
  have one: "spec (\<lambda>_. True) (pg w (\<lambda>_. select_dm_one lo hi)) (dm_row (lo, hi))"
  proof (rule spec_pg [where K = "\<lambda>_. True"])
    fix n x e and s :: sys assume "sys_inv s" and "select_dm_one lo hi (db s) = (Inr x, e)"
    then show "dm_row (lo, hi) x ((advance s)\<lparr>db := e\<rparr>)"
      using find_dm_row [of s lo hi]
      by (auto simp: select_dm_one_def dm_row_def joined_def split: option.splits)
  qed (auto intro: keeps_reads)
  have create: "spec (\<lambda>_. True) (bindE (create_conversation w cid lo hi) (\<lambda>_.
      bindE (pg w (\<lambda>_. insert_members cid (if lo = hi then [lo] else [lo, hi]))) (\<lambda>_.
      bindE (pg w (\<lambda>_. insert_dm lo hi cid)) (\<lambda>_. pg w (\<lambda>_. select_dm_one lo hi))))) (dm_row (lo, hi))" for cid
    using spec_insert_members [of "pair_members (lo, hi)" lo hi cid w] one
    by (intro spec_bindE [OF spec_create_conversation] spec_bindE [where Q = "\<lambda>_ s. claimed cid (lo, hi) s \<and> joined cid (pair_members (lo, hi)) s"] spec_bindE [OF spec_insert_dm [OF le]])
       (auto simp: pair_members_def)
  show ?thesis
    unfolding dm_conversation_def p prod.case
  proof (rule spec_bindE [where Q = "\<lambda>r s. case r of None \<Rightarrow> True | Some cid \<Rightarrow> dm_row (lo, hi) cid s"])
    show "spec (\<lambda>_. True) (pg w (\<lambda>_. select_dm lo hi))
        (\<lambda>r s. case r of None \<Rightarrow> True | Some cid \<Rightarrow> dm_row (lo, hi) cid s)"
    proof (rule spec_pg [where K = "\<lambda>_. True"])
      fix n x e and s :: sys assume "sys_inv s" and "select_dm lo hi (db s) = (Inr x, e)"
      then show "case x of None \<Rightarrow> True | Some cid \<Rightarrow> dm_row (lo, hi) cid ((advance s)\<lparr>db := e\<rparr>)"
        using find_dm_row [of s lo hi]
        by (auto simp: select_dm_def dm_row_def joined_def split: option.splits)
    qed (auto intro: keeps_reads simp: stable_case_option)
  next
    fix found
    show "spec (\<lambda>s. case found of None \<Rightarrow> True | Some cid \<Rightarrow> dm_row (lo, hi) cid s)
        (case found of
            Some cid \<Rightarrow> Ret (Inr cid)
          | None \<Rightarrow> bind (new_uuid w) (\<lambda>cid.
              bindE (create_conversation w cid lo hi) (\<lambda>_.
              bindE (pg w (\<lambda>_. insert_members cid (if lo = hi then [lo] else [lo, hi]))) (\<lambda>_.
              bindE (pg w (\<lambda>_. insert_dm lo hi cid)) (\<lambda>_.
              pg w (\<lambda>_. select_dm_one lo hi)))))) (dm_row (lo, hi))"
      using create by (cases found) (auto intro!: spec_bind_safe safe_new_uuid spec_Ret)
  qed
qed


section \<open>Storing a message\<close>

definition in_dm :: "uuid \<Rightarrow> uuid \<Rightarrow> sys \<Rightarrow> bool" where
  "in_dm cid a s \<longleftrightarrow> cid \<in> dm_ids (db s) \<and> joined cid [a] s"

definition reserved :: "uuid \<Rightarrow> uuid \<Rightarrow> i64 \<Rightarrow> sys \<Rightarrow> bool" where
  "reserved cid a n s \<longleftrightarrow> in_dm cid a s \<and> seq_within (db s) cid n \<and> 1 \<le> n"

text \<open>The stored message is in the table, perhaps edited or deleted since.\<close>

definition stored :: "message \<Rightarrow> sys \<Rightarrow> bool" where
  "stored m s \<longleftrightarrow> (\<exists>n \<in> set (messages (db s)). msg_grows m n)"

lemma stable_in_dm [intro, simp]: "stable (in_dm cid a)"
  unfolding in_dm_def
  by (rule stable_conj [OF _ stable_joined])
     (use dm_ids_mono in \<open>auto simp: stable_def sys_grows_def db_grows_def\<close>)

lemma stable_reserved [intro, simp]: "stable (reserved cid a n)"
  unfolding reserved_def
proof (intro stable_conj stable_in_dm)
  show "stable (\<lambda>s. seq_within (db s) cid n)"
    by (auto simp: stable_def sys_grows_def db_grows_def intro: seq_within_mono)
qed (simp add: stable_def)

lemma stable_stored [intro, simp]: "stable (stored m)"
  unfolding stable_def
proof (intro allI impI)
  fix s t assume "stored m s" and g: "sys_grows s t"
  then obtain n where n: "n \<in> set (messages (db s))" "msg_grows m n" by (auto simp: stored_def)
  from g have "rows_grow msg_grows (messages (db s)) (messages (db t))"
    by (simp add: sys_grows_def db_grows_def content_grows_def)
  from rows_growE [OF this n(1)] obtain k where "k \<in> set (messages (db t))" "msg_grows n k" by blast
  with msg_grows_trans [OF n(2)] show "stored m t" unfolding stored_def by blast
qed

lemma dm_row_in_dm: "dm_row p cid s \<Longrightarrow> a \<in> {fst p, snd p} \<Longrightarrow> in_dm cid a s"
  by (force simp: dm_row_def in_dm_def dm_ids_def joined_def)

lemma pair_order_set: "{fst (pair_order a b), snd (pair_order a b)} = {a, b}"
  by (auto simp: pair_order_def)

lemma spec_bump: "spec (in_dm cid a) (pg w (\<lambda>_. bump_last_seq cid)) (reserved cid a)"
proof (rule spec_pg [OF keeps_bump])
  fix n x e and s :: sys
  assume "sys_inv s" and P: "in_dm cid a s" and q: "bump_last_seq cid (db s) = (Inr x, e)"
  then have "seq_within e cid x \<and> 1 \<le> x" by (intro bump_result) (auto simp: sys_inv_def db_inv_def)
  moreover have "dm_ids e = dm_ids (db s)" "conversation_members e = conversation_members (db s)"
    using q by (auto simp: bump_last_seq_def dm_ids_def split: option.splits if_splits)
  ultimately show "reserved cid a x ((advance s)\<lparr>db := e\<rparr>)"
    using P by (simp add: reserved_def in_dm_def joined_def)
qed auto

lemma spec_insert_message:
  "spec (reserved cid sa seq)
     (pg w (\<lambda>n. insert_message (new_message mid cid seq sa dv ct rt (pg_now w n))))
     (\<lambda>ts. stored (new_message mid cid seq sa dv ct rt ts))"
proof (rule spec_pg [where K = "\<lambda>d. \<forall>ts. insertable (new_message mid cid seq sa dv ct rt ts) d"])
  fix n :: nat
  show "keeps (\<lambda>d. \<forall>ts. insertable (new_message mid cid seq sa dv ct rt ts) d)
      (insert_message (new_message mid cid seq sa dv ct rt (pg_now w n)))"
    using keeps_insert_message by (auto simp: keeps_def)
next
  fix s :: sys assume "reserved cid sa seq s"
  then show "\<forall>ts. insertable (new_message mid cid seq sa dv ct rt ts) (db s)"
    by (simp add: reserved_def insertable_def in_dm_def joined_def new_message_def)
next
  fix n x e and s :: sys
  assume "insert_message (new_message mid cid seq sa dv ct rt (pg_now w n)) (db s) = (Inr x, e)"
  then show "stored (new_message mid cid seq sa dv ct rt x) ((advance s)\<lparr>db := e\<rparr>)"
    by (auto simp: insert_message_def stored_def new_message_def split: if_splits)
qed auto

definition message_for :: "uuid \<Rightarrow> uuid \<Rightarrow> uuid \<Rightarrow> bytes \<Rightarrow> uuid option \<Rightarrow> message \<Rightarrow> bool" where
  "message_for cid sa dv ct rt m \<longleftrightarrow> (\<exists>mid seq ts. m = new_message mid cid seq sa dv ct rt ts)"

lemma spec_store_message [ok_intros]:
  "spec (in_dm cid sa) (store_message w cid sa dv ct rt) (\<lambda>m s. stored m s \<and> message_for cid sa dv ct rt m)"
  unfolding store_message_def
  by (intro spec_bindE [OF spec_bump] spec_bind_safe safe_new_uuid spec_bindE [OF spec_insert_message] spec_Ret)
     (auto simp: message_for_def)

lemma spec_record_media [ok_intros]:
  assumes "msg_conversation_id m = cid" "msg_id m = mid" "msg_sender_account_id m = sa" "msg_seq m = seq"
  shows "spec (stored m) (record_media w cid mid sa seq kind b tb mi nm url sz wd ht) (\<lambda>_ _. True)"
  unfolding record_media_def
proof (intro spec_bind_safe safe_new_uuid stable_stored spec_pg
    [where K = "\<lambda>d. \<exists>n \<in> set (messages d). msg_grows m n"])
  fix i n
  show "keeps (\<lambda>d. \<exists>n\<in>set (messages d). msg_grows m n)
     (insert_media \<lparr>md_id = i, md_conversation_id = cid, md_message_id = mid,
        md_sender_account_id = sa, md_seq = seq, md_kind = kind, md_blob_id = b,
        md_thumb_blob_id = tb, md_mime = mi, md_name = nm, md_url = url,
        md_size = sz, md_width = wd, md_height = ht, md_created_at = pg_now w n\<rparr>)"
    unfolding keeps_def using assms
    by (intro allI impI keeps_insert_media [unfolded keeps_def, rule_format])
       (auto simp: media_target_def msg_grows_def)
qed (auto simp: stored_def)

section \<open>Combinators\<close>

lemma safe_Ret [ok_intros]: "safe (Ret x)"
  by (simp add: safe_def ok_Ret)

lemma safe_bind [ok_intros]: "safe p \<Longrightarrow> (\<And>x. safe (k x)) \<Longrightarrow> safe (bind p k)"
  unfolding safe_def by (intro allI srv.ok_bind) auto

lemma safe_bindE [ok_intros]: "safe p \<Longrightarrow> (\<And>x. safe (k x)) \<Longrightarrow> safe (bindE p k)"
  unfolding bindE_def by (intro safe_bind) (auto split: sum.splits intro: safe_Ret)

lemma safe_map_err [ok_intros]: "safe p \<Longrightarrow> safe (map_err g p)"
  unfolding map_err_def by (intro safe_bind safe_Ret)

lemma safe_ok_or [ok_intros]: "safe (ok_or e v)"
  unfolding ok_or_def by (rule safe_Ret)

lemma safe_for_each [ok_intros]: "(\<And>x. safe (b x)) \<Longrightarrow> safe (for_each xs b)"
  by (induction xs) (auto intro!: safe_bind safe_Ret)

lemma safe_for_map [ok_intros]: "(\<And>x. safe (f x)) \<Longrightarrow> safe (for_map f xs)"
  by (induction xs) (auto intro!: safe_bind safe_Ret)

lemma safe_for_eachE [ok_intros]: "(\<And>x. safe (b x)) \<Longrightarrow> safe (for_eachE xs b)"
  by (induction xs) (auto intro!: safe_bindE safe_Ret)

lemma safe_pg [ok_intros]: "(\<And>n. keeps (\<lambda>_. True) (q n)) \<Longrightarrow> safe (pg w q)"
  unfolding safe_iff_spec by (rule spec_pg) auto

lemma safe_dbq [ok_intros]: "safe p \<Longrightarrow> safe (dbq w p)"
  unfolding dbq_def by (rule safe_map_err)

lemma safe_auth [ok_intros]: "(\<And>n. keeps (\<lambda>_. True) (q n)) \<Longrightarrow> safe (auth w q)"
  unfolding auth_def by (intro safe_map_err safe_pg)

lemma safe_dm_conversation [ok_intros]: "safe (dm_conversation w a b)"
  unfolding safe_iff_spec by (rule spec_weaken [OF spec_dm_conversation]) simp_all

lemma safe_delete_message [ok_intros]: "safe (delete_message w mid actor)"
  unfolding delete_message_def by (auto intro!: ok_intros split: option.splits)

lemma safe_put_blob [ok_intros]: "safe (put_blob w ct bs)"
  unfolding put_blob_def by (intro ok_intros)

text \<open>The other fields of the state may change freely.\<close>

lemma safe_atomic_other:
  assumes "\<And>s. db (snd (f s)) = db s \<and> dm_claim (snd (f s)) = dm_claim s \<and> tick s \<le> tick (snd (f s))"
  shows "safe (atomic f)"
  unfolding safe_def
proof (intro allI srv.ok_atomic)
  fix s t :: sys assume "sys_inv t"
  then show "sys_inv (snd (f t)) \<and> sys_grows t (snd (f t)) \<and> (\<forall>u. sys_grows (snd (f t)) u \<longrightarrow> sys_inv u \<longrightarrow> True)"
    using assms [of t] by (auto simp: sys_inv_def claim_inv_def sys_grows_def)
qed

lemma spec_dbq:
  fixes p :: "(sys, sqlx_error + 'a) prog"
  assumes "spec P p Q" and "\<And>x. stable (Q x)"
  shows "spec P (dbq w p) Q"
  unfolding dbq_def map_err_def spec_def
proof (intro allI impI srv.ok_bind [where Q = "post Q"])
  fix s t :: sys and r :: "sqlx_error + 'a" assume "post Q r t"
  then show "ok sys_grows sys_inv (post Q) (Ret (map_sum (from_sqlx w) id r)) t"
    using assms(2) by (auto simp: ok_Ret post_def stable_def split: sum.splits)
qed (use assms(1) in \<open>simp add: spec_def\<close>)

lemma safe_run:
  "safe p \<Longrightarrow> sys_inv s \<Longrightarrow> sys_inv (snd (run p s)) \<and> sys_grows s (snd (run p s))"
  using srv.ok_run [of "\<lambda>_ _. True" p s] by (simp add: safe_def)

lemma safe_bindE_spec:
  assumes "spec (\<lambda>_. True) p Q" and "\<And>x. spec (Q x) (k x) (\<lambda>_ _. True)"
  shows "safe (bindE p k)"
  unfolding safe_iff_spec by (rule spec_bindE [OF assms])

lemma dm_row_in_dm_pair: "dm_row (pair_order a b) cid s \<Longrightarrow> in_dm cid a s"
  using pair_order_set [of a b] by (auto intro: dm_row_in_dm)

end
