(* ===== verification/Auth_Handlers.thy ===== *)
theory Auth_Handlers
  imports Auth_Store Db_Programs
begin

text \<open>
  \<open>crates/server/src/auth.rs\<close>: tokens, passwords, the authentication of requests, and the
  handlers for registration, login, refresh and logout, on the Postgres implementation of the
  \<open>AuthStore\<close> that \<open>main\<close> installs. Each call into the store is one statement of \<open>Auth_Repo\<close>.
\<close>

section \<open>Primitives\<close>

text \<open>Headers, by their lower-case names; \<open>HeaderMap::get\<close> returns the first value of a name.\<close>

type_synonym headers = "(string \<times> string) list"

text \<open>\<open>Duration::hours(1)\<close>, in seconds and in the unit of timestamps.\<close>

definition ACCESS_TTL_seconds :: int where
  "ACCESS_TTL_seconds = 3600"

definition ACCESS_TTL :: int where
  "ACCESS_TTL = ACCESS_TTL_seconds * 1000000"

definition new_token :: "world \<Rightarrow> string \<Rightarrow> (sys, string) prog" where
  "new_token w pre = bind (fill_bytes w) (\<lambda>bs. Ret (pre @ b64url_encode w bs))"

definition hash_token :: "world \<Rightarrow> string \<Rightarrow> bytes" where
  "hash_token w token = sha256 w token"

text \<open>The salt of \<open>argon2_hash\<close> is drawn anew for every hash.\<close>

definition hash_password :: "world \<Rightarrow> string \<Rightarrow> (sys, app_error + string) prog" where
  "hash_password w password = atomic (\<lambda>s.
     ((case argon2_hash w (tick s) password of
         Inl e \<Rightarrow> Inl (Internal (''password hashing: '' @ e))
       | Inr h \<Rightarrow> Inr h), advance s))"

definition verify_password :: "world \<Rightarrow> string \<Rightarrow> string \<Rightarrow> bool" where
  "verify_password w verifier password = (if phc_valid w verifier then argon2_verify w verifier password else False)"

definition issue_session :: "world \<Rightarrow> uuid \<Rightarrow> (sys, app_error + token_pair) prog" where
  "issue_session w device =
     bind (new_token w ''tka_'') (\<lambda>access.
     bind (new_token w ''tkr_'') (\<lambda>refresh_t.
     bind (now_utc w) (\<lambda>now.
     bind (new_uuid w) (\<lambda>sid.
     bindE (auth w (\<lambda>n. create_session (pg_now w n) sid device (hash_token w access)
              (hash_token w refresh_t) (now + ACCESS_TTL))) (\<lambda>_.
     Ret (Inr \<lparr>access_token = access, refresh_token = refresh_t,
               expires_in = ACCESS_TTL_seconds\<rparr>))))))"

definition decode_identity :: "world \<Rightarrow> string \<Rightarrow> (sys, app_error + bytes) prog" where
  "decode_identity w b64 =
     ok_or (BadRequest ''publicIdentity must be valid base64'') (b64_decode w b64)"

definition bearer_token :: "world \<Rightarrow> headers \<Rightarrow> string option" where
  "bearer_token w hs =
     (case map_of hs ''authorization'' of
        None \<Rightarrow> None
      | Some v \<Rightarrow> (case header_to_str w v of None \<Rightarrow> None | Some s \<Rightarrow> strip_prefix ''Bearer '' s))"

definition authed_device :: "world \<Rightarrow> headers \<Rightarrow> (sys, app_error + uuid) prog" where
  "authed_device w hs =
     bindE (ok_or (Unauthorized ''missing bearer token'') (bearer_token w hs)) (\<lambda>token.
     bindE (auth w (\<lambda>n. find_live_session_by_access_hash (pg_now w n) (hash_token w token))) (\<lambda>found.
     bindE (ok_or (Unauthorized ''invalid or expired token'') found) (\<lambda>ses.
     Ret (Inr (ses_device_id ses)))))"

definition authed :: "world \<Rightarrow> headers \<Rightarrow> (sys, app_error + uuid \<times> uuid) prog" where
  "authed w hs =
     bindE (authed_device w hs) (\<lambda>device.
     bindE (auth w (\<lambda>_. find_device_by_id device)) (\<lambda>found.
     bindE (ok_or (Unauthorized ''device not found'') found) (\<lambda>dv.
     Ret (Inr (dev_account_id dv, device)))))"

definition authed_from_token :: "world \<Rightarrow> string \<Rightarrow> (sys, app_error + uuid \<times> uuid) prog" where
  "authed_from_token w token =
     bindE (auth w (\<lambda>n. find_live_session_by_access_hash (pg_now w n) (hash_token w token))) (\<lambda>found.
     bindE (ok_or (Unauthorized ''invalid token'') found) (\<lambda>ses.
     bindE (auth w (\<lambda>_. find_device_by_id (ses_device_id ses))) (\<lambda>found_device.
     bindE (ok_or (Unauthorized ''device not found'') found_device) (\<lambda>dv.
     Ret (Inr (dev_account_id dv, ses_device_id ses))))))"

section \<open>Handlers\<close>

fun username_taken :: "app_error \<Rightarrow> app_error" where
  "username_taken (AppConflict _) = AppConflict ''username is taken''"
| "username_taken e = e"

text \<open>The status \<open>201 CREATED\<close> of the answer is added by the router.\<close>

definition register :: "world \<Rightarrow> register_request \<Rightarrow> (sys, app_error + auth_session) prog" where
  "register w req =
     (if trim_is_empty (rr_username req) \<or> length (rr_password req) < 8
      then Ret (Inl (BadRequest ''username required and password must be at least 8 characters''))
      else
        bindE (decode_identity w (reg_public_identity (rr_device req))) (\<lambda>identity.
        bindE (hash_password w (rr_password req)) (\<lambda>verifier.
        bind (new_uuid w) (\<lambda>account.
        bindE (map_err username_taken
                (auth w (\<lambda>n. create_account (pg_now w n) account (rr_username req) verifier))) (\<lambda>_.
        bind (new_uuid w) (\<lambda>device.
        bindE (auth w (\<lambda>n. create_device (pg_now w n) device account
                (reg_display_name (rr_device req)) identity)) (\<lambda>_.
        bindE (issue_session w device) (\<lambda>tokens.
        Ret (Inr \<lparr>as_account_id = account, as_device_id = device, as_tokens = tokens\<rparr>)))))))))"

definition login :: "world \<Rightarrow> login_request \<Rightarrow> (sys, app_error + auth_session) prog" where
  "login w req =
     bindE (decode_identity w (reg_public_identity (lr_device req))) (\<lambda>identity.
     bindE (auth w (\<lambda>_. find_account_by_username (lr_username req))) (\<lambda>found.
     bindE (ok_or (Unauthorized ''invalid credentials'') found) (\<lambda>acc.
     if \<not> verify_password w (acc_password_verifier acc) (lr_password req)
     then Ret (Inl (Unauthorized ''invalid credentials''))
     else
       bind (new_uuid w) (\<lambda>device.
       bindE (auth w (\<lambda>n. create_device (pg_now w n) device (acc_id acc)
               (reg_display_name (lr_device req)) identity)) (\<lambda>_.
       bindE (issue_session w device) (\<lambda>tokens.
       Ret (Inr \<lparr>as_account_id = acc_id acc, as_device_id = device, as_tokens = tokens\<rparr>)))))))"

definition refresh :: "world \<Rightarrow> refresh_request \<Rightarrow> (sys, app_error + token_pair) prog" where
  "refresh w req =
     bindE (auth w (\<lambda>_. find_live_session_by_refresh_hash (hash_token w (rf_refresh_token req)))) (\<lambda>found.
     bindE (ok_or (Unauthorized ''invalid refresh token'') found) (\<lambda>ses.
     bind (new_token w ''tka_'') (\<lambda>access.
     bind (new_token w ''tkr_'') (\<lambda>refresh_t.
     bind (now_utc w) (\<lambda>now.
     bindE (auth w (\<lambda>_. rotate_session (ses_id ses) (hash_token w access) (hash_token w refresh_t)
              (now + ACCESS_TTL))) (\<lambda>_.
     Ret (Inr \<lparr>access_token = access, refresh_token = refresh_t,
               expires_in = ACCESS_TTL_seconds\<rparr>)))))))"

text \<open>The answer is \<open>204 NO CONTENT\<close>.\<close>

definition logout :: "world \<Rightarrow> headers \<Rightarrow> (sys, app_error + unit) prog" where
  "logout w hs =
     bindE (ok_or (Unauthorized ''missing bearer token'') (bearer_token w hs)) (\<lambda>token.
     bindE (auth w (\<lambda>n. find_live_session_by_access_hash (pg_now w n) (hash_token w token))) (\<lambda>found.
     case found of
       None \<Rightarrow> Ret (Inr ())
     | Some ses \<Rightarrow> bindE (auth w (\<lambda>n. revoke_session (pg_now w n) (ses_id ses))) (\<lambda>_. Ret (Inr ()))))"

lemmas auth_handler_defs [prog_defs] = ACCESS_TTL_seconds_def ACCESS_TTL_def new_token_def hash_token_def
  hash_password_def verify_password_def issue_session_def decode_identity_def bearer_token_def
  authed_device_def authed_def authed_from_token_def register_def login_def refresh_def logout_def

section \<open>Steps of the handlers\<close>

lemma guar_authed [guar_intros]:
  "guar same_db (authed w hs)" "guar same_db (authed_from_token w token)"
  unfolding authed_def authed_device_def authed_from_token_def by (intro guar_intros reads_auth)+

lemma safe_authed [ok_intros]: "safe (authed w hs)" "safe (authed_from_token w token)"
  unfolding authed_def authed_device_def authed_from_token_def by (intro ok_intros reads_auth)+

lemma safe_hash_password [ok_intros]: "safe (hash_password w p)"
  unfolding hash_password_def by (rule safe_atomic_advance) simp

lemma safe_issue_session [ok_intros]: "safe (issue_session w d)"
  unfolding issue_session_def new_token_def by (intro ok_intros)

lemma safe_auth_handlers [ok_intros]:
  "safe (register w req)" "safe (login w lreq)" "safe (refresh w rreq)" "safe (logout w hs)"
  unfolding register_def login_def refresh_def logout_def new_token_def decode_identity_def
  by (auto intro!: ok_intros reads_auth split: option.splits)


section \<open>Authentication\<close>


definition live_session :: "database \<Rightarrow> timestamp \<Rightarrow> bytes \<Rightarrow> session \<Rightarrow> bool" where
  "live_session d now h e \<longleftrightarrow> e \<in> set (sessions d) \<and> ses_access_token_hash e = h
     \<and> ses_revoked_at e = None \<and> now < ses_expires_at e"

definition token_identifies :: "world \<Rightarrow> database \<Rightarrow> timestamp \<Rightarrow> string \<Rightarrow> uuid \<Rightarrow> uuid \<Rightarrow> bool" where
  "token_identifies w d now token account device \<longleftrightarrow>
     (\<exists>e v. live_session d now (hash_token w token) e \<and> v \<in> set (devices d)
        \<and> dev_id v = ses_device_id e \<and> device = dev_id v \<and> account = dev_account_id v)"

lemma find_live_iff:
  assumes "auth_inv d"
  shows "List.find (\<lambda>e. ses_access_token_hash e = h \<and> ses_revoked_at e = None \<and> now < ses_expires_at e)
           (sessions d) = Some e \<longleftrightarrow> live_session d now h e"
proof
  show "live_session d now h e" if "List.find (\<lambda>e. ses_access_token_hash e = h \<and> ses_revoked_at e = None
      \<and> now < ses_expires_at e) (sessions d) = Some e"
    using find_SomeD [OF that] by (simp add: live_session_def)
next
  assume e: "live_session d now h e"
  let ?P = "\<lambda>e. ses_access_token_hash e = h \<and> ses_revoked_at e = None \<and> now < ses_expires_at e"
  show "List.find ?P (sessions d) = Some e"
  proof (cases "List.find ?P (sessions d)")
    case None
    with e show ?thesis using find_NoneD [OF None, of e] by (auto simp: live_session_def)
  next
    case (Some f)
    have "f = e"
      using find_SomeD [OF Some] e assms distinct_key_eq [of ses_access_token_hash "sessions d" f e]
      by (simp add: live_session_def auth_inv_def)
    with Some show ?thesis by simp
  qed
qed

lemma find_device_iff:
  assumes "auth_inv d"
  shows "List.find (\<lambda>v. dev_id v = i) (devices d) = Some v \<longleftrightarrow> v \<in> set (devices d) \<and> dev_id v = i"
  using assms find_SomeD [of "\<lambda>v. dev_id v = i" "devices d" v] find_unique_key [of dev_id "devices d" v]
  by (auto simp: auth_inv_def)

lemma run_authed_device:
  assumes "no_faults w"
  shows "run (authed_device w hs) s =
    (case bearer_token w hs of
       None \<Rightarrow> (Inl (Unauthorized ''missing bearer token''), s)
     | Some tok \<Rightarrow>
         (case List.find (\<lambda>e. ses_access_token_hash e = hash_token w tok \<and> ses_revoked_at e = None
                  \<and> pg_now w (tick s) < ses_expires_at e) (sessions (db s)) of
            None \<Rightarrow> (Inl (Unauthorized ''invalid or expired token''), advance s)
          | Some e \<Rightarrow> (Inr (ses_device_id e), advance s)))"
  using assms by (auto simp: authed_device_def run_simps no_faultsD find_live_session_by_access_hash_def
      split: option.splits)

lemma run_authed:
  assumes "no_faults w"
  shows "run (authed w hs) s =
    (case bearer_token w hs of
       None \<Rightarrow> (Inl (Unauthorized ''missing bearer token''), s)
     | Some tok \<Rightarrow>
         (case List.find (\<lambda>e. ses_access_token_hash e = hash_token w tok \<and> ses_revoked_at e = None
                  \<and> pg_now w (tick s) < ses_expires_at e) (sessions (db s)) of
            None \<Rightarrow> (Inl (Unauthorized ''invalid or expired token''), advance s)
          | Some e \<Rightarrow>
              (case List.find (\<lambda>v. dev_id v = ses_device_id e) (devices (db s)) of
                 None \<Rightarrow> (Inl (Unauthorized ''device not found''), advance (advance s))
               | Some v \<Rightarrow> (Inr (dev_account_id v, ses_device_id e), advance (advance s)))))"
  using assms by (auto simp: authed_def run_simps no_faultsD run_authed_device find_device_by_id_def
      split: option.splits)

lemma authed_result:
  assumes w: "no_faults w" and inv: "auth_inv (db s)" and tok: "bearer_token w hs = Some tok"
  shows "fst (run (authed w hs) s) = Inr (a, dv) \<longleftrightarrow> token_identifies w (db s) (pg_now w (tick s)) tok a dv"
proof -
  define P :: "session \<Rightarrow> bool" where "P = (\<lambda>e. ses_access_token_hash e = hash_token w tok \<and> ses_revoked_at e = None
      \<and> pg_now w (tick s) < ses_expires_at e)"
  have live: "List.find P (sessions (db s)) = Some e \<longleftrightarrow>
      live_session (db s) (pg_now w (tick s)) (hash_token w tok) e" for e
    unfolding P_def by (rule find_live_iff [OF inv])
  have r: "fst (run (authed w hs) s) = Inr (a, dv) \<longleftrightarrow>
      (\<exists>e v. List.find P (sessions (db s)) = Some e
         \<and> List.find (\<lambda>v. dev_id v = ses_device_id e) (devices (db s)) = Some v
         \<and> a = dev_account_id v \<and> dv = ses_device_id e)"
    unfolding run_authed [OF w] tok option.case P_def [symmetric] by (auto split: option.splits)
  show ?thesis
    unfolding r live find_device_iff [OF inv] token_identifies_def by metis
qed

text \<open>
  (C12) Authentication is exact. Without database faults, a request is taken to come from
  account \<open>a\<close> and device \<open>dv\<close> if and only if it carries a bearer token whose hash belongs to a
  session that is neither revoked nor expired at the database's time, of device \<open>dv\<close>, which
  belongs to \<open>a\<close>. Authentication never changes the database.
\<close>

theorem authed_exact:
  assumes "no_faults w" and "db_inv (db s)"
  shows "(fst (run (authed w hs) s) = Inr (a, dv) \<longleftrightarrow>
      (\<exists>tok. bearer_token w hs = Some tok \<and> token_identifies w (db s) (pg_now w (tick s)) tok a dv))
    \<and> db (snd (run (authed w hs) s)) = db s"
proof -
  have "db (snd (run (authed w hs) s)) = db s" by (rule guar_same_db_run) (rule guar_authed)
  moreover have inv: "auth_inv (db s)" using assms(2) by (simp add: db_inv_def)
  have "fst (run (authed w hs) s) = Inr (a, dv) \<longleftrightarrow>
      (\<exists>tok. bearer_token w hs = Some tok \<and> token_identifies w (db s) (pg_now w (tick s)) tok a dv)"
  proof (cases "bearer_token w hs")
    case None
    then show ?thesis by (simp add: run_authed [OF assms(1)])
  next
    case (Some tok)
    then show ?thesis by (simp add: authed_result [OF assms(1) inv])
  qed
  ultimately show ?thesis by blast
qed


section \<open>Registration, login and their sessions\<close>


lemma auth_update_inject [simp]:
  "d\<lparr>sessions := x\<rparr> = d\<lparr>sessions := y\<rparr> \<longleftrightarrow> x = y"
  "d\<lparr>devices := v, sessions := x\<rparr> = d\<lparr>devices := v', sessions := y\<rparr> \<longleftrightarrow> v = v' \<and> x = y"
  "d\<lparr>accounts := a, devices := v, sessions := x\<rparr> = d\<lparr>accounts := a', devices := v', sessions := y\<rparr>
     \<longleftrightarrow> a = a' \<and> v = v' \<and> x = y"
  by (cases d; auto)+

text \<open>What issuing a session adds to the database.\<close>

definition session_for :: "world \<Rightarrow> nat \<Rightarrow> uuid \<Rightarrow> token_pair \<Rightarrow> session \<Rightarrow> bool" where
  "session_for w k device tp e \<longleftrightarrow>
     ses_device_id e = device \<and> ses_revoked_at e = None
   \<and> ses_access_token_hash e = hash_token w (access_token tp)
   \<and> ses_refresh_token_hash e = hash_token w (refresh_token tp)
   \<and> ses_expires_at e \<in> (\<lambda>n. app_now w n + ACCESS_TTL) ` {k..} \<and> expires_in tp = ACCESS_TTL_seconds"

lemma session_for_mono: "session_for w k device tp e \<Longrightarrow> j \<le> k \<Longrightarrow> session_for w j device tp e"
  by (auto simp: session_for_def)

lemma issue_session_effect:
  assumes "no_faults w" and "run (issue_session w device) s = (Inr tp, t)"
  shows "\<exists>e. db t = (db s)\<lparr>sessions := sessions (db s) @ [e]\<rparr> \<and> session_for w (tick s) device tp e
    \<and> pres t = pres s \<and> bus t = bus s"
  using assms
  by (auto simp: issue_session_def new_token_def run_simps no_faultsD create_session_def session_for_def
      split: if_splits)

definition device_for :: "uuid \<Rightarrow> uuid \<Rightarrow> device \<Rightarrow> bool" where
  "device_for account device v \<longleftrightarrow> dev_id v = device \<and> dev_account_id v = account \<and> dev_revoked_at v = None"

lemma register_effect:
  assumes "no_faults w" and "run (register w req) s = (Inr a, t)"
  shows "\<exists>acc v e n. db t = (db s)\<lparr>accounts := accounts (db s) @ [acc],
            devices := devices (db s) @ [v], sessions := sessions (db s) @ [e]\<rparr>
      \<and> acc_id acc = as_account_id a \<and> acc_username acc = rr_username req
      \<and> argon2_hash w n (rr_password req) = Inr (acc_password_verifier acc)
      \<and> device_for (as_account_id a) (as_device_id a) v
      \<and> session_for w (tick s) (as_device_id a) (as_tokens a) e"
  using assms
  by (auto simp: register_def decode_identity_def hash_password_def run_simps no_faultsD create_account_def
      create_device_def device_for_def dest!: issue_session_effect [OF assms(1)]
      elim!: session_for_mono split: if_splits option.splits sum.splits prod.splits)


lemma login_effect:
  assumes "no_faults w" and "run (login w req) s = (Inr a, t)"
  shows "\<exists>acc v e. db t = (db s)\<lparr>devices := devices (db s) @ [v], sessions := sessions (db s) @ [e]\<rparr>
      \<and> List.find (\<lambda>x. acc_username x = lr_username req) (accounts (db s)) = Some acc
      \<and> acc_id acc = as_account_id a \<and> verify_password w (acc_password_verifier acc) (lr_password req)
      \<and> device_for (as_account_id a) (as_device_id a) v
      \<and> session_for w (tick s) (as_device_id a) (as_tokens a) e"
  using assms
  by (auto simp: login_def decode_identity_def run_simps no_faultsD find_account_by_username_def
      create_device_def device_for_def dest!: issue_session_effect [OF assms(1)]
      elim!: session_for_mono split: if_splits option.splits sum.splits prod.splits)

text \<open>A session just issued authenticates its device until it expires.\<close>

lemma issued_identifies:
  assumes "session_for w k device tp e" and "e \<in> set (sessions d)" and "device_for account device v"
    and "v \<in> set (devices d)" and "\<forall>n \<ge> k. now < app_now w n + ACCESS_TTL"
  shows "token_identifies w d now (access_token tp) account device"
  using assms unfolding token_identifies_def live_session_def session_for_def device_for_def
  by (intro exI [of _ e] exI [of _ v]) auto


text \<open>
  (C15) Login works. When it succeeds, the account with this username exists, the password is
  the one its stored verifier accepts, one device and one session of that account were added,
  and the access token authenticates the account and the new device.
\<close>

theorem login_then_authed:
  assumes w: "no_faults w" and s: "sys_inv s" and r: "run (login w req) s = (Inr a, t)"
    and u: "db u = db t" and hs: "bearer_token w hs = Some (access_token (as_tokens a))"
    and fresh: "\<forall>n \<ge> tick s. pg_now w (tick u) < app_now w n + ACCESS_TTL"
  shows "(\<exists>acc \<in> set (accounts (db s)). acc_username acc = lr_username req \<and> acc_id acc = as_account_id a
        \<and> verify_password w (acc_password_verifier acc) (lr_password req))
    \<and> accounts (db t) = accounts (db s)
    \<and> length (devices (db t)) = Suc (length (devices (db s)))
    \<and> length (sessions (db t)) = Suc (length (sessions (db s)))
    \<and> fst (run (authed w hs) u) = Inr (as_account_id a, as_device_id a)"
proof -
  obtain acc v e where eff: "db t = (db s)\<lparr>devices := devices (db s) @ [v], sessions := sessions (db s) @ [e]\<rparr>"
    "List.find (\<lambda>x. acc_username x = lr_username req) (accounts (db s)) = Some acc"
    "acc_id acc = as_account_id a" "verify_password w (acc_password_verifier acc) (lr_password req)"
    "device_for (as_account_id a) (as_device_id a) v"
    "session_for w (tick s) (as_device_id a) (as_tokens a) e"
    using login_effect [OF w r] by blast
  have inv: "auth_inv (db t)"
    using safe_run [OF safe_auth_handlers(2) s, of w req] r by (simp add: sys_inv_def db_inv_def)
  have "token_identifies w (db u) (pg_now w (tick u)) (access_token (as_tokens a)) (as_account_id a) (as_device_id a)"
    using fresh by (intro issued_identifies [OF eff(6) _ eff(5)]) (simp_all add: u eff(1))
  then have "fst (run (authed w hs) u) = Inr (as_account_id a, as_device_id a)"
    using inv by (subst authed_result [OF w _ hs]) (simp_all add: u)
  moreover have "acc \<in> set (accounts (db s)) \<and> acc_username acc = lr_username req"
    using find_SomeD [OF eff(2)] by simp
  ultimately show ?thesis using eff(3,4) by (auto simp: eff(1))
qed


section \<open>Logout and refresh\<close>

lemma run_logout:
  assumes w: "no_faults w" and tok: "bearer_token w hs = Some tok"
  shows "run (logout w hs) s =
    (case List.find (\<lambda>e. ses_access_token_hash e = hash_token w tok \<and> ses_revoked_at e = None
                  \<and> pg_now w (tick s) < ses_expires_at e) (sessions (db s)) of
       None \<Rightarrow> (Inr (), advance s)
     | Some e \<Rightarrow> (Inr (), (advance (advance s))\<lparr>db :=
          snd (revoke_session (pg_now w (Suc (tick s))) (ses_id e) (db s))\<rparr>))"
  using w tok by (auto simp: logout_def run_simps no_faultsD find_live_session_by_access_hash_def
      revoke_session_def split: option.splits)

lemma revoke_not_live:
  assumes inv: "auth_inv d" and e: "live_session d now h e"
  shows "\<not> live_session (snd (revoke_session n (ses_id e) d)) now' h f"
proof
  assume "live_session (snd (revoke_session n (ses_id e) d)) now' h f"
  then have "f \<in> set (update_where (\<lambda>x. ses_id x = ses_id e \<and> ses_revoked_at x = None)
      (\<lambda>x. x\<lparr>ses_revoked_at := Some n\<rparr>) (sessions d))" and f: "ses_access_token_hash f = h" "ses_revoked_at f = None"
    by (simp_all add: live_session_def revoke_session_def)
  then show False
  proof (cases rule: in_update_whereE)
    case (changed x)
    with f show False by simp
  next
    case kept
    then have "f = e" using inv e f distinct_key_eq [of ses_access_token_hash "sessions d" f e]
      by (simp add: auth_inv_def live_session_def)
    with kept e show False by (simp add: live_session_def)
  qed
qed



lemma run_refresh:
  assumes w: "no_faults w"
  shows "run (refresh w req) s =
    (case List.find (\<lambda>e. ses_refresh_token_hash e = hash_token w (rf_refresh_token req)
              \<and> ses_revoked_at e = None) (sessions (db s)) of
       None \<Rightarrow> (Inl (Unauthorized ''invalid refresh token''), advance s)
     | Some e \<Rightarrow>
         let access = ''tka_'' @ b64url_encode w (random_bytes w (Suc (tick s)));
             refr = ''tkr_'' @ b64url_encode w (random_bytes w (Suc (Suc (tick s))));
             t = (advance ^^ 5) s
         in case rotate_session (ses_id e) (hash_token w access) (hash_token w refr)
                 (app_now w (Suc (Suc (Suc (tick s)))) + ACCESS_TTL) (db s) of
              (r, d) \<Rightarrow> (case r of
                 Inl x \<Rightarrow> Inl (from_storage w (Sqlx x))
               | Inr _ \<Rightarrow> Inr \<lparr>access_token = access, refresh_token = refr, expires_in = ACCESS_TTL_seconds\<rparr>,
               t\<lparr>db := d\<rparr>))"
  using w by (auto simp: refresh_def new_token_def run_simps no_faultsD find_live_session_by_refresh_hash_def
      numeral_eq_Suc split: option.splits sum.splits prod.splits)

lemma refresh_effect:
  assumes w: "no_faults w" and r: "run (refresh w req) s = (Inr tp, t)"
  shows "\<exists>e n. e \<in> set (sessions (db s)) \<and> ses_refresh_token_hash e = hash_token w (rf_refresh_token req)
      \<and> ses_revoked_at e = None \<and> tick s \<le> n
      \<and> db t = (db s)\<lparr>sessions := update_where (\<lambda>x. ses_id x = ses_id e)
          (\<lambda>x. x\<lparr>ses_access_token_hash := hash_token w (access_token tp),
                ses_refresh_token_hash := hash_token w (refresh_token tp),
                ses_expires_at := app_now w n + ACCESS_TTL\<rparr>) (sessions (db s))\<rparr>"
proof -
  let ?P = "\<lambda>e. ses_refresh_token_hash e = hash_token w (rf_refresh_token req) \<and> ses_revoked_at e = None"
  obtain e where e: "List.find ?P (sessions (db s)) = Some e"
    using r by (auto simp: run_refresh [OF w] split: option.splits)
  show ?thesis
    by (rule exI [of _ e], rule exI [of _ "Suc (Suc (Suc (tick s)))"])
       (use r e find_SomeD [OF e] in \<open>auto simp: run_refresh [OF w] rotate_session_def split: if_splits\<close>)
qed

text \<open>
  (C18) Refreshing rotates the tokens. When it succeeds, the refresh token belonged to a session
  that was not revoked; afterwards the new access token authenticates that session's device, the
  old refresh token is refused, and so is the access token the session had before. (The last two
  need that the new random tokens do not hash to the old values.)
\<close>

theorem refresh_rotates:
  assumes w: "no_faults w" and s: "sys_inv s" and r: "run (refresh w req) s = (Inr tp, t)"
    and u: "db u = db t" and new: "bearer_token w hs = Some (access_token tp)"
    and fresh: "\<forall>n \<ge> tick s. pg_now w (tick u) < app_now w n + ACCESS_TTL"
    and nr: "hash_token w (refresh_token tp) \<notin> ses_refresh_token_hash ` set (sessions (db s))"
    and na: "hash_token w (access_token tp) \<notin> ses_access_token_hash ` set (sessions (db s))"
  shows "\<exists>e a. e \<in> set (sessions (db s)) \<and> ses_refresh_token_hash e = hash_token w (rf_refresh_token req)
      \<and> ses_revoked_at e = None
      \<and> fst (run (authed w hs) u) = Inr (a, ses_device_id e)
      \<and> fst (run (refresh w req) u) = Inl (Unauthorized ''invalid refresh token'')
      \<and> (\<forall>old tok. bearer_token w old = Some tok \<longrightarrow> hash_token w tok = ses_access_token_hash e \<longrightarrow>
           fst (run (authed w old) u) = Inl (Unauthorized ''invalid or expired token''))"
proof -
  obtain e n where e: "e \<in> set (sessions (db s))"
      "ses_refresh_token_hash e = hash_token w (rf_refresh_token req)" "ses_revoked_at e = None"
    and n: "tick s \<le> n" and t: "db t = (db s)\<lparr>sessions := update_where (\<lambda>x. ses_id x = ses_id e)
          (\<lambda>x. x\<lparr>ses_access_token_hash := hash_token w (access_token tp),
                ses_refresh_token_hash := hash_token w (refresh_token tp),
                ses_expires_at := app_now w n + ACCESS_TTL\<rparr>) (sessions (db s))\<rparr>"
    using refresh_effect [OF w r] by blast
  have inv: "auth_inv (db s)" and invt: "auth_inv (db t)"
    using s safe_run [OF safe_auth_handlers(3) s, of w req] r by (simp_all add: sys_inv_def db_inv_def)
  have only: "x = e" if "x \<in> set (sessions (db s))"
      "ses_refresh_token_hash x = ses_refresh_token_hash e \<or> ses_access_token_hash x = ses_access_token_hash e" for x
    using that e(1) inv distinct_key_eq [of ses_refresh_token_hash "sessions (db s)" x e]
      distinct_key_eq [of ses_access_token_hash "sessions (db s)" x e] by (auto simp: auth_inv_def)
  obtain v where v: "v \<in> set (devices (db s))" "dev_id v = ses_device_id e"
    using inv e(1) by (auto simp: auth_inv_def)
  have "token_identifies w (db u) (pg_now w (tick u)) (access_token tp) (dev_account_id v) (ses_device_id e)"
    unfolding token_identifies_def live_session_def using e v fresh n
    by (intro exI [of _ v] exI [of _ "e\<lparr>ses_access_token_hash := hash_token w (access_token tp),
          ses_refresh_token_hash := hash_token w (refresh_token tp),
          ses_expires_at := app_now w n + ACCESS_TTL\<rparr>"]) (auto simp: u t set_update_where)
  then have 1: "fst (run (authed w hs) u) = Inr (dev_account_id v, ses_device_id e)"
    using invt by (subst authed_result [OF w _ new]) (simp_all add: u)
  have nr': "hash_token w (refresh_token tp) \<noteq> hash_token w (rf_refresh_token req)"
    and na': "hash_token w (access_token tp) \<noteq> ses_access_token_hash e"
    using nr na e by (metis imageI)+
  have "List.find (\<lambda>e. ses_refresh_token_hash e = hash_token w (rf_refresh_token req)
              \<and> ses_revoked_at e = None) (sessions (db u)) = None"
    using nr' e(2) only by (auto simp: find_None_iff u t elim!: in_update_whereE)
  then have 2: "fst (run (refresh w req) u) = Inl (Unauthorized ''invalid refresh token'')"
    by (simp add: run_refresh [OF w])
  have "List.find (\<lambda>x. ses_access_token_hash x = ses_access_token_hash e \<and> ses_revoked_at x = None
      \<and> pg_now w (tick u) < ses_expires_at x) (sessions (db u)) = None"
    using na' only by (auto simp: find_None_iff u t elim!: in_update_whereE)
  then have 3: "fst (run (authed w old) u) = Inl (Unauthorized ''invalid or expired token'')"
    if "bearer_token w old = Some tok" "hash_token w tok = ses_access_token_hash e" for old tok
    using that by (simp add: run_authed [OF w])
  from e 1 2 3 show ?thesis by blast
qed

section \<open>Concrete runs\<close>

theorem authed_exact_witness:
  "fst (run (authed demo_world demo_al) demo_two) = Inr (1, 11) \<and> bearer_token demo_world demo_al = Some ''A''
   \<and> token_identifies demo_world (db demo_two) 30 ''A'' 1 11"
proof -
  have "fst (run (authed demo_world demo_al) demo_two) = Inr (1, 11)" "bearer_token demo_world demo_al = Some ''A''"
    by (simp_all add: prog_defs run_simps)
  moreover have "db_inv (db demo_two)" using sys_inv_demo_two by (simp add: sys_inv_def)
  moreover have "tick demo_two = 30" by (simp add: demo_two_def)
  ultimately show ?thesis
    using authed_exact [of demo_world demo_two demo_al 1 11] by simp
qed

definition demo_reg :: register_request where
  "demo_reg = \<lparr>rr_username = ''al'', rr_password = ''passw0rd'',
     rr_device = \<lparr>reg_display_name = ''pc'', reg_public_identity = ''k''\<rparr>\<rparr>"

definition demo_tokens :: token_pair where
  "demo_tokens = \<lparr>access_token = ''tka_'' @ [char_of (5 :: nat)], refresh_token = ''tkr_'' @ [char_of (6 :: nat)], expires_in = 3600\<rparr>"

lemma demo_register:
  "\<exists>t. run (register demo_world demo_reg) demo_sys
     = (Inr \<lparr>as_account_id = 1001, as_device_id = 1003, as_tokens = demo_tokens\<rparr>, t) \<and> tick t = 10"
  by (simp add: prog_defs run_simps demo_reg_def demo_tokens_def trim_is_empty_def ascii_ws_def ws2_def)


definition demo_login :: login_request where
  "demo_login = \<lparr>lr_username = ''bo'', lr_password = ''hunter22'',
     lr_device = \<lparr>reg_display_name = ''pc'', reg_public_identity = ''k''\<rparr>\<rparr>"

lemma demo_login_run:
  "\<exists>a t. run (login demo_world demo_login) demo_two = (Inr a, t) \<and> tick t = 38 \<and> as_account_id a = 2
     \<and> as_device_id a = 1031"
  by (simp add: prog_defs run_simps demo_login_def)

theorem login_then_authed_witness:
  "\<exists>a t. run (login demo_world demo_login) demo_two = (Inr a, t)
     \<and> fst (run (authed demo_world [(''authorization'', ''Bearer '' @ access_token (as_tokens a))]) t)
         = Inr (2, 1031)"
proof -
  obtain a t where t: "run (login demo_world demo_login) demo_two = (Inr a, t)" "tick t = 38"
    "as_account_id a = 2" "as_device_id a = 1031"
    using demo_login_run by blast
  have "tick demo_two = 30" by (simp add: demo_two_def)
  with t show ?thesis
    using login_then_authed [OF no_faults_demo sys_inv_demo_two t(1) refl,
        of "[(''authorization'', ''Bearer '' @ access_token (as_tokens a))]"]
    by (simp add: bearer_token_def ACCESS_TTL_def ACCESS_TTL_seconds_def)
qed


definition demo_refresh :: refresh_request where
  "demo_refresh = \<lparr>rf_refresh_token = ''a''\<rparr>"

lemma demo_refresh_run:
  "\<exists>tp t. run (refresh demo_world demo_refresh) demo_two = (Inr tp, t) \<and> tick t = 35
     \<and> hash_token demo_world (refresh_token tp) \<notin> ses_refresh_token_hash ` set (sessions (db demo_two))
     \<and> hash_token demo_world (access_token tp) \<notin> ses_access_token_hash ` set (sessions (db demo_two))"
  by (simp add: prog_defs run_simps demo_refresh_def)

theorem refresh_rotates_witness:
  "\<exists>tp t. run (refresh demo_world demo_refresh) demo_two = (Inr tp, t)
     \<and> fst (run (refresh demo_world demo_refresh) t) = Inl (Unauthorized ''invalid refresh token'')"
proof -
  obtain tp t where t: "run (refresh demo_world demo_refresh) demo_two = (Inr tp, t)" "tick t = 35"
    and new: "hash_token demo_world (refresh_token tp) \<notin> ses_refresh_token_hash ` set (sessions (db demo_two))"
      "hash_token demo_world (access_token tp) \<notin> ses_access_token_hash ` set (sessions (db demo_two))"
    using demo_refresh_run by blast
  have "tick demo_two = 30" by (simp add: demo_two_def)
  moreover have "bearer_token demo_world [(''authorization'', ''Bearer '' @ access_token tp)] = Some (access_token tp)"
    by (simp add: bearer_token_def)
  ultimately show ?thesis
    using t refresh_rotates [OF no_faults_demo sys_inv_demo_two t(1) refl _ _ new,
        of "[(''authorization'', ''Bearer '' @ access_token tp)]"]
    by (auto simp: ACCESS_TTL_def ACCESS_TTL_seconds_def)
qed


end
