(* ===== verification/Media_Handlers.thy ===== *)
theory Media_Handlers
  imports Auth_Handlers
begin

text \<open>
  \<open>crates/server/src/media.rs\<close>, \<open>blobs.rs\<close> and the helpers the handlers share: the attachment
  descriptor, the shared-media listing, and upload and download of blobs. Extraction of paths,
  queries and bodies is done by \<open>axum\<close>; the handlers take the extracted values.
\<close>

section \<open>Shared media\<close>

record attachment_meta =
  at_kind :: string
  at_blob_id :: "string option"
  at_thumb_blob_id :: "string option"
  at_mime :: "string option"
  at_name :: "string option"
  at_url :: "string option"
  at_size :: "i64 option"
  at_width :: "i64 option"
  at_height :: "i64 option"

text \<open>\<open>format(\&Rfc3339).unwrap_or_default()\<close>.\<close>

definition rfc3339 :: "world \<Rightarrow> timestamp \<Rightarrow> string" where
  "rfc3339 w dt = (case rfc3339_format w dt of None \<Rightarrow> [] | Some s \<Rightarrow> s)"

definition juuid :: "world \<Rightarrow> uuid \<Rightarrow> json" where
  "juuid w u = JStr (uuid_str w u)"

definition jtime :: "world \<Rightarrow> timestamp \<Rightarrow> json" where
  "jtime w dt = JStr (rfc3339 w dt)"

definition media_json :: "world \<Rightarrow> media \<Rightarrow> json" where
  "media_json w e = JObj
     [(''id'', juuid w (md_id e)),
      (''messageId'', juuid w (md_message_id e)),
      (''senderAccountId'', juuid w (md_sender_account_id e)),
      (''seq'', JInt (md_seq e)),
      (''kind'', JStr (md_kind e)),
      (''blobId'', jopt (juuid w) (md_blob_id e)),
      (''thumbBlobId'', jopt (juuid w) (md_thumb_blob_id e)),
      (''mime'', jopt JStr (md_mime e)),
      (''name'', jopt JStr (md_name e)),
      (''url'', jopt JStr (md_url e)),
      (''size'', jopt JInt (md_size e)),
      (''width'', jopt JInt (md_width e)),
      (''height'', jopt JInt (md_height e)),
      (''createdAt'', jtime w (md_created_at e))]"

record media_query =
  mq_kind :: "string option"
  mq_before :: "i64 option"
  mq_limit :: "i64 option"

definition clamp :: "int \<Rightarrow> int \<Rightarrow> int \<Rightarrow> int" where
  "clamp lo hi x = (if x < lo then lo else if x > hi then hi else x)"

definition media_limit :: "i64 option \<Rightarrow> i64" where
  "media_limit l = clamp 1 100 (case l of None \<Rightarrow> 30 | Some n \<Rightarrow> n)"

definition list_media_handler ::
    "world \<Rightarrow> headers \<Rightarrow> uuid \<Rightarrow> media_query \<Rightarrow> (sys, app_error + json) prog" where
  "list_media_handler w hs cid q =
     bindE (authed w hs) (\<lambda>(me, _).
     bindE (dbq w (pg w (\<lambda>_. is_participant cid me))) (\<lambda>member.
     if \<not> member then Ret (Inl (NotFound ''conversation not found''))
     else
       bindE (dbq w (pg w (\<lambda>n. list_media (row_order w n) cid (mq_kind q) (mq_before q)
                (media_limit (mq_limit q))))) (\<lambda>(items, next_cursor).
       Ret (Inr (JObj [(''items'', JArr (map (media_json w) items)),
                       (''nextCursor'', jopt JInt next_cursor)])))))"

section \<open>Blobs\<close>

definition upload_blob :: "world \<Rightarrow> headers \<Rightarrow> bytes \<Rightarrow> (sys, app_error + json) prog" where
  "upload_blob w hs content =
     bindE (authed w hs) (\<lambda>_.
     if content = [] then Ret (Inl (BadRequest ''empty body''))
     else
       let content_type = (case Option.bind (map_of hs ''content-type'') (header_to_str w) of
             None \<Rightarrow> ''application/octet-stream'' | Some v \<Rightarrow> v)
       in bindE (dbq w (put_blob w content_type content)) (\<lambda>i.
          Ret (Inr (JObj [(''blobId'', juuid w i)]))))"

datatype blob_response =
    BlobContent string string bytes
  | BlobStatus nat

definition get_blob_handler :: "world \<Rightarrow> uuid \<Rightarrow> (sys, blob_response) prog" where
  "get_blob_handler w i =
     bind (pg w (\<lambda>_. get_blob i)) (\<lambda>r. Ret (case r of
       Inr (Some b) \<Rightarrow> BlobContent (bl_content_type b) ''public, max-age=31536000'' (bl_bytes b)
     | Inr None \<Rightarrow> BlobStatus 404
     | Inl _ \<Rightarrow> BlobStatus 500))"

lemmas media_handler_defs [prog_defs] = media_limit_def clamp_def list_media_handler_def
  upload_blob_def get_blob_handler_def

section \<open>Steps of the handlers\<close>

lemma safe_media_handlers [ok_intros]:
  "safe (list_media_handler w hs cid q)" "safe (upload_blob w hs content)" "safe (get_blob_handler w i)"
  unfolding list_media_handler_def upload_blob_def get_blob_handler_def
  by (auto intro!: ok_intros reads_db split: prod.splits)

lemma guar_media_handlers [guar_intros]:
  "guar same_db (list_media_handler w hs cid q)" "guar same_db (get_blob_handler w i)"
  unfolding list_media_handler_def get_blob_handler_def
  by (auto intro!: guar_intros reads_db split: prod.splits)

end
