(* ===== verification/Messaging_Handlers.thy ===== *)
theory Messaging_Handlers
  imports Media_Handlers
begin

text \<open>
  \<open>crates/server/src/messaging.rs\<close> and \<open>profile.rs\<close>: the user directory, sending, editing,
  deleting and listing messages, profiles, and the helpers that deliver events over the bus.
\<close>

section \<open>Events\<close>

definition envelope_of :: "world \<Rightarrow> string \<Rightarrow> json \<Rightarrow> (sys, envelope) prog" where
  "envelope_of w ty payload =
     bind (new_uuid w) (\<lambda>i.
     bind (now_utc w) (\<lambda>now.
     Ret \<lparr>env_v = 0, env_type = ty, env_id = i, env_ts = now, env_payload = payload\<rparr>))"

definition bus_publish :: "uuid \<Rightarrow> envelope \<Rightarrow> (sys, unit) prog" where
  "bus_publish device env = atomic (\<lambda>s. ((), s\<lparr>bus := publish device env (bus s)\<rparr>))"

definition deliver_to_account ::
    "world \<Rightarrow> uuid \<Rightarrow> envelope \<Rightarrow> uuid option \<Rightarrow> (sys, unit) prog" where
  "deliver_to_account w account env except_device =
     bind (pg w (\<lambda>n. list_devices_for_account (row_order w n) account)) (\<lambda>r.
     case r of
       Inl _ \<Rightarrow> Ret ()
     | Inr devs \<Rightarrow> for_each devs (\<lambda>d.
         if Some (dev_id d) = except_device then Ret () else bus_publish (dev_id d) env))"

text \<open>The devices come in the order of the hash map, which is unspecified.\<close>

definition broadcast_presence ::
    "world \<Rightarrow> uuid \<Rightarrow> bool \<Rightarrow> timestamp option \<Rightarrow> (sys, unit) prog" where
  "broadcast_presence w account is_on last_seen =
     bind (envelope_of w ''presence.update'' (JObj
        [(''userId'', juuid w account),
         (''online'', JBool is_on),
         (''lastSeen'', jopt (jtime w) last_seen)])) (\<lambda>env.
     bind (atomic (\<lambda>s. (connected_devices (row_order w (tick s)) (pres s), advance s))) (\<lambda>devs.
     for_each devs (\<lambda>d. bus_publish d env)))"

definition account_online :: "uuid \<Rightarrow> (sys, bool) prog" where
  "account_online account = look (\<lambda>s. is_online (pres s) account)"

section \<open>The user directory\<close>

definition user_json :: "world \<Rightarrow> user_row \<Rightarrow> bool \<Rightarrow> json" where
  "user_json w u is_on = JObj
     [(''userId'', juuid w (ur_id u)),
      (''username'', JStr (ur_username u)),
      (''displayName'', jopt JStr (ur_display_name u)),
      (''avatarBlobId'', jopt (juuid w) (ur_avatar_blob_id u)),
      (''online'', JBool is_on),
      (''lastSeen'', jopt (jtime w) (ur_last_seen u))]"

definition list_users_handler :: "world \<Rightarrow> headers \<Rightarrow> (sys, app_error + json) prog" where
  "list_users_handler w hs =
     bindE (authed w hs) (\<lambda>(me, _).
     bindE (dbq w (pg w (\<lambda>n. list_users (collate w) (row_order w n) me))) (\<lambda>users.
     bind (for_map (\<lambda>u. bind (account_online (ur_id u)) (\<lambda>on. Ret (user_json w u on))) users) (\<lambda>out.
     Ret (Inr (JArr out)))))"

definition lookup_user :: "world \<Rightarrow> headers \<Rightarrow> string \<Rightarrow> (sys, app_error + json) prog" where
  "lookup_user w hs username =
     bindE (authed w hs) (\<lambda>_.
     bindE (dbq w (pg w (\<lambda>_. find_user_by_username username))) (\<lambda>found.
     bindE (ok_or (NotFound ''no user with that username'') found) (\<lambda>u.
     bind (account_online (ur_id u)) (\<lambda>on.
     Ret (Inr (user_json w u on))))))"

definition conversation_json :: "world \<Rightarrow> convo_list_row \<Rightarrow> bool \<Rightarrow> json" where
  "conversation_json w r is_on = JObj
     [(''userId'', juuid w (cl_other r)),
      (''username'', JStr (cl_username r)),
      (''displayName'', jopt JStr (cl_display_name r)),
      (''avatarBlobId'', jopt (juuid w) (cl_avatar_blob_id r)),
      (''online'', JBool is_on),
      (''lastSeen'', jopt (jtime w) (cl_last_seen r)),
      (''conversationId'', juuid w (cl_cid r))]"

definition list_conversations :: "world \<Rightarrow> headers \<Rightarrow> (sys, app_error + json) prog" where
  "list_conversations w hs =
     bindE (authed w hs) (\<lambda>(me, _).
     bindE (dbq w (pg w (\<lambda>n. conversations_for (row_order w n) me))) (\<lambda>rows.
     bind (for_map (\<lambda>r. bind (account_online (cl_other r)) (\<lambda>on. Ret (conversation_json w r on))) rows) (\<lambda>items.
     Ret (Inr (JArr items)))))"

section \<open>Sending\<close>

record send_req =
  sr_to_username :: string
  sr_ciphertext :: string
  sr_attachment :: "attachment_meta option"
  sr_attachments :: "attachment_meta list option"
  sr_reply_to_message_id :: "string option"

text \<open>\<open>attachments.unwrap_or_default()\<close>, extended by the single attachment if it is empty.\<close>

definition all_attachments :: "send_req \<Rightarrow> attachment_meta list" where
  "all_attachments req =
     (let atts = (case sr_attachments req of None \<Rightarrow> [] | Some xs \<Rightarrow> xs)
      in if atts = [] then (case sr_attachment req of None \<Rightarrow> [] | Some x \<Rightarrow> [x]) else atts)"

definition parse_id :: "world \<Rightarrow> string option \<Rightarrow> uuid option" where
  "parse_id w v = Option.bind v (uuid_parse w)"

definition index_attachments ::
    "world \<Rightarrow> uuid \<Rightarrow> uuid \<Rightarrow> message \<Rightarrow> attachment_meta list \<Rightarrow> (sys, app_error + unit) prog" where
  "index_attachments w convo me msg atts =
     for_eachE atts (\<lambda>att. dbq w (record_media w convo (msg_id msg) me (msg_seq msg) (at_kind att)
       (parse_id w (at_blob_id att)) (parse_id w (at_thumb_blob_id att)) (at_mime att) (at_name att)
       (at_url att) (at_size att) (at_width att) (at_height att)))"

definition message_event ::
    "world \<Rightarrow> uuid \<Rightarrow> uuid \<Rightarrow> uuid \<Rightarrow> message \<Rightarrow> bytes \<Rightarrow> uuid option \<Rightarrow> json" where
  "message_event w convo me device msg content reply_to = JObj
     [(''conversationId'', juuid w convo),
      (''messageId'', juuid w (msg_id msg)),
      (''seq'', JInt (msg_seq msg)),
      (''senderAccountId'', juuid w me),
      (''senderDeviceId'', juuid w device),
      (''ciphertext'', JStr (b64_encode w content)),
      (''serverTs'', jtime w (msg_server_ts msg)),
      (''replyTo'', jopt (juuid w) reply_to)]"

definition deliver_message ::
    "world \<Rightarrow> uuid \<Rightarrow> uuid \<Rightarrow> uuid \<Rightarrow> envelope \<Rightarrow> (sys, unit) prog" where
  "deliver_message w me device target env =
     (if target = me then deliver_to_account w me env (Some device)
      else bind (deliver_to_account w target env None) (\<lambda>_.
           deliver_to_account w me env (Some device)))"

definition send_message :: "world \<Rightarrow> headers \<Rightarrow> send_req \<Rightarrow> (sys, app_error + json) prog" where
  "send_message w hs req =
     bindE (authed w hs) (\<lambda>(me, my_device).
     bindE (auth w (\<lambda>_. find_account_by_username (sr_to_username req))) (\<lambda>found.
     bindE (ok_or (NotFound ''user not found'') found) (\<lambda>target.
     bindE (ok_or (BadRequest ''ciphertext must be base64'') (b64_decode w (sr_ciphertext req))) (\<lambda>content.
     bindE (dbq w (dm_conversation w me (acc_id target))) (\<lambda>convo.
     let reply_to = parse_id w (sr_reply_to_message_id req) in
     bindE (dbq w (store_message w convo me my_device content reply_to)) (\<lambda>msg.
     bindE (index_attachments w convo me msg (all_attachments req)) (\<lambda>_.
     bind (envelope_of w ''message.new'' (message_event w convo me my_device msg content reply_to)) (\<lambda>env.
     bind (deliver_message w me my_device (acc_id target) env) (\<lambda>_.
     Ret (Inr (JObj [(''messageId'', juuid w (msg_id msg)),
                     (''seq'', JInt (msg_seq msg)),
                     (''serverTs'', jtime w (msg_server_ts msg)),
                     (''conversationId'', juuid w convo)])))))))))))"

section \<open>History\<close>

text \<open>The status of a message, from how far the peer has read and received.\<close>

definition message_status :: "uuid \<Rightarrow> i64 \<Rightarrow> i64 \<Rightarrow> message \<Rightarrow> string" where
  "message_status me peer_read peer_delivered m =
     (if msg_sender_account_id m = me then
        (if peer_read \<ge> msg_seq m then ''read''
         else if peer_delivered \<ge> msg_seq m then ''delivered''
         else ''sent'')
      else ''sent'')"

definition message_json :: "world \<Rightarrow> uuid \<Rightarrow> i64 \<Rightarrow> i64 \<Rightarrow> message \<Rightarrow> json" where
  "message_json w me peer_read peer_delivered m = JObj
     [(''messageId'', juuid w (msg_id m)),
      (''seq'', JInt (msg_seq m)),
      (''senderAccountId'', juuid w (msg_sender_account_id m)),
      (''senderDeviceId'', jopt (juuid w) (msg_sender_device_id m)),
      (''ciphertext'', JStr (b64_encode w (msg_ciphertext m))),
      (''serverTs'', jtime w (msg_server_ts m)),
      (''status'', JStr (message_status me peer_read peer_delivered m)),
      (''replyTo'', jopt (juuid w) (msg_reply_to m)),
      (''editedAt'', jopt (jtime w) (msg_edited_at m))]"

definition history_handler :: "world \<Rightarrow> headers \<Rightarrow> string \<Rightarrow> (sys, app_error + json) prog" where
  "history_handler w hs with_user =
     bindE (authed w hs) (\<lambda>(me, _).
     bindE (auth w (\<lambda>_. find_account_by_username with_user)) (\<lambda>found.
     bindE (ok_or (NotFound ''user not found'') found) (\<lambda>target.
     bindE (dbq w (dm_conversation w me (acc_id target))) (\<lambda>convo.
     bindE (dbq w (pg w (\<lambda>_. read_seq convo (acc_id target)))) (\<lambda>peer_read.
     bindE (dbq w (pg w (\<lambda>_. delivered_seq convo (acc_id target)))) (\<lambda>peer_delivered.
     bindE (dbq w (pg w (\<lambda>_. history convo me))) (\<lambda>msgs.
     Ret (Inr (JObj [(''conversationId'', juuid w convo),
                     (''withUserId'', juuid w (acc_id target)),
                     (''messages'', JArr (map (message_json w me peer_read peer_delivered) msgs))])))))))))"

section \<open>Editing and deleting\<close>

definition deliver_to_conversation ::
    "world \<Rightarrow> uuid \<Rightarrow> envelope \<Rightarrow> uuid \<Rightarrow> uuid \<Rightarrow> (sys, unit) prog" where
  "deliver_to_conversation w cid env actor actor_device =
     bind (pg w (\<lambda>n. conversation_member_ids (row_order w n) cid)) (\<lambda>r.
     case r of
       Inl _ \<Rightarrow> Ret ()
     | Inr members \<Rightarrow> for_each members (\<lambda>m.
         deliver_to_account w m env (if m = actor then Some actor_device else None)))"

definition edit_message_handler ::
    "world \<Rightarrow> headers \<Rightarrow> string \<Rightarrow> string \<Rightarrow> (sys, app_error + json) prog" where
  "edit_message_handler w hs path_id ciphertext =
     bindE (authed w hs) (\<lambda>(me, my_device).
     bindE (ok_or (BadRequest ''bad message id'') (uuid_parse w path_id)) (\<lambda>mid.
     bindE (ok_or (BadRequest ''ciphertext must be base64'') (b64_decode w ciphertext)) (\<lambda>content.
     bindE (dbq w (pg w (\<lambda>n. edit_message (pg_now w n) mid me content))) (\<lambda>row.
     case row of
       None \<Rightarrow> Ret (Inl (NotFound ''no such message you can edit''))
     | Some (cid, _, edited_at) \<Rightarrow>
         bind (envelope_of w ''message.edited'' (JObj
            [(''conversationId'', juuid w cid),
             (''messageId'', juuid w mid),
             (''ciphertext'', JStr (b64_encode w content)),
             (''editedAt'', jtime w edited_at)])) (\<lambda>env.
         bind (deliver_to_conversation w cid env me my_device) (\<lambda>_.
         Ret (Inr (JObj [(''messageId'', juuid w mid), (''editedAt'', jtime w edited_at)]))))))))"

definition delete_message_handler ::
    "world \<Rightarrow> headers \<Rightarrow> string \<Rightarrow> string option \<Rightarrow> (sys, app_error + json) prog" where
  "delete_message_handler w hs path_id scope =
     bindE (authed w hs) (\<lambda>(me, my_device).
     bindE (ok_or (BadRequest ''bad message id'') (uuid_parse w path_id)) (\<lambda>mid.
     if scope = Some ''me'' then
       bindE (dbq w (pg w (\<lambda>_. hide_message_for mid me))) (\<lambda>_.
       Ret (Inr (JObj [(''messageId'', juuid w mid), (''hidden'', JBool True)])))
     else
       bindE (dbq w (delete_message w mid me)) (\<lambda>row.
       case row of
         None \<Rightarrow> Ret (Inl (NotFound ''no such message you can delete''))
       | Some (cid, _) \<Rightarrow>
           bind (envelope_of w ''message.deleted'' (JObj
              [(''conversationId'', juuid w cid), (''messageId'', juuid w mid)])) (\<lambda>env.
           bind (deliver_to_conversation w cid env me my_device) (\<lambda>_.
           Ret (Inr (JObj [(''messageId'', juuid w mid), (''deleted'', JBool True)])))))))"

section \<open>Profiles\<close>

definition profile_json :: "world \<Rightarrow> uuid \<Rightarrow> string \<Rightarrow> (sys, app_error + json) prog" where
  "profile_json w account username =
     bindE (dbq w (pg w (\<lambda>_. get_profile account))) (\<lambda>p.
     bind (account_online account) (\<lambda>on.
     Ret (Inr (JObj
       [(''userId'', juuid w account),
        (''username'', JStr username),
        (''displayName'', jopt JStr (pr_display_name p)),
        (''bio'', jopt JStr (pr_bio p)),
        (''avatarBlobId'', jopt (juuid w) (pr_avatar_blob_id p)),
        (''online'', JBool on),
        (''lastSeen'', jopt (jtime w) (pr_last_seen p))]))))"

definition get_my_profile :: "world \<Rightarrow> headers \<Rightarrow> (sys, app_error + json) prog" where
  "get_my_profile w hs =
     bindE (authed w hs) (\<lambda>(me, _).
     bindE (dbq w (pg w (\<lambda>_. username_of me))) (\<lambda>username.
     profile_json w me username))"

definition get_profile_handler :: "world \<Rightarrow> headers \<Rightarrow> string \<Rightarrow> (sys, app_error + json) prog" where
  "get_profile_handler w hs username =
     bindE (authed w hs) (\<lambda>_.
     bindE (auth w (\<lambda>_. find_account_by_username username)) (\<lambda>found.
     bindE (ok_or (NotFound ''no such user'') found) (\<lambda>acc.
     profile_json w (acc_id acc) (acc_username acc))))"

record update_profile_req =
  up_display_name :: "string option"
  up_bio :: "string option"
  up_avatar_blob_id :: "string option"

text \<open>An absent field leaves the value unchanged, a blank one clears it.\<close>

definition text_field :: "string option \<Rightarrow> string option \<Rightarrow> string option" where
  "text_field requested current =
     (case requested of
        None \<Rightarrow> current
      | Some d \<Rightarrow> if trim_is_empty d then None else Some d)"

definition avatar_field :: "world \<Rightarrow> string option \<Rightarrow> uuid option \<Rightarrow> uuid option" where
  "avatar_field w requested current =
     (case requested of
        None \<Rightarrow> current
      | Some a \<Rightarrow> if a = [] then None else uuid_parse w a)"

definition profile_event :: "world \<Rightarrow> uuid \<Rightarrow> string \<Rightarrow> profile \<Rightarrow> json" where
  "profile_event w me username p = JObj
     [(''userId'', juuid w me),
      (''username'', JStr username),
      (''displayName'', jopt JStr (pr_display_name p)),
      (''bio'', jopt JStr (pr_bio p)),
      (''avatarBlobId'', jopt (juuid w) (pr_avatar_blob_id p))]"

definition update_profile ::
    "world \<Rightarrow> headers \<Rightarrow> update_profile_req \<Rightarrow> (sys, app_error + json) prog" where
  "update_profile w hs req =
     bindE (authed w hs) (\<lambda>(me, _).
     bindE (dbq w (pg w (\<lambda>_. get_profile me))) (\<lambda>cur.
     let display = text_field (up_display_name req) (pr_display_name cur);
         bio = text_field (up_bio req) (pr_bio cur);
         avatar = avatar_field w (up_avatar_blob_id req) (pr_avatar_blob_id cur) in
     bindE (dbq w (pg w (\<lambda>_. upsert_profile me display bio avatar))) (\<lambda>_.
     bindE (dbq w (pg w (\<lambda>_. username_of me))) (\<lambda>username.
     bindE (dbq w (pg w (\<lambda>_. get_profile me))) (\<lambda>p.
     bind (envelope_of w ''profile.update'' (profile_event w me username p)) (\<lambda>env.
     bind (pg w (\<lambda>n. conversations_for (row_order w n) me)) (\<lambda>convos.
     bind (case convos of
             Inl _ \<Rightarrow> Ret ()
           | Inr rows \<Rightarrow> for_each rows (\<lambda>r. deliver_to_account w (cl_other r) env None)) (\<lambda>_.
     bind (deliver_to_account w me env None) (\<lambda>_.
     profile_json w me username)))))))))"

section \<open>Steps of the handlers\<close>

lemma safe_bus_publish [ok_intros]: "safe (bus_publish d env)"
  unfolding bus_publish_def by (rule safe_atomic_other) simp

lemma guar_bus_publish [guar_intros]: "guar same_db (bus_publish d env)"
  unfolding bus_publish_def by (rule guar_atomic) (simp add: same_db_def)

lemma safe_events [ok_intros]:
  "safe (envelope_of w ty p)" "safe (deliver_to_account w a env ex)"
  "safe (broadcast_presence w a b ls)" "safe (account_online a)"
  unfolding envelope_of_def deliver_to_account_def broadcast_presence_def account_online_def
  by (auto intro!: ok_intros reads_auth safe_atomic_advance split: sum.splits)

lemma guar_events [guar_intros]:
  "guar same_db (envelope_of w ty p)" "guar same_db (deliver_to_account w a env ex)"
  "guar same_db (broadcast_presence w a b ls)" "guar same_db (account_online a)"
  unfolding envelope_of_def deliver_to_account_def broadcast_presence_def account_online_def
  by (auto intro!: guar_intros reads_auth simp: same_db_def split: sum.splits)

lemma safe_delivery [ok_intros]:
  "safe (deliver_message w me dv target env)" "safe (deliver_to_conversation w cid env actor dv)"
  unfolding deliver_message_def deliver_to_conversation_def
  by (auto intro!: ok_intros reads_db split: sum.splits)

lemma guar_delivery [guar_intros]:
  "guar same_db (deliver_message w me dv target env)"
  "guar same_db (deliver_to_conversation w cid env actor dv)"
  unfolding deliver_message_def deliver_to_conversation_def
  by (auto intro!: guar_intros reads_db split: sum.splits)

lemma safe_directory [ok_intros]:
  "safe (list_users_handler w hs)" "safe (lookup_user w hs u)" "safe (list_conversations w hs)"
  "safe (history_handler w hs u)"
  unfolding list_users_handler_def lookup_user_def list_conversations_def history_handler_def
  by (auto intro!: ok_intros reads_db reads_auth split: prod.splits)

lemma safe_message_actions [ok_intros]:
  "safe (edit_message_handler w hs i ct)" "safe (delete_message_handler w hs i sc)"
  unfolding edit_message_handler_def delete_message_handler_def
  by (auto intro!: ok_intros split: prod.splits option.splits)

lemma safe_profiles [ok_intros]:
  "safe (profile_json w a u)" "safe (get_my_profile w hs)" "safe (get_profile_handler w hs u)"
  "safe (update_profile w hs req)"
  unfolding get_my_profile_def get_profile_handler_def update_profile_def profile_json_def Let_def
  by (auto intro!: ok_intros reads_db reads_auth split: prod.splits sum.splits)

lemma guar_directory [guar_intros]:
  "guar same_db (list_users_handler w hs)" "guar same_db (lookup_user w hs u)"
  "guar same_db (list_conversations w hs)" "guar same_db (get_my_profile w hs)"
  "guar same_db (get_profile_handler w hs u)"
  unfolding list_users_handler_def lookup_user_def list_conversations_def get_my_profile_def
    get_profile_handler_def profile_json_def
  by (auto intro!: guar_intros reads_db reads_auth split: prod.splits)

lemma spec_index_attachments:
  assumes "msg_conversation_id m = cid" "msg_sender_account_id m = me"
  shows "spec (stored m) (index_attachments w cid me m atts) (\<lambda>_. stored m)"
  unfolding index_attachments_def
proof (induction atts)
  case Nil
  show ?case by (auto intro: spec_Ret)
next
  case (Cons att atts)
  have "spec (stored m) (dbq w (record_media w cid (msg_id m) me (msg_seq m) (at_kind att)
       (parse_id w (at_blob_id att)) (parse_id w (at_thumb_blob_id att)) (at_mime att) (at_name att)
       (at_url att) (at_size att) (at_width att) (at_height att))) (\<lambda>_. stored m)"
    using spec_frame [OF spec_record_media [of m cid "msg_id m" me "msg_seq m"] stable_stored] assms
    by (intro spec_dbq) auto
  then show ?case using Cons by (auto intro: spec_bindE)
qed

lemma safe_send_message [ok_intros]: "safe (send_message w hs req)"
proof -
  have stored: "spec (in_dm convo me) (bindE (dbq w (store_message w convo me dv content rt)) (\<lambda>msg.
       bindE (index_attachments w convo me msg atts) (\<lambda>_. k msg))) (\<lambda>_ _. True)"
    if "\<And>msg. safe (k msg)" for convo me dv content rt atts
      and k :: "message \<Rightarrow> (sys, app_error + json) prog"
  proof (rule spec_bindE [OF spec_dbq [OF spec_store_message]])
    fix msg
    have "spec (\<lambda>_. True) (k msg) (\<lambda>_ _. True)" using that by (simp add: safe_iff_spec)
    then have k: "spec (stored msg) (k msg) (\<lambda>_ _. True)" by (rule spec_weaken) simp_all
    show "spec (\<lambda>s. stored msg s \<and> message_for convo me dv content rt msg)
        (bindE (index_attachments w convo me msg atts) (\<lambda>_. k msg)) (\<lambda>_ _. True)"
    proof (cases "message_for convo me dv content rt msg")
      case True
      then have "msg_conversation_id msg = convo" "msg_sender_account_id msg = me"
        by (auto simp: message_for_def new_message_def)
      then show ?thesis
        by (intro spec_weaken [OF spec_bindE [OF spec_index_attachments k]]) auto
    next
      case False
      then show ?thesis by (simp add: spec_def)
    qed
  qed (intro stable_conj stable_stored stable_const)
  show ?thesis
    unfolding send_message_def Let_def
    by (auto intro!: ok_intros reads_auth safe_bindE_spec [OF spec_dbq [OF spec_dm_conversation]]
       spec_weaken [OF stored] dest: dm_row_in_dm_pair split: prod.splits)
qed

lemmas messaging_defs [prog_defs] = envelope_of_def bus_publish_def deliver_to_account_def
  all_attachments_def parse_id_def index_attachments_def deliver_message_def send_message_def
  history_handler_def deliver_to_conversation_def edit_message_handler_def delete_message_handler_def
  profile_json_def get_my_profile_def get_profile_handler_def text_field_def avatar_field_def
  update_profile_def account_online_def

end
