(* ===== verification/Serde.thy ===== *)
theory Serde
  imports Schema
begin

text \<open>
  The JSON form of the types in \<open>crates/protocol\<close>. \<open>derive(Serialize, Deserialize)\<close> is determined
  by the type and its \<open>serde\<close> attributes; the first section states what \<open>serde\<close> documents for the
  attributes the sources use, the second one gives the two directions for every type, field by
  field. Text (the parser and printer of \<open>serde_json\<close>) is outside: an object is the list of its
  members in the order of the text, so that a repeated member can be refused as \<open>serde\<close> does.
\<close>

section \<open>Derived deserialisers\<close>

text \<open>
  A struct is read from an object, in which unknown members are ignored and none of its fields
  may occur twice, or from an array with one element per field.
\<close>

fun struct_of :: "string list \<Rightarrow> json \<Rightarrow> (string \<rightharpoonup> json) option" where
  "struct_of names (JObj kvs) =
     (if distinct (filter (\<lambda>k. k \<in> set names) (map fst kvs)) then Some (map_of kvs) else None)"
| "struct_of names (JArr vs) =
     (if length vs = length names then Some (map_of (zip names vs)) else None)"
| "struct_of names _ = None"

definition required :: "(json \<Rightarrow> 'a option) \<Rightarrow> (string \<rightharpoonup> json) \<Rightarrow> string \<Rightarrow> 'a option" where
  "required de fs k = Option.bind (fs k) de"

text \<open>A field of type \<open>Option\<close> may be missing or \<open>null\<close>.\<close>

definition de_option :: "(json \<Rightarrow> 'a option) \<Rightarrow> json \<Rightarrow> 'a option option" where
  "de_option de v = (if v = JNull then Some None else map_option Some (de v))"

definition optional :: "(json \<Rightarrow> 'a option) \<Rightarrow> (string \<rightharpoonup> json) \<Rightarrow> string \<Rightarrow> 'a option option" where
  "optional de fs k = (case fs k of None \<Rightarrow> Some None | Some v \<Rightarrow> de_option de v)"

fun de_string :: "json \<Rightarrow> string option" where
  "de_string (JStr s) = Some s"
| "de_string _ = None"

text \<open>Integers are read from integers in range; a number with a fraction is refused.\<close>

fun de_i64 :: "json \<Rightarrow> i64 option" where
  "de_i64 (JInt i) = (if - i64_max - 1 \<le> i \<and> i \<le> i64_max then Some i else None)"
| "de_i64 _ = None"

fun de_u32 :: "json \<Rightarrow> u32 option" where
  "de_u32 (JInt i) = (if 0 \<le> i \<and> i < 2 ^ 32 then Some (word_of_int i) else None)"
| "de_u32 _ = None"

fun de_u64 :: "json \<Rightarrow> 64 word option" where
  "de_u64 (JInt i) = (if 0 \<le> i \<and> i < 2 ^ 64 then Some (word_of_int i) else None)"
| "de_u64 _ = None"

fun de_vec :: "(json \<Rightarrow> 'a option) \<Rightarrow> json \<Rightarrow> 'a list option" where
  "de_vec de (JArr vs) = those (map de vs)"
| "de_vec de _ = None"

fun de_uuid :: "world \<Rightarrow> json \<Rightarrow> uuid option" where
  "de_uuid w (JStr s) = uuid_parse w s"
| "de_uuid w _ = None"

text \<open>A codec: a printer and a reader that takes back what the printer makes of valid values.\<close>

locale codec =
  fixes ser :: "'a \<Rightarrow> json" and de :: "json \<Rightarrow> 'a option" and valid :: "'a \<Rightarrow> bool"
  assumes de_ser: "valid x \<Longrightarrow> de (ser x) = Some x"
begin

lemma ser_inj: "valid x \<Longrightarrow> valid y \<Longrightarrow> ser x = ser y \<Longrightarrow> x = y"
  using de_ser by (metis option.inject)

lemma required_ser: "fs k = Some (ser x) \<Longrightarrow> valid x \<Longrightarrow> required de fs k = Some x"
  by (simp add: required_def de_ser)

lemma vec_ser: "list_all valid xs \<Longrightarrow> de_vec de (JArr (map ser xs)) = Some xs"
  by (induction xs) (simp_all add: de_ser)

end

interpretation str: codec JStr de_string "\<lambda>_. True"
  by unfold_locales simp

interpretation i64: codec JInt de_i64 "\<lambda>i. - i64_max - 1 \<le> i \<and> i \<le> i64_max"
  by unfold_locales simp

lemma uint_below [simp]: "uint (n :: u32) < 4294967296" "uint (m :: 64 word) < 18446744073709551616"
  using uint_lt2p [of n] uint_lt2p [of m] by simp_all

interpretation u32: codec "\<lambda>n. JInt (uint n)" de_u32 "\<lambda>_. True"
  by unfold_locales simp

interpretation u64: codec "\<lambda>n. JInt (uint n)" de_u64 "\<lambda>_. True"
  by unfold_locales simp

section \<open>Capabilities and handshake frames\<close>

fun capability_of :: "string \<Rightarrow> capability option" where
  "capability_of s =
     List.find (\<lambda>c. capability_name c = s) [Messaging, Receipts, Typing, Presence, Media, Groups, Calls, Mls]"

text \<open>A unit variant is read from its name, or from an object that maps the name to \<open>null\<close>.\<close>

fun de_capability :: "json \<Rightarrow> capability option" where
  "de_capability (JStr s) = capability_of s"
| "de_capability (JObj [(s, JNull)]) = capability_of s"
| "de_capability _ = None"

interpretation cap: codec "\<lambda>c. JStr (capability_name c)" de_capability "\<lambda>_. True"
proof unfold_locales
  show "de_capability (JStr (capability_name c)) = Some c" for c
    by (cases c) simp_all
qed

definition hello_json :: "hello \<Rightarrow> json" where
  "hello_json h = JObj
     [(''client'', JStr (hello_client h)),
      (''v'', JInt (uint (hello_v h))),
      (''capabilities'', JArr (map (\<lambda>c. JStr (capability_name c)) (hello_capabilities h)))]"

definition de_hello :: "json \<Rightarrow> hello option" where
  "de_hello v =
     Option.bind (struct_of [''client'', ''v'', ''capabilities''] v) (\<lambda>fs.
     Option.bind (required de_string fs ''client'') (\<lambda>client.
     Option.bind (required de_u32 fs ''v'') (\<lambda>ver.
     Option.bind (required (de_vec de_capability) fs ''capabilities'') (\<lambda>caps.
     Some \<lparr>hello_client = client, hello_v = ver, hello_capabilities = caps\<rparr>))))"

definition limits_json :: "limits \<Rightarrow> json" where
  "limits_json l = JObj
     [(''maxUploadBytes'', JInt (uint (max_upload_bytes l))),
      (''maxGroupSize'', JInt (uint (max_group_size l)))]"

definition de_limits :: "json \<Rightarrow> limits option" where
  "de_limits v =
     Option.bind (struct_of [''maxUploadBytes'', ''maxGroupSize''] v) (\<lambda>fs.
     Option.bind (required de_u64 fs ''maxUploadBytes'') (\<lambda>up.
     Option.bind (required de_u32 fs ''maxGroupSize'') (\<lambda>gr.
     Some \<lparr>max_upload_bytes = up, max_group_size = gr\<rparr>)))"

definition welcome_json :: "welcome_frame \<Rightarrow> json" where
  "welcome_json f = JObj
     [(''server'', JStr (welcome_server f)),
      (''v'', JInt (uint (welcome_v f))),
      (''capabilities'', JArr (map (\<lambda>c. JStr (capability_name c)) (welcome_capabilities f))),
      (''limits'', limits_json (welcome_limits f))]"

definition de_welcome :: "json \<Rightarrow> welcome_frame option" where
  "de_welcome v =
     Option.bind (struct_of [''server'', ''v'', ''capabilities'', ''limits''] v) (\<lambda>fs.
     Option.bind (required de_string fs ''server'') (\<lambda>server.
     Option.bind (required de_u32 fs ''v'') (\<lambda>ver.
     Option.bind (required (de_vec de_capability) fs ''capabilities'') (\<lambda>caps.
     Option.bind (required de_limits fs ''limits'') (\<lambda>lims.
     Some \<lparr>welcome_server = server, welcome_v = ver, welcome_capabilities = caps, welcome_limits = lims\<rparr>)))))"

text \<open>The time of an envelope is printed by \<open>time::serde::rfc3339\<close>, which can fail.\<close>

definition envelope_json :: "world \<Rightarrow> envelope \<Rightarrow> json option" where
  "envelope_json w e =
     Option.bind (rfc3339_format w (env_ts e)) (\<lambda>ts.
     Some (JObj [(''v'', JInt (uint (env_v e))), (''type'', JStr (env_type e)),
       (''id'', JStr (uuid_str w (env_id e))), (''ts'', JStr ts), (''payload'', env_payload e)]))"

definition de_envelope :: "world \<Rightarrow> json \<Rightarrow> envelope option" where
  "de_envelope w v =
     Option.bind (struct_of [''v'', ''type'', ''id'', ''ts'', ''payload''] v) (\<lambda>fs.
     Option.bind (required de_u32 fs ''v'') (\<lambda>ver.
     Option.bind (required de_string fs ''type'') (\<lambda>ty.
     Option.bind (required (de_uuid w) fs ''id'') (\<lambda>i.
     Option.bind (Option.bind (required de_string fs ''ts'') (rfc3339_parse w)) (\<lambda>ts.
     Option.bind (required Some fs ''payload'') (\<lambda>payload.
     Some \<lparr>env_v = ver, env_type = ty, env_id = i, env_ts = ts, env_payload = payload\<rparr>))))))"

section \<open>REST bodies\<close>

definition device_registration_json :: "device_registration \<Rightarrow> json" where
  "device_registration_json r = JObj
     [(''displayName'', JStr (reg_display_name r)), (''publicIdentity'', JStr (reg_public_identity r))]"

definition de_device_registration :: "json \<Rightarrow> device_registration option" where
  "de_device_registration v =
     Option.bind (struct_of [''displayName'', ''publicIdentity''] v) (\<lambda>fs.
     Option.bind (required de_string fs ''displayName'') (\<lambda>name.
     Option.bind (required de_string fs ''publicIdentity'') (\<lambda>identity.
     Some \<lparr>reg_display_name = name, reg_public_identity = identity\<rparr>)))"

definition register_request_json :: "register_request \<Rightarrow> json" where
  "register_request_json r = JObj
     [(''username'', JStr (rr_username r)), (''password'', JStr (rr_password r)),
      (''device'', device_registration_json (rr_device r))]"

definition de_register_request :: "json \<Rightarrow> register_request option" where
  "de_register_request v =
     Option.bind (struct_of [''username'', ''password'', ''device''] v) (\<lambda>fs.
     Option.bind (required de_string fs ''username'') (\<lambda>u.
     Option.bind (required de_string fs ''password'') (\<lambda>p.
     Option.bind (required de_device_registration fs ''device'') (\<lambda>dv.
     Some \<lparr>rr_username = u, rr_password = p, rr_device = dv\<rparr>))))"

definition login_request_json :: "login_request \<Rightarrow> json" where
  "login_request_json r = JObj
     [(''username'', JStr (lr_username r)), (''password'', JStr (lr_password r)),
      (''device'', device_registration_json (lr_device r))]"

definition de_login_request :: "json \<Rightarrow> login_request option" where
  "de_login_request v =
     Option.bind (struct_of [''username'', ''password'', ''device''] v) (\<lambda>fs.
     Option.bind (required de_string fs ''username'') (\<lambda>u.
     Option.bind (required de_string fs ''password'') (\<lambda>p.
     Option.bind (required de_device_registration fs ''device'') (\<lambda>dv.
     Some \<lparr>lr_username = u, lr_password = p, lr_device = dv\<rparr>))))"

definition refresh_request_json :: "refresh_request \<Rightarrow> json" where
  "refresh_request_json r = JObj [(''refreshToken'', JStr (rf_refresh_token r))]"

definition de_refresh_request :: "json \<Rightarrow> refresh_request option" where
  "de_refresh_request v =
     Option.bind (struct_of [''refreshToken''] v) (\<lambda>fs.
     Option.bind (required de_string fs ''refreshToken'') (\<lambda>r.
     Some \<lparr>rf_refresh_token = r\<rparr>))"

definition tokens_json :: "token_pair \<Rightarrow> json" where
  "tokens_json t = JObj [(''accessToken'', JStr (access_token t)),
     (''refreshToken'', JStr (refresh_token t)), (''expiresIn'', JInt (expires_in t))]"

definition de_tokens :: "json \<Rightarrow> token_pair option" where
  "de_tokens v =
     Option.bind (struct_of [''accessToken'', ''refreshToken'', ''expiresIn''] v) (\<lambda>fs.
     Option.bind (required de_string fs ''accessToken'') (\<lambda>a.
     Option.bind (required de_string fs ''refreshToken'') (\<lambda>r.
     Option.bind (required de_i64 fs ''expiresIn'') (\<lambda>e.
     Some \<lparr>access_token = a, refresh_token = r, expires_in = e\<rparr>))))"

definition session_json :: "world \<Rightarrow> auth_session \<Rightarrow> json" where
  "session_json w a = JObj [(''accountId'', JStr (uuid_str w (as_account_id a))),
     (''deviceId'', JStr (uuid_str w (as_device_id a))), (''tokens'', tokens_json (as_tokens a))]"

definition de_session :: "world \<Rightarrow> json \<Rightarrow> auth_session option" where
  "de_session w v =
     Option.bind (struct_of [''accountId'', ''deviceId'', ''tokens''] v) (\<lambda>fs.
     Option.bind (required (de_uuid w) fs ''accountId'') (\<lambda>a.
     Option.bind (required (de_uuid w) fs ''deviceId'') (\<lambda>dv.
     Option.bind (required de_tokens fs ''tokens'') (\<lambda>t.
     Some \<lparr>as_account_id = a, as_device_id = dv, as_tokens = t\<rparr>))))"

definition api_error_json :: "api_error \<Rightarrow> json" where
  "api_error_json e = JObj [(''code'', JStr (err_code e)), (''message'', JStr (err_message e))]"

definition de_api_error :: "json \<Rightarrow> api_error option" where
  "de_api_error v =
     Option.bind (struct_of [''code'', ''message''] v) (\<lambda>fs.
     Option.bind (required de_string fs ''code'') (\<lambda>c.
     Option.bind (required de_string fs ''message'') (\<lambda>m.
     Some \<lparr>err_code = c, err_message = m\<rparr>)))"

section \<open>Round trips\<close>

text \<open>What the server relies on: the \<open>uuid\<close> and \<open>time\<close> crates read back what they print.\<close>

definition prints_back :: "world \<Rightarrow> bool" where
  "prints_back w \<longleftrightarrow> (\<forall>u. uuid_parse w (uuid_str w u) = Some u)
     \<and> (\<forall>t s. rfc3339_format w t = Some s \<longrightarrow> rfc3339_parse w s = Some t)"

lemma vec_caps [simp]: "de_vec de_capability (JArr (map (\<lambda>c. JStr (capability_name c)) cs)) = Some cs"
  by (rule cap.vec_ser) (simp add: list_all_def)

declare de_vec.simps [simp del] capability_of.simps [simp del] required_def [simp]

interpretation lim: codec limits_json de_limits "\<lambda>_. True"
  by unfold_locales (simp add: limits_json_def de_limits_def)

interpretation hel: codec hello_json de_hello "\<lambda>_. True"
  by unfold_locales (simp add: hello_json_def de_hello_def)

interpretation wel: codec welcome_json de_welcome "\<lambda>_. True"
  by unfold_locales (simp add: welcome_json_def de_welcome_def lim.de_ser)

interpretation dre: codec device_registration_json de_device_registration "\<lambda>_. True"
  by unfold_locales (simp add: device_registration_json_def de_device_registration_def)

interpretation rre: codec register_request_json de_register_request "\<lambda>_. True"
  by unfold_locales (simp add: register_request_json_def de_register_request_def dre.de_ser)

interpretation lre: codec login_request_json de_login_request "\<lambda>_. True"
  by unfold_locales (simp add: login_request_json_def de_login_request_def dre.de_ser)

interpretation rfr: codec refresh_request_json de_refresh_request "\<lambda>_. True"
  by unfold_locales (simp add: refresh_request_json_def de_refresh_request_def)

interpretation tok: codec tokens_json de_tokens "\<lambda>t. - i64_max - 1 \<le> expires_in t \<and> expires_in t \<le> i64_max"
  by unfold_locales (simp add: tokens_json_def de_tokens_def)

interpretation ape: codec api_error_json de_api_error "\<lambda>_. True"
  by unfold_locales (simp add: api_error_json_def de_api_error_def)

lemma codec_session:
  assumes "prints_back w"
  shows "codec (session_json w) (de_session w)
     (\<lambda>a. - i64_max - 1 \<le> expires_in (as_tokens a) \<and> expires_in (as_tokens a) \<le> i64_max)"
  by unfold_locales (use assms in \<open>simp add: session_json_def de_session_def tok.de_ser prints_back_def\<close>)

lemma envelope_round_trip:
  "prints_back w \<Longrightarrow> envelope_json w e = Some j \<Longrightarrow> de_envelope w j = Some e"
  by (auto simp: envelope_json_def de_envelope_def prints_back_def bind_eq_Some_conv)


text \<open>A world that prints times as unary numbers.\<close>

definition print_world :: world where
  "print_world = demo_world\<lparr>
     rfc3339_format := (\<lambda>t. if 0 \<le> t then Some (replicate (nat t) CHR ''t'') else None),
     rfc3339_parse := (\<lambda>s. Some (int (length s)))\<rparr>"


end
