(* ===== verification/Ws_Handlers.thy ===== *)
theory Ws_Handlers
  imports Messaging_Handlers Serde
begin

text \<open>
  \<open>crates/server/src/ws.rs\<close>: the WebSocket endpoint. What happens on a connection is given by the
  list of outcomes of the \<open>select!\<close> in its loop: \<open>recv\<close> on the bus is ready, with whether sending
  on succeeds, or something is received from the socket. Parsing of an incoming frame
  (\<open>serde_json::from_str::<Inbound>\<close>) is the parameter \<open>parse\<close>.
\<close>

record inbound =
  in_type :: string
  in_to :: "string option"
  in_message_id :: "string option"
  in_emoji :: "string option"
  in_up_to_seq :: "i64 option"
  in_activity :: "string option"
  in_from :: "string option"
  in_call_id :: "string option"
  in_media :: "string option"
  in_sdp :: "json option"
  in_candidate :: "json option"

section \<open>Inbound frames\<close>

definition receipt_marks :: "world \<Rightarrow> string \<Rightarrow> uuid \<Rightarrow> uuid \<Rightarrow> (sys, unit) prog" where
  "receipt_marks w ty convo account =
     (if ty = ''receipt.delivered'' then
        bind (pg w (\<lambda>_. mark_delivered convo account)) (\<lambda>_. Ret ())
      else if ty = ''receipt.read'' then
        bind (pg w (\<lambda>_. mark_delivered convo account)) (\<lambda>_.
        bind (pg w (\<lambda>_. mark_read convo account)) (\<lambda>_. Ret ()))
      else Ret ())"

definition call_types :: "string list" where
  "call_types = [''call.invite'', ''call.answer'', ''call.ice'', ''call.decline'', ''call.hangup'',
     ''call.busy'']"

definition inbound_payload :: "world \<Rightarrow> inbound \<Rightarrow> uuid \<Rightarrow> uuid \<Rightarrow> json option" where
  "inbound_payload w msg convo account =
     (let ty = in_type msg in
      if ty = ''typing.start'' \<or> ty = ''typing.stop'' then
        Some (JObj [(''conversationId'', juuid w convo), (''byUserId'', juuid w account),
                    (''activity'', jopt JStr (in_activity msg))])
      else if ty = ''receipt.delivered'' then
        Some (JObj [(''conversationId'', juuid w convo), (''byUserId'', juuid w account)])
      else if ty = ''receipt.read'' then
        Some (JObj [(''conversationId'', juuid w convo), (''byUserId'', juuid w account),
                    (''upToSeq'', jopt JInt (in_up_to_seq msg))])
      else if ty = ''reaction'' then
        Some (JObj [(''conversationId'', juuid w convo), (''byUserId'', juuid w account),
                    (''messageId'', jopt JStr (in_message_id msg)), (''emoji'', jopt JStr (in_emoji msg))])
      else if ty \<in> set call_types then
        Some (JObj [(''conversationId'', juuid w convo), (''fromUserId'', juuid w account),
                    (''from'', jopt JStr (in_from msg)), (''callId'', jopt JStr (in_call_id msg)),
                    (''media'', jopt JStr (in_media msg)), (''sdp'', jopt (\<lambda>v. v) (in_sdp msg)),
                    (''candidate'', jopt (\<lambda>v. v) (in_candidate msg))])
      else None)"

definition handle_inbound ::
    "world \<Rightarrow> (string \<Rightarrow> inbound option) \<Rightarrow> uuid \<Rightarrow> string \<Rightarrow> (sys, unit) prog" where
  "handle_inbound w parse account txt =
     (case parse txt of
        None \<Rightarrow> Ret ()
      | Some msg \<Rightarrow>
          (case in_to msg of
             None \<Rightarrow> Ret ()
           | Some to \<Rightarrow>
               bind (pg w (\<lambda>_. find_account_by_username to)) (\<lambda>r.
               case r of
                 Inr (Some target) \<Rightarrow>
                   bind (dm_conversation w account (acc_id target)) (\<lambda>c.
                   case c of
                     Inl _ \<Rightarrow> Ret ()
                   | Inr convo \<Rightarrow>
                       bind (receipt_marks w (in_type msg) convo account) (\<lambda>_.
                       case inbound_payload w msg convo account of
                         None \<Rightarrow> Ret ()
                       | Some payload \<Rightarrow>
                           bind (envelope_of w (in_type msg) payload) (\<lambda>env.
                           deliver_to_account w (acc_id target) env None)))
               | _ \<Rightarrow> Ret ())))"

section \<open>Presence updates\<close>

text \<open>\<open>on_connect\<close> and \<open>on_disconnect\<close> take their two locks one after the other.\<close>

definition presence_connect :: "uuid \<Rightarrow> uuid \<Rightarrow> (sys, bool) prog" where
  "presence_connect device account =
     bind (atomic (\<lambda>s. ((), s\<lparr>pres := connected_insert device account (pres s)\<rparr>))) (\<lambda>_.
     atomic (\<lambda>s. case online_up account (pres s) of (first, p) \<Rightarrow> (first, s\<lparr>pres := p\<rparr>)))"

definition presence_disconnect :: "uuid \<Rightarrow> (sys, (uuid \<times> bool) option) prog" where
  "presence_disconnect device =
     bind (atomic (\<lambda>s. case connected_remove device (pres s) of (a, p) \<Rightarrow> (a, s\<lparr>pres := p\<rparr>))) (\<lambda>found.
     case found of
       None \<Rightarrow> Ret None
     | Some account \<Rightarrow>
         bind (atomic (\<lambda>s. case online_down account (pres s) of (off, p) \<Rightarrow> (off, s\<lparr>pres := p\<rparr>))) (\<lambda>off.
         Ret (Some (account, off))))"

section \<open>The connection\<close>

datatype frame = TextFrame string | CloseFrame | OtherFrame

datatype sock_event =
    BusEvent bool
  | Incoming "frame option option"

text \<open>
  \<open>BusEvent\<close>: the branch \<open>rx.recv()\<close> is taken, and whether \<open>socket.send\<close> would succeed. What is
  received is what the channel holds for the receiver \<open>rx\<close> of the device at its position \<open>pos\<close>;
  with nothing there the branch is not ready. \<open>Incoming\<close>: \<open>socket.recv()\<close> returned \<open>None\<close> at the
  end of the stream, \<open>Some None\<close> for an error and \<open>Some (Some f)\<close> for a frame. The loop returns the
  frames sent on, and whether it was left.
\<close>

definition bus_recv :: "world \<Rightarrow> uuid \<Rightarrow> nat \<Rightarrow> nat \<Rightarrow> (sys, (recv_outcome \<times> nat) option) prog" where
  "bus_recv w device rx pos =
     look (\<lambda>s. chan_recv w (capacity (bus s)) (calls (bus s) device) rx pos)"

fun socket_loop ::
    "world \<Rightarrow> (string \<Rightarrow> inbound option) \<Rightarrow> uuid \<Rightarrow> uuid \<Rightarrow> nat \<Rightarrow> nat \<Rightarrow> sock_event list
       \<Rightarrow> (sys, json list \<times> bool) prog" where
  "socket_loop w parse account device rx pos [] = Ret ([], False)"
| "socket_loop w parse account device rx pos (BusEvent sent # es) =
     bind (bus_recv w device rx pos) (\<lambda>r.
     case r of
       None \<Rightarrow> socket_loop w parse account device rx pos es
     | Some (Lagged, pos') \<Rightarrow> socket_loop w parse account device rx pos' es
     | Some (Received env, pos') \<Rightarrow>
         (case envelope_json w env of
            None \<Rightarrow> socket_loop w parse account device rx pos' es
          | Some text \<Rightarrow>
              if \<not> sent then Ret ([], True)
              else bind (socket_loop w parse account device rx pos' es) (\<lambda>(out, left). Ret (text # out, left))))"
| "socket_loop w parse account device rx pos (Incoming (Some (Some (TextFrame t))) # es) =
     bind (handle_inbound w parse account t) (\<lambda>_. socket_loop w parse account device rx pos es)"
| "socket_loop w parse account device rx pos (Incoming (Some (Some CloseFrame)) # es) = Ret ([], True)"
| "socket_loop w parse account device rx pos (Incoming None # es) = Ret ([], True)"
| "socket_loop w parse account device rx pos (Incoming (Some (Some OtherFrame)) # es) =
     socket_loop w parse account device rx pos es"
| "socket_loop w parse account device rx pos (Incoming (Some None) # es) = Ret ([], True)"

definition bus_subscribe :: "uuid \<Rightarrow> (sys, nat) prog" where
  "bus_subscribe device = atomic (\<lambda>s. case subscribe device (bus s) of (rx, b) \<Rightarrow> (rx, s\<lparr>bus := b\<rparr>))"

definition socket_opened :: "world \<Rightarrow> uuid \<Rightarrow> uuid \<Rightarrow> (sys, nat) prog" where
  "socket_opened w account device =
     bind (presence_connect device account) (\<lambda>first.
     bind (if first then broadcast_presence w account True None else Ret ()) (\<lambda>_.
     bus_subscribe device))"

definition socket_closed :: "world \<Rightarrow> uuid \<Rightarrow> (sys, unit) prog" where
  "socket_closed w device =
     bind (presence_disconnect device) (\<lambda>found.
     case found of
       None \<Rightarrow> Ret ()
     | Some (acc, went_offline) \<Rightarrow>
         if went_offline then
           bind (now_utc w) (\<lambda>now.
           bind (pg w (\<lambda>_. set_last_seen acc now)) (\<lambda>_.
           broadcast_presence w acc False (Some now)))
         else Ret ())"

text \<open>A connection whose loop has not been left yet stays open.\<close>

definition handle_socket ::
    "world \<Rightarrow> (string \<Rightarrow> inbound option) \<Rightarrow> uuid \<Rightarrow> uuid \<Rightarrow> sock_event list
       \<Rightarrow> (sys, json list \<times> bool) prog" where
  "handle_socket w parse account device es =
     bind (socket_opened w account device) (\<lambda>rx.
     bind (socket_loop w parse account device rx 0 es) (\<lambda>(out, left).
     if left then bind (socket_closed w device) (\<lambda>_. Ret (out, True)) else Ret (out, False)))"

datatype ws_response = Upgraded "json list" bool | WsUnauthorized

definition ws_handler ::
    "world \<Rightarrow> (string \<Rightarrow> inbound option) \<Rightarrow> string \<Rightarrow> sock_event list \<Rightarrow> (sys, ws_response) prog" where
  "ws_handler w parse token es =
     bind (authed_from_token w token) (\<lambda>r.
     case r of
       Inl _ \<Rightarrow> Ret WsUnauthorized
     | Inr (account, device) \<Rightarrow>
         bind (handle_socket w parse account device es) (\<lambda>(out, left). Ret (Upgraded out left)))"

lemmas ws_defs [prog_defs] = receipt_marks_def handle_inbound_def presence_connect_def
  presence_disconnect_def bus_subscribe_def bus_recv_def socket_opened_def socket_closed_def handle_socket_def
  ws_handler_def

section \<open>Steps of the handlers\<close>

lemma safe_handle_inbound [ok_intros]: "safe (handle_inbound w parse account txt)"
  unfolding handle_inbound_def receipt_marks_def
  by (auto intro!: ok_intros reads_auth split: option.splits sum.splits)

lemma safe_presence [ok_intros]:
  "safe (presence_connect device account)" "safe (presence_disconnect device)" "safe (bus_subscribe device)"
  unfolding presence_connect_def presence_disconnect_def bus_subscribe_def
  by (auto intro!: ok_intros safe_atomic_other split: option.splits prod.splits)

lemma safe_look [ok_intros]: "safe (look f)"
  unfolding look_def by (rule safe_atomic_other) simp

lemma safe_socket_loop [ok_intros]: "safe (socket_loop w parse account device rx pos es)"
  by (induction w parse account device rx pos es rule: socket_loop.induct)
    (auto simp: bus_recv_def intro!: ok_intros split: prod.splits option.splits recv_outcome.splits)

lemma safe_ws_handler [ok_intros]: "safe (ws_handler w parse token es)"
  unfolding ws_handler_def handle_socket_def socket_opened_def socket_closed_def
  by (auto intro!: ok_intros split: prod.splits option.splits sum.splits)

end
