(* ===== verification/App.thy ===== *)
theory App
  imports Ws_Handlers Serde
begin

text \<open>
  \<open>crates/server/src/app.rs\<close>: the application state and the router with its version guard. A
  request is the matched route with the values
  \<open>axum\<close>'s extractors produced; \<open>Rejected\<close> stands for a request an extractor refuses, which
  \<open>axum\<close> answers by itself with some status.
\<close>

section \<open>Application state\<close>

text \<open>
  The in-memory part of \<open>AppState::new\<close>, on top of a database. \<open>claims\<close> is the value of the
  auxiliary variable for the conversations the database already holds.
\<close>

definition app_state_new :: "(uuid \<rightharpoonup> uuid \<times> uuid) \<Rightarrow> database \<Rightarrow> sys" where
  "app_state_new claims d =
     \<lparr>db = d, pres = presence_new, bus = bus_default, tick = 0, dm_claim = claims\<rparr>"

definition server_capabilities :: "capability list" where
  "server_capabilities = [Messaging, Receipts, Typing, Presence]"

section \<open>Routes\<close>

datatype call =
    Capabilities
  | Register register_request
  | Login login_request
  | Refresh refresh_request
  | Logout
  | ListUsers
  | LookupUser string
  | ListConversations
  | SendMessage send_req
  | History string
  | EditMessage string string
  | DeleteMessage string "string option"
  | UploadBlob bytes
  | ListMedia uuid media_query
  | GetMyProfile
  | GetProfile string
  | UpdateProfile update_profile_req
  | Rejected nat

datatype request =
    Health
  | WebSocket string "sock_event list"
  | DownloadBlob uuid
  | Versioned headers call

datatype reply =
    JsonReply nat json
  | EmptyReply nat
  | BlobReply blob_response
  | WsReply ws_response

definition ping :: "unit stmt" where
  "ping d = (Inr (), d)"

definition health :: "world \<Rightarrow> (sys, reply) prog" where
  "health w =
     bind (pg w (\<lambda>_. ping)) (\<lambda>r.
     Ret (JsonReply 200 (JObj
       [(''status'', JStr ''ok''),
        (''protocolVersion'', JInt (uint PROTOCOL_VERSION)),
        (''db'', JStr (case r of Inr _ \<Rightarrow> ''up'' | Inl _ \<Rightarrow> ''down''))])))"

definition capabilities_reply :: reply where
  "capabilities_reply = JsonReply 200 (JObj
     [(''protocolVersion'', JInt (uint PROTOCOL_VERSION)),
      (''capabilities'', JArr (map (\<lambda>c. JStr (capability_name c)) server_capabilities))])"

text \<open>\<open>IntoResponse\<close> of a handler's result: a success is rendered by \<open>f\<close>, an error by \<open>AppError\<close>.\<close>

definition respond :: "('a \<Rightarrow> reply) \<Rightarrow> (sys, app_error + 'a) prog \<Rightarrow> (sys, reply) prog" where
  "respond f p = bind p (\<lambda>r. Ret (case r of
      Inl e \<Rightarrow> (let a = app_error_response e in JsonReply (status a) (body a))
    | Inr x \<Rightarrow> f x))"

fun dispatch :: "world \<Rightarrow> headers \<Rightarrow> call \<Rightarrow> (sys, reply) prog" where
  "dispatch w hs Capabilities = Ret capabilities_reply"
| "dispatch w hs (Register req) = respond (\<lambda>a. JsonReply 201 (session_json w a)) (register w req)"
| "dispatch w hs (Login req) = respond (\<lambda>a. JsonReply 200 (session_json w a)) (login w req)"
| "dispatch w hs (Refresh req) = respond (\<lambda>t. JsonReply 200 (tokens_json t)) (refresh w req)"
| "dispatch w hs Logout = respond (\<lambda>_. EmptyReply 204) (logout w hs)"
| "dispatch w hs ListUsers = respond (JsonReply 200) (list_users_handler w hs)"
| "dispatch w hs (LookupUser u) = respond (JsonReply 200) (lookup_user w hs u)"
| "dispatch w hs ListConversations = respond (JsonReply 200) (list_conversations w hs)"
| "dispatch w hs (SendMessage req) = respond (JsonReply 200) (send_message w hs req)"
| "dispatch w hs (History u) = respond (JsonReply 200) (history_handler w hs u)"
| "dispatch w hs (EditMessage i c) = respond (JsonReply 200) (edit_message_handler w hs i c)"
| "dispatch w hs (DeleteMessage i sc) = respond (JsonReply 200) (delete_message_handler w hs i sc)"
| "dispatch w hs (UploadBlob content) = respond (JsonReply 200) (upload_blob w hs content)"
| "dispatch w hs (ListMedia cid q) = respond (JsonReply 200) (list_media_handler w hs cid q)"
| "dispatch w hs GetMyProfile = respond (JsonReply 200) (get_my_profile w hs)"
| "dispatch w hs (GetProfile u) = respond (JsonReply 200) (get_profile_handler w hs u)"
| "dispatch w hs (UpdateProfile req) = respond (JsonReply 200) (update_profile w hs req)"
| "dispatch w hs (Rejected st) = Ret (EmptyReply st)"

definition declared_version :: "world \<Rightarrow> headers \<Rightarrow> u32 option" where
  "declared_version w hs =
     Option.bind (Option.bind (map_of hs ''trust-protocol-version'') (header_to_str w)) parse_u32"

definition upgrade_required :: reply where
  "upgrade_required = JsonReply 426 (JObj
     [(''code'', JStr ''UNSUPPORTED_VERSION''),
      (''message'', JStr (''This server speaks Trust protocol v0. Send header ''
         @ [CHR 0x27] @ ''Trust-Protocol-Version: 0'' @ [CHR 0x27] @ ''.''))])"

definition require_protocol_version ::
    "world \<Rightarrow> headers \<Rightarrow> (sys, reply) prog \<Rightarrow> (sys, reply) prog" where
  "require_protocol_version w hs next_layer =
     (if declared_version w hs = Some PROTOCOL_VERSION then next_layer else Ret upgrade_required)"

fun router :: "world \<Rightarrow> (string \<Rightarrow> inbound option) \<Rightarrow> request \<Rightarrow> (sys, reply) prog" where
  "router w parse Health = health w"
| "router w parse (WebSocket token es) = bind (ws_handler w parse token es) (\<lambda>r. Ret (WsReply r))"
| "router w parse (DownloadBlob i) = bind (get_blob_handler w i) (\<lambda>r. Ret (BlobReply r))"
| "router w parse (Versioned hs c) = require_protocol_version w hs (dispatch w hs c)"

section \<open>Every request is safe\<close>

lemma reads_ping [guar_intros, simp]: "reads ping"
  by (simp add: reads_def ping_def)

lemma safe_respond [ok_intros]: "safe p \<Longrightarrow> safe (respond f p)"
  unfolding respond_def by (intro ok_intros)

lemma safe_dispatch [ok_intros]: "safe (dispatch w hs c)"
  by (cases c) (auto intro: ok_intros)

lemma safe_router [ok_intros]: "safe (router w parse req)"
  by (cases req) (auto intro!: ok_intros simp: health_def require_protocol_version_def)

section \<open>The server as a whole\<close>

text \<open>The tasks the server spawns: one per request.\<close>

definition serves :: "world \<Rightarrow> (string \<Rightarrow> inbound option) \<Rightarrow> (sys, reply) prog \<Rightarrow> bool" where
  "serves w parse p \<longleftrightarrow> (\<exists>req. p = router w parse req)"

lemma server_reach:
  assumes "sys_inv s" and "pool_reach (serves w parse) ([], s) (ps, t)"
  shows "sys_inv t \<and> sys_grows s t"
proof -
  have "srv.pool_ok ([] :: (sys, reply) prog list, s)" using assms(1) by (simp add: srv.pool_ok_def)
  moreover have "ok sys_grows sys_inv (\<lambda>_ _. True) p u" if "serves w parse p" for p u
    using that safe_router by (auto simp: serves_def safe_def)
  ultimately show ?thesis using srv.pool_reach_ok [OF assms(2)] by (simp add: srv.pool_ok_def)
qed

end
