(* ===== verification/Message_Properties.thy ===== *)
theory Message_Properties
  imports Messaging_Handlers
begin

text \<open>
  The behaviour of the message handlers: what sending stores, that the history is exact, who may
  edit, delete and hide, and which devices an event reaches. The theorems about single requests
  hold for one request executed alone; most of them allow failing statements.
\<close>

section \<open>Tables a program leaves alone\<close>

definition same_table :: "(database \<Rightarrow> 'a) \<Rightarrow> sys \<Rightarrow> sys \<Rightarrow> bool" where
  "same_table f s t \<longleftrightarrow> f (db t) = f (db s)"

lemma guar_mono: "guar G p \<Longrightarrow> (\<And>s t. G s t \<Longrightarrow> H s t) \<Longrightarrow> guar H p"
  by (induction p rule: prog_induct) (auto simp: guar_Act guar_Ret)

lemma guar_frame_same_db: "guar same_db p \<Longrightarrow> guar (same_table f) p"
  by (erule guar_mono) (simp add: same_db_def same_table_def)

lemma guar_frame_pg: "(\<And>n d. f (snd (q n d)) = f d) \<Longrightarrow> guar (same_table f) (pg w q)"
  unfolding pg_def
  by (rule guar_atomic) (auto simp: same_table_def split: fault.splits prod.splits, metis snd_conv)

lemma reads_snd: "reads q \<Longrightarrow> snd (q d) = d"
  by (simp add: reads_def)

lemma guar_frame_run: "guar (same_table f) p \<Longrightarrow> f (db (snd (run p s))) = f (db s)"
  using guar_run [of "same_table f" p s] by (simp add: same_table_def)

lemma guar_frame_reads [guar_intros]: "(\<And>n. reads (q n)) \<Longrightarrow> guar (same_table f) (pg w q)"
  by (rule guar_frame_same_db) (rule guar_pg_reads)

lemma guar_frame_outside [guar_intros]:
  "guar (same_table f) (new_uuid w)" "guar (same_table f) (now_utc w)" "guar (same_table f) (look g)"
  by (auto intro: guar_frame_same_db guar_intros)

lemma guar_frame_handlers:
  "guar (same_table f) (authed w hs)" "guar (same_table f) (envelope_of w ty p)"
  "guar (same_table f) (deliver_message w me dv target env)" "guar (same_table f) (deliver_to_conversation w cid env actor dv)"
  by (auto intro: guar_frame_same_db guar_intros)

lemma guar_frame_dm_conversation:
  assumes "\<And>d x. f (d\<lparr>conversations := x\<rparr>) = f d" "\<And>d x. f (d\<lparr>conversation_members := x\<rparr>) = f d"
    "\<And>d x. f (d\<lparr>dm_conversations := x\<rparr>) = f d"
  shows "guar (same_table f) (dm_conversation w a b)"
proof -
  have "guar (same_table f) (create_conversation w cid lo hi)" for cid lo hi
    unfolding create_conversation_def
    by (rule guar_atomic) (auto simp: same_table_def run_pg insert_conversation_def claim_on_def assms split: fault.splits)
  then show ?thesis
    unfolding dm_conversation_def
    by (auto intro!: guar_intros guar_frame_pg simp: reads_snd insert_members_def insert_dm_def assms
        split: prod.splits option.splits)
qed

lemma guar_frame_index:
  assumes "\<And>d x. f (d\<lparr>media_rows := x\<rparr>) = f d"
  shows "guar (same_table f) (index_attachments w cid me m atts)"
  unfolding index_attachments_def record_media_def
  by (intro guar_intros guar_frame_pg) (simp add: insert_media_def assms)

section \<open>Sending\<close>

lemma pg_db: "run (pg w q) s = (Inr x, t) \<Longrightarrow> db t = snd (q (tick s) (db s))"
  using pg_result by fastforce

lemma store_message_effect:
  assumes "run (store_message w cid me dv content rt) s = (Inr m, t)"
  shows "messages (db t) = messages (db s) @ [m] \<and> message_for cid me dv content rt m
    \<and> dm_conversations (db t) = dm_conversations (db s)"
proof -
  obtain seq u where b: "run (pg w (\<lambda>_. bump_last_seq cid)) s = (Inr seq, u)"
    using assms by (auto simp: store_message_def run_bindE split: prod.splits sum.splits)
  have u: "messages (db u) = messages (db s)" "dm_conversations (db u) = dm_conversations (db s)"
    unfolding pg_db [OF b] by (auto simp: bump_last_seq_def split: option.splits)
  obtain ts where i: "run (pg w (\<lambda>n. insert_message (new_message (uuid_at w (tick u)) cid seq me dv content rt
      (pg_now w n)))) (advance u) = (Inr ts, t)"
    and m: "m = new_message (uuid_at w (tick u)) cid seq me dv content rt ts"
    using assms b by (auto simp: store_message_def run_bindE run_bind run_new_uuid split: prod.splits sum.splits)
  have "messages (db t) = messages (db u) @ [m] \<and> dm_conversations (db t) = dm_conversations (db u)"
    using pg_result [OF i, THEN conjunct2] m unfolding pg_db [OF i]
    by (auto simp: insert_message_def new_message_def split: if_splits)
  with u m show ?thesis by (auto simp: message_for_def)
qed


lemma run_bindE_InrE:
  assumes "run (bindE p k) s = (Inr y, t)"
  obtains x u where "run p s = (Inr x, u)" "run (k x) u = (Inr y, t)"
  using assms by (auto simp: run_bindE split: prod.splits sum.splits)

lemma run_bind_resE:
  assumes "run (bind p k) s = (y, t)"
  obtains x u where "run p s = (x, u)" "run (k x) u = (y, t)"
  using assms by (auto simp: run_bind split: prod.splits)

lemma run_ok_or_InrD: "run (ok_or e v) s = (Inr x, t) \<Longrightarrow> v = Some x \<and> t = s"
  by (auto simp: run_ok_or split: option.splits)

lemma run_dbq_InrD: "run (dbq w p) s = (Inr x, t) \<Longrightarrow> run p s = (Inr x, t)"
  by (cases "run p s") (auto simp: run_dbq map_sum_def split: sum.splits)

lemma run_auth_InrD: "run (auth w q) s = (Inr x, t) \<Longrightarrow> run (pg w q) s = (Inr x, t)"
  by (cases "run (pg w q) s") (auto simp: run_auth map_sum_def split: sum.splits)

lemma dm_conversation_run:
  assumes "sys_inv s" and "run (dm_conversation w a b) s = (Inr cid, t)"
  shows "dm_row (pair_order a b) cid t \<and> sys_inv t \<and> sys_grows s t"
proof -
  have "ok sys_grows sys_inv (post (dm_row (pair_order a b))) (dm_conversation w a b) s"
    using spec_dm_conversation [of w a b] by (simp add: spec_def)
  from srv.ok_run [OF this assms(1)] assms(2) show ?thesis by simp
qed

lemma safe_run_inv: "safe p \<Longrightarrow> sys_inv s \<Longrightarrow> run p s = (x, t) \<Longrightarrow> sys_inv t"
  using safe_run [of p s] by simp

lemma frame_run: "guar (same_table f) p \<Longrightarrow> run p s = (x, t) \<Longrightarrow> f (db t) = f (db s)"
  using guar_frame_run [of f p s] by simp

lemma send_message_runE:
  assumes "run (send_message w hs req) s = (Inr j, t)"
  obtains me dv s1 s2 s3 target content cid m s4 s5 s6 env where
    "run (authed w hs) s = (Inr (me, dv), s1)"
    "run (pg w (\<lambda>_. find_account_by_username (sr_to_username req))) s1 = (Inr (Some target), s2)"
    "b64_decode w (sr_ciphertext req) = Some content"
    "run (dm_conversation w me (acc_id target)) s2 = (Inr cid, s3)"
    "run (store_message w cid me dv content (parse_id w (sr_reply_to_message_id req))) s3 = (Inr m, s4)"
    "run (index_attachments w cid me m (all_attachments req)) s4 = (Inr (), s5)"
    "run (envelope_of w ''message.new'' (message_event w cid me dv m content
       (parse_id w (sr_reply_to_message_id req)))) s5 = (env, s6)"
    "run (deliver_message w me dv (acc_id target) env) s6 = ((), t)"
    "j = JObj [(''messageId'', juuid w (msg_id m)), (''seq'', JInt (msg_seq m)),
       (''serverTs'', jtime w (msg_server_ts m)), (''conversationId'', juuid w cid)]"
  using assms unfolding send_message_def Let_def
  by (auto elim!: run_bindE_InrE run_bind_resE dest!: run_ok_or_InrD run_dbq_InrD run_auth_InrD split: prod.splits)

lemma send_message_effect:
  assumes s: "sys_inv s" and r: "run (send_message w hs req) s = (Inr j, t)"
  shows "\<exists>me dv target content cid m.
      fst (run (authed w hs) s) = Inr (me, dv)
    \<and> target \<in> set (accounts (db s)) \<and> acc_username target = sr_to_username req
    \<and> b64_decode w (sr_ciphertext req) = Some content
    \<and> messages (db t) = messages (db s) @ [m]
    \<and> msg_conversation_id m = cid \<and> msg_sender_account_id m = me \<and> msg_sender_device_id m = Some dv
    \<and> msg_ciphertext m = content \<and> msg_reply_to m = parse_id w (sr_reply_to_message_id req)
    \<and> msg_deleted_at m = None
    \<and> \<lparr>dm_account_lo = min me (acc_id target), dm_account_hi = max me (acc_id target),
        dm_conversation_id = cid\<rparr> \<in> set (dm_conversations (db t))
    \<and> j = JObj [(''messageId'', juuid w (msg_id m)), (''seq'', JInt (msg_seq m)),
               (''serverTs'', jtime w (msg_server_ts m)), (''conversationId'', juuid w cid)]"
proof -
  obtain me dv s1 s2 s3 target content cid m s4 s5 s6 env where
      a: "run (authed w hs) s = (Inr (me, dv), s1)"
    and f: "run (pg w (\<lambda>_. find_account_by_username (sr_to_username req))) s1 = (Inr (Some target), s2)"
    and c: "b64_decode w (sr_ciphertext req) = Some content"
    and dm: "run (dm_conversation w me (acc_id target)) s2 = (Inr cid, s3)"
    and st: "run (store_message w cid me dv content (parse_id w (sr_reply_to_message_id req))) s3 = (Inr m, s4)"
    and ix: "run (index_attachments w cid me m (all_attachments req)) s4 = (Inr (), s5)"
    and en: "run (envelope_of w ''message.new'' (message_event w cid me dv m content
               (parse_id w (sr_reply_to_message_id req)))) s5 = (env, s6)"
    and dl: "run (deliver_message w me dv (acc_id target) env) s6 = ((), t)"
    and j: "j = JObj [(''messageId'', juuid w (msg_id m)), (''seq'', JInt (msg_seq m)),
               (''serverTs'', jtime w (msg_server_ts m)), (''conversationId'', juuid w cid)]"
    by (rule send_message_runE [OF r])
  have s1: "db s1 = db s" using guar_same_db_run [OF guar_authed(1), of w hs s] a by simp
  have s2: "db s2 = db s" and target: "target \<in> set (accounts (db s))" "acc_username target = sr_to_username req"
    using pg_result [OF f, THEN conjunct2] s1
    by (auto simp: find_account_by_username_def dest!: find_SomeD)
  have "sys_inv s1" by (rule safe_run_inv [OF safe_authed(1) s a])
  then have inv: "sys_inv s2"
    by (rule safe_run_inv [OF _ _ f, rotated]) (intro ok_intros reads_auth)
  note row = dm_conversation_run [OF inv dm]
  have ms3: "messages (db s3) = messages (db s2)"
    by (rule frame_run [OF guar_frame_dm_conversation dm]) simp_all
  note sm = store_message_effect [OF st]
  have fr: "messages (db t) = messages (db s4)" "dm_conversations (db t) = dm_conversations (db s4)"
    using frame_run [OF guar_frame_index ix, of messages] frame_run [OF guar_frame_handlers(2) en, of messages]
      frame_run [OF guar_frame_handlers(3) dl, of messages]
      frame_run [OF guar_frame_index ix, of dm_conversations] frame_run [OF guar_frame_handlers(2) en, of dm_conversations]
      frame_run [OF guar_frame_handlers(3) dl, of dm_conversations] by simp_all
  have pair: "pair_order me (acc_id target) = (min me (acc_id target), max me (acc_id target))"
    by (simp add: pair_order_def min_def max_def)
  show ?thesis
    using a target c sm fr ms3 s2 row pair j
    by (auto simp: message_for_def new_message_def dm_row_def)
qed

text \<open>
  (C6) Sending stores the message. When a send request is answered with success, even if some
  statements of the server failed on the way, the request was authenticated, the recipient exists,
  exactly one message was added, at the end of the table, and it carries the decoded ciphertext, the
  sender, the sending device and the quoted message; it belongs to the one conversation registered
  for sender and recipient, and the answer names its id and sequence number.
\<close>

theorem send_message_stored:
  assumes s: "sys_inv s" and r: "run (send_message w hs req) s = (Inr j, t)"
  shows "\<exists>me dv target content cid m.
      fst (run (authed w hs) s) = Inr (me, dv)
    \<and> target \<in> set (accounts (db s)) \<and> acc_username target = sr_to_username req
    \<and> b64_decode w (sr_ciphertext req) = Some content
    \<and> messages (db t) = messages (db s) @ [m]
    \<and> msg_conversation_id m = cid \<and> msg_sender_account_id m = me \<and> msg_sender_device_id m = Some dv
    \<and> msg_ciphertext m = content \<and> msg_reply_to m = parse_id w (sr_reply_to_message_id req)
    \<and> msg_deleted_at m = None
    \<and> \<lparr>dm_account_lo = min me (acc_id target), dm_account_hi = max me (acc_id target),
        dm_conversation_id = cid\<rparr> \<in> set (dm_conversations (db t))
    \<and> j = JObj [(''messageId'', juuid w (msg_id m)), (''seq'', JInt (msg_seq m)),
               (''serverTs'', jtime w (msg_server_ts m)), (''conversationId'', juuid w cid)]"
  by (rule send_message_effect [OF assms])


section \<open>History\<close>

definition visible :: "database \<Rightarrow> uuid \<Rightarrow> uuid \<Rightarrow> message \<Rightarrow> bool" where
  "visible d cid me m \<longleftrightarrow> m \<in> set (messages d) \<and> msg_conversation_id m = cid \<and> msg_deleted_at m = None
     \<and> (\<forall>h \<in> set (hidden_messages d). hid_message_id h = msg_id m \<longrightarrow> hid_account_id h \<noteq> me)"

lemma history_exact:
  assumes "db_inv d" and "history cid me d = (Inr ms, e)"
  shows "set ms = {m. visible d cid me m} \<and> sorted_wrt (\<lambda>a b. msg_seq a < msg_seq b) ms"
proof -
  let ?P = "\<lambda>m. msg_conversation_id m = cid \<and> msg_deleted_at m = None
      \<and> \<not> list_ex (\<lambda>h. hid_message_id h = msg_id m \<and> hid_account_id h = me) (hidden_messages d)"
  have ms: "ms = sort_key msg_seq (filter ?P (messages d))"
    using assms(2) unfolding history_def by blast
  have "distinct (map seq_key (filter ?P (messages d)))"
    using assms(1) by (simp add: db_inv_def msg_inv_def distinct_map_filter)
  then have "distinct (map msg_seq (filter ?P (messages d)))"
    by (auto simp: distinct_map inj_on_def seq_key_def)
  then have "distinct (map msg_seq ms)" unfolding ms by (simp add: distinct_map)
  moreover have "sorted (map msg_seq ms)" by (simp add: ms)
  ultimately have "sorted_wrt (<) (map msg_seq ms)" by (simp add: strict_sorted_iff)
  then show ?thesis by (auto simp: ms visible_def list_ex_iff sorted_wrt_map)
qed

lemma history_handler_effect:
  assumes s: "sys_inv s" and r: "run (history_handler w hs u) s = (Inr j, t)"
  shows "\<exists>me dv target cid pr pd ms.
      fst (run (authed w hs) s) = Inr (me, dv)
    \<and> target \<in> set (accounts (db s)) \<and> acc_username target = u
    \<and> \<lparr>dm_account_lo = min me (acc_id target), dm_account_hi = max me (acc_id target),
        dm_conversation_id = cid\<rparr> \<in> set (dm_conversations (db t))
    \<and> marker_of ReadMarkers cid (acc_id target) (db s) = (Inr pr, db s)
    \<and> marker_of DeliveredMarkers cid (acc_id target) (db s) = (Inr pd, db s)
    \<and> set ms = {m. visible (db s) cid me m} \<and> sorted_wrt (\<lambda>a b. msg_seq a < msg_seq b) ms
    \<and> messages (db t) = messages (db s)
    \<and> j = JObj [(''conversationId'', juuid w cid), (''withUserId'', juuid w (acc_id target)),
               (''messages'', JArr (map (message_json w me pr pd) ms))]"
proof -
  obtain me dv s1 s2 s3 target cid pr s4 pd s5 ms where
      a: "run (authed w hs) s = (Inr (me, dv), s1)"
    and f: "run (pg w (\<lambda>_. find_account_by_username u)) s1 = (Inr (Some target), s2)"
    and dm: "run (dm_conversation w me (acc_id target)) s2 = (Inr cid, s3)"
    and rs: "run (pg w (\<lambda>_. read_seq cid (acc_id target))) s3 = (Inr pr, s4)"
    and ds: "run (pg w (\<lambda>_. delivered_seq cid (acc_id target))) s4 = (Inr pd, s5)"
    and h: "run (pg w (\<lambda>_. history cid me)) s5 = (Inr ms, t)"
    and j: "j = JObj [(''conversationId'', juuid w cid), (''withUserId'', juuid w (acc_id target)),
               (''messages'', JArr (map (message_json w me pr pd) ms))]"
    using r unfolding history_handler_def
    by (auto elim!: run_bindE_InrE dest!: run_ok_or_InrD run_dbq_InrD run_auth_InrD split: prod.splits)
  have s1: "db s1 = db s" using guar_same_db_run [OF guar_authed(1), of w hs s] a by simp
  have s2: "db s2 = db s" and target: "target \<in> set (accounts (db s))" "acc_username target = u"
    using pg_result [OF f, THEN conjunct2] s1
    by (auto simp: find_account_by_username_def dest!: find_SomeD)
  have "sys_inv s1" by (rule safe_run_inv [OF safe_authed(1) s a])
  then have inv: "sys_inv s2"
    by (rule safe_run_inv [OF _ _ f, rotated]) (intro ok_intros reads_auth)
  note row = dm_conversation_run [OF inv dm]
  have tabs: "(messages (db s3), hidden_messages (db s3), read_markers (db s3), delivered_markers (db s3))
      = (messages (db s2), hidden_messages (db s2), read_markers (db s2), delivered_markers (db s2))"
    by (rule frame_run [OF guar_frame_dm_conversation dm,
         of "\<lambda>d. (messages d, hidden_messages d, read_markers d, delivered_markers d)"]) simp_all
  have dbs: "db s4 = db s3" "db s5 = db s3" "db t = db s3"
    using pg_db [OF rs] pg_db [OF ds] pg_db [OF h] by (simp_all add: reads_snd)
  have ms: "history cid me (db s3) = (Inr ms, db s3)"
    using pg_result [OF h, THEN conjunct2] dbs by simp
  have ex: "set ms = {m. visible (db s3) cid me m} \<and> sorted_wrt (\<lambda>a b. msg_seq a < msg_seq b) ms"
    by (rule history_exact [OF _ ms]) (use row in \<open>simp add: sys_inv_def\<close>)
  have vis: "visible (db s3) cid me = visible (db s) cid me"
    using tabs s2 by (simp add: visible_def fun_eq_iff)
  have "marker_of ReadMarkers cid (acc_id target) (db s) = (Inr pr, db s)"
    "marker_of DeliveredMarkers cid (acc_id target) (db s) = (Inr pd, db s)"
    using pg_result [OF rs, THEN conjunct2] pg_result [OF ds, THEN conjunct2] dbs tabs s2
    by (simp_all add: read_seq_def delivered_seq_def marker_of_def marker_rows_def)
  moreover have "pair_order me (acc_id target) = (min me (acc_id target), max me (acc_id target))"
    by (simp add: pair_order_def min_def max_def)
  ultimately show ?thesis
    using a target row dbs tabs s2 ex vis j
    by (intro exI [of _ me] exI [of _ dv] exI [of _ target] exI [of _ cid] exI [of _ pr] exI [of _ pd]
        exI [of _ ms]) (simp add: dm_row_def)
qed

lemma find_dm_pair:
  assumes inv: "conv_inv d"
    and row: "\<lparr>dm_account_lo = min a b, dm_account_hi = max a b, dm_conversation_id = cid\<rparr> \<in> set (dm_conversations d)"
  shows "List.find (\<lambda>p. dm_key p = pair_order a b) (dm_conversations d)
    = Some \<lparr>dm_account_lo = min a b, dm_account_hi = max a b, dm_conversation_id = cid\<rparr>"
proof -
  let ?p = "\<lparr>dm_account_lo = min a b, dm_account_hi = max a b, dm_conversation_id = cid\<rparr>"
  have k: "dm_key ?p = pair_order a b" by (simp add: dm_key_def pair_order_def min_def max_def)
  show ?thesis
    using find_unique_key [of dm_key "dm_conversations d", OF _ row k] inv by (simp add: conv_inv_def)
qed

text \<open>The history of a caller with a peer whose conversation exists.\<close>

lemma history_of_pair:
  assumes u: "sys_inv u" and hist: "run (history_handler w hs name) u = (Inr j, v)"
    and a: "fst (run (authed w hs) u) = Inr (me, dv)"
    and peer: "peer \<in> set (accounts (db u))" "acc_username peer = name"
    and row: "\<lparr>dm_account_lo = min me (acc_id peer), dm_account_hi = max me (acc_id peer),
        dm_conversation_id = cid\<rparr> \<in> set (dm_conversations (db u))"
  shows "\<exists>pr pd ms. marker_of ReadMarkers cid (acc_id peer) (db u) = (Inr pr, db u)
    \<and> marker_of DeliveredMarkers cid (acc_id peer) (db u) = (Inr pd, db u)
    \<and> set ms = {m. visible (db u) cid me m}
    \<and> j = JObj [(''conversationId'', juuid w cid), (''withUserId'', juuid w (acc_id peer)),
               (''messages'', JArr (map (message_json w me pr pd) ms))]"
proof -
  obtain me' dv' target cid' pr pd ms where me: "fst (run (authed w hs) u) = Inr (me', dv')"
    and t: "target \<in> set (accounts (db u))" "acc_username target = name"
    and row': "\<lparr>dm_account_lo = min me' (acc_id target), dm_account_hi = max me' (acc_id target),
        dm_conversation_id = cid'\<rparr> \<in> set (dm_conversations (db v))"
    and h: "marker_of ReadMarkers cid' (acc_id target) (db u) = (Inr pr, db u)"
      "marker_of DeliveredMarkers cid' (acc_id target) (db u) = (Inr pd, db u)"
      "set ms = {m. visible (db u) cid' me' m}"
      "j = JObj [(''conversationId'', juuid w cid'), (''withUserId'', juuid w (acc_id target)),
               (''messages'', JArr (map (message_json w me' pr pd) ms))]"
    using history_handler_effect [OF u hist] by (elim exE conjE) (rule that)
  have v: "sys_inv v" "sys_grows u v" using safe_run [OF safe_directory(4) u, of w hs name] hist by simp_all
  have same: "me' = me" using me a by simp
  have peer_eq: "target = peer"
    using u t peer distinct_key_eq [of acc_username "accounts (db u)" target peer]
    by (simp add: sys_inv_def db_inv_def auth_inv_def)
  have "conv_inv (db v)" using v(1) by (simp add: sys_inv_def db_inv_def)
  moreover have "\<lparr>dm_account_lo = min me (acc_id peer), dm_account_hi = max me (acc_id peer),
        dm_conversation_id = cid\<rparr> \<in> set (dm_conversations (db v))"
    using row v(2) by (auto simp: sys_grows_def db_grows_def conv_grows_def)
  ultimately have "cid' = cid"
    using find_dm_pair [of "db v" me "acc_id peer" cid] find_dm_pair [of "db v" me "acc_id peer" cid'] row'
    by (simp add: same peer_eq)
  with h show ?thesis unfolding same peer_eq by blast
qed

text \<open>
  (C7) The history is exact. When a history request succeeds, it returns, in strictly increasing
  order of their sequence numbers, exactly the messages of the conversation between the caller and
  the named user that are neither deleted nor hidden by the caller. The status of each is computed
  from the peer's receipt markers, and no message changes.
\<close>

theorem history_handler_exact:
  assumes s: "sys_inv s" and r: "run (history_handler w hs u) s = (Inr j, t)"
  shows "\<exists>me dv target cid pr pd ms.
      fst (run (authed w hs) s) = Inr (me, dv)
    \<and> target \<in> set (accounts (db s)) \<and> acc_username target = u
    \<and> \<lparr>dm_account_lo = min me (acc_id target), dm_account_hi = max me (acc_id target),
        dm_conversation_id = cid\<rparr> \<in> set (dm_conversations (db t))
    \<and> marker_of ReadMarkers cid (acc_id target) (db s) = (Inr pr, db s)
    \<and> marker_of DeliveredMarkers cid (acc_id target) (db s) = (Inr pd, db s)
    \<and> set ms = {m. visible (db s) cid me m} \<and> sorted_wrt (\<lambda>a b. msg_seq a < msg_seq b) ms
    \<and> messages (db t) = messages (db s)
    \<and> j = JObj [(''conversationId'', juuid w cid), (''withUserId'', juuid w (acc_id target)),
               (''messages'', JArr (map (message_json w me pr pd) ms))]"
  by (rule history_handler_effect [OF assms])

text \<open>
  (C8) What is sent is received. After a successful send, the recipient's history with the sender,
  fetched while the database is unchanged, contains the message: with the id and sequence number
  the sender was told and with the ciphertext that was sent. (The id is a fresh one that no
  delete-for-me row names.)
\<close>

theorem send_then_history:
  assumes s: "sys_inv s" and send: "run (send_message w hs req) s = (Inr j, t)"
    and u: "sys_inv u" "db u = db t"
    and hist: "run (history_handler w hs' (acc_username me)) u = (Inr h, v)"
    and me: "me \<in> set (accounts (db s))" "fst (run (authed w hs) s) = Inr (acc_id me, dv)"
    and peer: "peer \<in> set (accounts (db s))" "acc_username peer = sr_to_username req"
      "fst (run (authed w hs') u) = Inr (acc_id peer, dv')"
    and fresh: "\<forall>m \<in> set (messages (db t)) - set (messages (db s)).
      msg_id m \<notin> hid_message_id ` set (hidden_messages (db t))"
  shows "\<exists>m pr pd items. jfield ''messageId'' j = Some (juuid w (msg_id m))
      \<and> jfield ''seq'' j = Some (JInt (msg_seq m))
      \<and> b64_decode w (sr_ciphertext req) = Some (msg_ciphertext m)
      \<and> jfield ''messages'' h = Some (JArr items)
      \<and> message_json w (acc_id peer) pr pd m \<in> set items"
proof -
  have inv: "db_inv (db t)" "db_inv (db u)" using u by (simp_all add: sys_inv_def)
  obtain target content cid m where
      sent: "target \<in> set (accounts (db s))" "acc_username target = sr_to_username req"
    "b64_decode w (sr_ciphertext req) = Some content" "messages (db t) = messages (db s) @ [m]"
    "msg_conversation_id m = cid" "msg_ciphertext m = content" "msg_deleted_at m = None"
    and row: "\<lparr>dm_account_lo = min (acc_id me) (acc_id target), dm_account_hi = max (acc_id me) (acc_id target),
        dm_conversation_id = cid\<rparr> \<in> set (dm_conversations (db t))"
    and j: "j = JObj [(''messageId'', juuid w (msg_id m)), (''seq'', JInt (msg_seq m)),
               (''serverTs'', jtime w (msg_server_ts m)), (''conversationId'', juuid w cid)]"
    using send_message_effect [OF s send] me(2) by auto
  have g: "sys_grows s t" using safe_run [OF safe_send_message s, of w hs req] send by simp
  have target: "target = peer"
    using s sent(1,2) peer(1,2) distinct_key_eq [of acc_username "accounts (db s)" target peer]
    by (simp add: sys_inv_def db_inv_def auth_inv_def)
  have acc: "me \<in> set (accounts (db u))"
    using g me(1) u(2) by (auto simp: sys_grows_def db_grows_def auth_grows_def)
  have "\<lparr>dm_account_lo = min (acc_id peer) (acc_id me), dm_account_hi = max (acc_id peer) (acc_id me),
        dm_conversation_id = cid\<rparr> \<in> set (dm_conversations (db u))"
    using row u(2) by (simp add: target min.commute max.commute)
  from history_of_pair [OF u(1) hist peer(3) acc refl this] obtain pr pd ms where
      got: "set ms = {m. visible (db u) cid (acc_id peer) m}"
    and h: "h = JObj [(''conversationId'', juuid w cid), (''withUserId'', juuid w (acc_id me)),
               (''messages'', JArr (map (message_json w (acc_id peer) pr pd) ms))]" by blast
  have "m \<notin> set (messages (db s))" using inv(1) sent(4) by (auto simp: db_inv_def msg_inv_def)
  then have "msg_id m \<notin> hid_message_id ` set (hidden_messages (db t))"
    using fresh sent(4) by auto
  then have "m \<in> set ms"
    unfolding got using sent(4,5,7) u(2) by (simp add: visible_def) (metis imageI)
  then show ?thesis
    using sent(3,6) j h
    by (intro exI [of _ m] exI [of _ pr] exI [of _ pd] exI [of _ "map (message_json w (acc_id peer) pr pd) ms"]) simp
qed

section \<open>Editing, deleting and hiding\<close>

lemma authed_run_db: "run (authed w hs) s = (r, s1) \<Longrightarrow> db s1 = db s"
  using guar_same_db_run [OF guar_authed(1), of w hs s] by simp

lemma find_hit_iff: "List.find P xs = None \<longleftrightarrow> (\<forall>x \<in> set xs. \<not> P x)"
  by (auto simp: find_None_iff)

definition editable :: "uuid \<Rightarrow> uuid \<Rightarrow> message \<Rightarrow> bool" where
  "editable me mid m \<longleftrightarrow> msg_id m = mid \<and> msg_sender_account_id m = me \<and> msg_deleted_at m = None"

text \<open>
  (C20) Only the sender edits. An edit request of an authenticated account for a well-formed id and
  ciphertext succeeds, without faults, exactly if there is such a message, sent by this account and
  not deleted; then this message, and no other, gets the new content and an edit time. Otherwise
  the answer is \<open>404\<close> and the database does not change.
\<close>

theorem edit_message_exact:
  assumes w: "no_faults w" and a: "run (authed w hs) s = (Inr (me, dv), s1)"
    and i: "uuid_parse w i = Some mid" and c: "b64_decode w ct = Some content"
  shows "if \<exists>m \<in> set (messages (db s)). editable me mid m
    then (\<exists>j. fst (run (edit_message_handler w hs i ct) s) = Inr j)
       \<and> db (snd (run (edit_message_handler w hs i ct) s)) = (db s)\<lparr>messages :=
           map (\<lambda>m. if editable me mid m then m\<lparr>msg_ciphertext := content, msg_edited_at := Some (pg_now w (tick s1))\<rparr> else m)
             (messages (db s))\<rparr>
    else fst (run (edit_message_handler w hs i ct) s) = Inl (NotFound ''no such message you can edit'')
       \<and> db (snd (run (edit_message_handler w hs i ct) s)) = db s"
proof (cases "List.find (editable me mid) (messages (db s))")
  case None
  then have no: "\<not> (\<exists>m \<in> set (messages (db s)). editable me mid m)" by (simp add: find_hit_iff)
  then have "update_where (editable me mid) f (messages (db s)) = messages (db s)" for f by (intro update_where_no) simp
  with None no show ?thesis
    using a i c w authed_run_db [OF a] unfolding editable_def [abs_def]
    by (simp add: edit_message_handler_def run_simps no_faultsD edit_message_def)
next
  case (Some m)
  then have yes: "\<exists>m \<in> set (messages (db s)). editable me mid m" using find_SomeD [OF Some] by blast
  have dl: "db (snd (run (deliver_to_conversation w cid env me dv) t)) = db t" for cid env t
    by (rule guar_same_db_run) (rule guar_delivery)
  have en: "db (snd (run (envelope_of w ty p) t)) = db t" for ty p t
    by (rule guar_same_db_run) (rule guar_events)
  from Some yes show ?thesis
    using a i c w authed_run_db [OF a] dl en unfolding editable_def [abs_def]
    by (simp add: edit_message_handler_def run_simps no_faultsD edit_message_def update_where_def
        split_beta)
qed

definition deletable :: "database \<Rightarrow> uuid \<Rightarrow> uuid \<Rightarrow> message \<Rightarrow> bool" where
  "deletable d actor mid m \<longleftrightarrow> msg_id m = mid \<and> msg_deleted_at m = None
     \<and> (msg_conversation_id m, actor) \<in> mem_key ` set (conversation_members d)"

lemma mem_key_in: "(c, a) \<in> mem_key ` S \<longleftrightarrow> (\<exists>x \<in> S. mem_conversation_id x = c \<and> mem_account_id x = a)"
  by (force simp: mem_key_def)

lemma soft_delete_hit:
  "(\<lambda>m. msg_id m = mid \<and> msg_deleted_at m = None
      \<and> list_ex (\<lambda>x. mem_account_id x = actor \<and> mem_conversation_id x = msg_conversation_id m)
          (conversation_members d)) = deletable d actor mid"
  by (auto simp: fun_eq_iff deletable_def list_ex_iff mem_key_in)

text \<open>
  (C21) Deleting for everyone. Without faults, a delete request of an authenticated account for a
  well-formed id, with any scope other than "me", succeeds exactly if there is such a message, not
  deleted yet, in a conversation the account is a member of; then this message, and no other, is
  marked deleted and loses its content, and its entries leave the shared-media index. Otherwise
  the answer is \<open>404\<close> and the database does not change.
\<close>

theorem delete_message_exact:
  assumes w: "no_faults w" and a: "run (authed w hs) s = (Inr (me, dv), s1)"
    and i: "uuid_parse w i = Some mid" and sc: "sc \<noteq> Some ''me''"
  shows "if \<exists>m \<in> set (messages (db s)). deletable (db s) me mid m
    then (\<exists>j. fst (run (delete_message_handler w hs i sc) s) = Inr j)
       \<and> db (snd (run (delete_message_handler w hs i sc) s)) = (db s)\<lparr>messages :=
           map (\<lambda>m. if deletable (db s) me mid m
                    then m\<lparr>msg_deleted_at := Some (pg_now w (tick s1)), msg_ciphertext := []\<rparr> else m)
             (messages (db s)),
           media_rows := filter (\<lambda>e. md_message_id e \<noteq> mid) (media_rows (db s))\<rparr>
    else fst (run (delete_message_handler w hs i sc) s) = Inl (NotFound ''no such message you can delete'')
       \<and> db (snd (run (delete_message_handler w hs i sc) s)) = db s"
proof (cases "List.find (deletable (db s) me mid) (messages (db s))")
  case None
  then have no: "\<not> (\<exists>m \<in> set (messages (db s)). deletable (db s) me mid m)" by (simp add: find_hit_iff)
  then have "update_where (deletable (db s) me mid) f (messages (db s)) = messages (db s)" for f
    by (intro update_where_no) simp
  with None no show ?thesis
    using a i sc w authed_run_db [OF a]
    by (simp add: delete_message_handler_def delete_message_def run_simps no_faultsD soft_delete_def soft_delete_hit)
next
  case (Some m)
  then have yes: "\<exists>m \<in> set (messages (db s)). deletable (db s) me mid m" using find_SomeD [OF Some] by blast
  have dl: "db (snd (run (deliver_to_conversation w cid env me dv) t)) = db t" for cid env t
    by (rule guar_same_db_run) (rule guar_delivery)
  have en: "db (snd (run (envelope_of w ty p) t)) = db t" for ty p t
    by (rule guar_same_db_run) (rule guar_events)
  from Some yes show ?thesis
    using a i sc w authed_run_db [OF a] dl en
    by (simp add: delete_message_handler_def delete_message_def run_simps no_faultsD soft_delete_def soft_delete_hit
        delete_media_of_def update_where_def split_beta)
qed

lemma hide_effect:
  assumes "hide_message_for mid me d = (Inr (), e)"
  shows "messages e = messages d
    \<and> set (hidden_messages e) = insert \<lparr>hid_message_id = mid, hid_account_id = me\<rparr> (set (hidden_messages d))"
proof -
  have "\<lparr>hid_message_id = mid, hid_account_id = me\<rparr> \<in> set (hidden_messages d)"
    if "has_key hid_key (mid, me) (hidden_messages d)"
    using that by (auto simp: has_key_iff hid_key_def image_iff)
      (metis (full_types) hidden_message.surjective old.unit.exhaust)
  with assms show ?thesis by (auto simp: hide_message_for_def split: if_splits)
qed

text \<open>
  (C22) Deleting for me. A successful delete request with scope "me" removes the message from the
  caller's view and changes nothing else: all other messages stay visible to the caller, and every
  other account sees what it saw before.
\<close>

theorem hide_only_for_me:
  assumes a: "run (authed w hs) s = (Inr (me, dv), s1)" and i: "uuid_parse w i = Some mid"
    and r: "run (delete_message_handler w hs i (Some ''me'')) s = (Inr j, t)"
  shows "messages (db t) = messages (db s)
    \<and> visible (db t) cid other m =
        (visible (db s) cid other m \<and> \<not> (other = me \<and> msg_id m = mid))"
proof -
  obtain u where h: "run (pg w (\<lambda>_. hide_message_for mid me)) s1 = (Inr (), t)"
    using r a i by (auto simp: delete_message_handler_def elim!: run_bindE_InrE dest!: run_ok_or_InrD run_dbq_InrD)
  have "hide_message_for mid me (db s) = (Inr (), db t)"
    using pg_result [OF h, THEN conjunct2] authed_run_db [OF a] by simp
  from hide_effect [OF this] show ?thesis by (auto simp: visible_def)
qed

section \<open>Delivery\<close>

definition live_devices :: "database \<Rightarrow> uuid \<Rightarrow> uuid set" where
  "live_devices d a =
     dev_id ` set (filter (\<lambda>v. dev_account_id v = a \<and> dev_revoked_at v = None) (devices d))"

lemma run_for_each_publish:
  "run (for_each devs (\<lambda>d. if Some (dev_id d) = ex then Ret () else bus_publish (dev_id d) env)) s
     = ((), s\<lparr>bus := ipb.pub_all (filter (\<lambda>d. Some d \<noteq> ex) (map dev_id devs)) env (bus s)\<rparr>)"
  by (induction devs arbitrary: s) (auto simp: run_simps bus_publish_def ipb.pub_all_def)

lemma count_list_distinct: "distinct xs \<Longrightarrow> count_list xs x = (if x \<in> set xs then 1 else 0)"
  by (induction xs) auto

lemma deliver_effect:
  assumes w: "no_faults w" and inv: "auth_inv (db s)"
  shows "db (snd (run (deliver_to_account w a env ex) s)) = db s
    \<and> pres (snd (run (deliver_to_account w a env ex) s)) = pres s
    \<and> sends (calls (bus (snd (run (deliver_to_account w a env ex) s))) d) =
        sends (calls (bus s) d) @ (if d \<in> live_devices (db s) a \<and> Some d \<noteq> ex then [env] else [])"
proof -
  let ?vs = "filter (\<lambda>v. dev_account_id v = a \<and> dev_revoked_at v = None) (devices (db s))"
  let ?ds = "filter (\<lambda>d. Some d \<noteq> ex) (map dev_id (reorder (row_order w (tick s)) ?vs))"
  have dist: "distinct ?ds"
    using inv by (auto simp: auth_inv_def distinct_map inj_on_def)
  have mem: "d \<in> set ?ds \<longleftrightarrow> d \<in> live_devices (db s) a \<and> Some d \<noteq> ex"
    by (auto simp: live_devices_def)
  have run: "run (deliver_to_account w a env ex) s =
      ((), (advance s)\<lparr>bus := ipb.pub_all ?ds env (bus s)\<rparr>)"
    using w by (simp add: deliver_to_account_def run_simps no_faultsD list_devices_for_account_def
        run_for_each_publish)
  show ?thesis
    using count_list_distinct [OF dist, of d] mem by (simp add: run ipb.sends_pub_all)
qed

lemma live_devices_disjoint:
  assumes "auth_inv d" and "a \<noteq> b" shows "live_devices d a \<inter> live_devices d b = {}"
proof -
  have "v = v'" if "v \<in> set (devices d)" "v' \<in> set (devices d)" "dev_id v = dev_id v'" for v v'
    using assms(1) that distinct_key_eq [of dev_id "devices d" v v'] by (simp add: auth_inv_def)
  with assms(2) show ?thesis by (auto simp: live_devices_def)
qed

lemma deliver_message_effect:
  assumes w: "no_faults w" and inv: "auth_inv (db s)"
  shows "db (snd (run (deliver_message w me dv target env) s)) = db s
    \<and> pres (snd (run (deliver_message w me dv target env) s)) = pres s
    \<and> sends (calls (bus (snd (run (deliver_message w me dv target env) s))) d) =
        sends (calls (bus s) d) @
          (if (d \<in> live_devices (db s) target \<or> d \<in> live_devices (db s) me) \<and>
              (d \<in> live_devices (db s) me \<longrightarrow> d \<noteq> dv) then [env] else [])"
proof -
  note one = deliver_effect [OF w inv]
  show ?thesis
  proof (cases "target = me")
    case True
    then show ?thesis using one [of me env "Some dv" d] by (simp add: deliver_message_def)
  next
    case False
    define u where "u = snd (run (deliver_to_account w target env None) s)"
    have "run (deliver_message w me dv target env) s = run (deliver_to_account w me env (Some dv)) u"
      using False by (simp add: deliver_message_def run_bind u_def split_beta)
    moreover have u: "db u = db s" "pres u = pres s"
      "sends (calls (bus u) d) = sends (calls (bus s) d) @ (if d \<in> live_devices (db s) target then [env] else [])"
      using one [of target env None d] by (simp_all add: u_def)
    moreover have "auth_inv (db u)" using inv u by simp
    ultimately show ?thesis
      using deliver_effect [OF w, of u me env "Some dv" d] live_devices_disjoint [OF inv False] by auto
  qed
qed

text \<open>
  Delivery is exact. Without faults, delivering a new message publishes the event once to
  every device of the recipient and every other device of the sender, revoked devices excepted,
  and to no further device, not even the sending one; it changes neither the database nor
  presence.
\<close>

lemma deliver_message_exact:
  assumes w: "no_faults w" and s: "sys_inv s"
  shows "db (snd (run (deliver_message w me dv target env) s)) = db s
    \<and> pres (snd (run (deliver_message w me dv target env) s)) = pres s
    \<and> sends (calls (bus (snd (run (deliver_message w me dv target env) s))) d) =
        sends (calls (bus s) d) @
          (if (d \<in> live_devices (db s) target \<or> d \<in> live_devices (db s) me) \<and>
              (d \<in> live_devices (db s) me \<longrightarrow> d \<noteq> dv) then [env] else [])"
  by (rule deliver_message_effect [OF w]) (use s in \<open>simp add: sys_inv_def db_inv_def\<close>)

section \<open>Concrete runs\<close>

text \<open>The two accounts after the first has sent the second one message.\<close>

definition demo_chat :: sys where
  "demo_chat = demo_two\<lparr>tick := 50, dm_claim := [1034 \<mapsto> (1, 2)], db := (db demo_two)\<lparr>
     conversations := [\<lparr>conv_id = 1034, conv_kind = ''dm'', conv_epoch = 0, conv_last_seq = 1, conv_created_at = 35\<rparr>],
     conversation_members := [\<lparr>mem_conversation_id = 1034, mem_account_id = 1\<rparr>,
       \<lparr>mem_conversation_id = 1034, mem_account_id = 2\<rparr>],
     dm_conversations := [\<lparr>dm_account_lo = 1, dm_account_hi = 2, dm_conversation_id = 1034\<rparr>],
     messages := [\<lparr>msg_id = 1040, msg_conversation_id = 1034, msg_seq = 1, msg_sender_account_id = 1,
       msg_sender_device_id = Some 11, msg_ciphertext = [104, 105], msg_server_ts = 41,
       msg_reply_to = None, msg_edited_at = None, msg_deleted_at = None\<rparr>]\<rparr>\<rparr>"

lemma sys_inv_demo_chat [simp]: "sys_inv demo_chat"
  by (simp add: sys_inv_def claim_inv_def db_inv_def auth_inv_def conv_inv_def msg_inv_def marker_inv_def
      media_inv_def misc_inv_def demo_sys_def demo_two_def demo_chat_def empty_database_def conv_ids_def
      marker_rows_def acc_ids_def dm_ids_def seq_within_def mem_key_def seq_key_def dm_key_def i64_max_def
      split: marker_table.splits)

definition demo_send :: send_req where
  "demo_send = \<lparr>sr_to_username = ''bo'', sr_ciphertext = ''hi'', sr_attachment = None,
     sr_attachments = None, sr_reply_to_message_id = None\<rparr>"

lemma demo_send_run:
  "\<exists>j t. run (send_message demo_world demo_al demo_send) demo_two = (Inr j, t) \<and> db t = db demo_chat"
  by (simp add: demo_send_def demo_chat_def prog_defs run_simps)

theorem send_message_stored_witness:
  "\<exists>j t m. run (send_message demo_world demo_al demo_send) demo_two = (Inr j, t)
     \<and> messages (db t) = messages (db demo_two) @ [m] \<and> msg_sender_account_id m = 1
     \<and> msg_ciphertext m = [104, 105]"
proof -
  obtain j t where t: "run (send_message demo_world demo_al demo_send) demo_two = (Inr j, t)"
    using demo_send_run by blast
  have "fst (run (authed demo_world demo_al) demo_two) = Inr (1, 11)" by (simp add: prog_defs run_simps)
  then show ?thesis
    using t send_message_stored [OF sys_inv_demo_two t] by (auto simp: demo_send_def)
qed

lemma demo_authed:
  "fst (run (authed demo_world demo_al) demo_two) = Inr (1, 11)"
  "run (authed demo_world demo_al) demo_chat = (Inr (1, 11), advance (advance demo_chat))"
  "run (authed demo_world demo_bo) demo_chat = (Inr (2, 12), advance (advance demo_chat))"
  by (simp_all add: demo_chat_def prog_defs run_simps)

lemma demo_history_run:
  "\<exists>j t. run (history_handler demo_world demo_bo ''al'') demo_chat = (Inr j, t)"
  by (simp add: demo_chat_def prog_defs run_simps)

theorem history_handler_exact_witness:
  "\<exists>j t cid ms pr pd. run (history_handler demo_world demo_bo ''al'') demo_chat = (Inr j, t)
     \<and> set ms = {m. visible (db demo_chat) cid 2 m}
     \<and> jfield ''messages'' j = Some (JArr (map (message_json demo_world 2 pr pd) ms))"
proof -
  obtain j t where t: "run (history_handler demo_world demo_bo ''al'') demo_chat = (Inr j, t)"
    using demo_history_run by blast
  have "fst (run (authed demo_world demo_bo) demo_chat) = Inr (2, 12)" by (simp add: demo_authed)
  then show ?thesis
    using t history_handler_exact [OF sys_inv_demo_chat t] by fastforce
qed

theorem send_then_history_witness:
  "\<exists>j t h v m items pr pd. run (send_message demo_world demo_al demo_send) demo_two = (Inr j, t)
     \<and> run (history_handler demo_world demo_bo ''al'') demo_chat = (Inr h, v)
     \<and> msg_ciphertext m = [104, 105] \<and> jfield ''messages'' h = Some (JArr items)
     \<and> message_json demo_world 2 pr pd m \<in> set items"
proof -
  obtain j t where t: "run (send_message demo_world demo_al demo_send) demo_two = (Inr j, t)" "db t = db demo_chat"
    using demo_send_run by blast
  obtain h v where h: "run (history_handler demo_world demo_bo ''al'') demo_chat = (Inr h, v)"
    using demo_history_run by blast
  let ?me = "\<lparr>acc_id = 1, acc_username = ''al'', acc_password_verifier = ''passw0rd'', acc_created_at = 2\<rparr> :: account"
  let ?peer = "\<lparr>acc_id = 2, acc_username = ''bo'', acc_password_verifier = ''hunter22'', acc_created_at = 3\<rparr> :: account"
  have "?me \<in> set (accounts (db demo_two))" "?peer \<in> set (accounts (db demo_two))"
    by (simp_all add: demo_two_def)
  moreover have "hidden_messages (db t) = []"
    unfolding t(2) by (simp add: demo_chat_def demo_two_def empty_database_def)
  ultimately show ?thesis
    using send_then_history [of demo_two demo_world demo_al demo_send j t demo_chat demo_bo ?me h v 11 ?peer 12]
      t h demo_authed by (simp add: demo_send_def) metis
qed

theorem edit_message_exact_witness:
  "(\<exists>j. fst (run (edit_message_handler demo_world demo_al (replicate 1040 CHR ''x'') ''yo'') demo_chat) = Inr j)
   \<and> map msg_ciphertext (messages (db (snd (run (edit_message_handler demo_world demo_al
        (replicate 1040 CHR ''x'') ''yo'') demo_chat)))) = [[121, 111]]"
proof -
  have "\<exists>m \<in> set (messages (db demo_chat)). editable 1 1040 m"
    by (simp add: demo_chat_def editable_def)
  then show ?thesis
    using edit_message_exact [OF no_faults_demo demo_authed(2), of "replicate 1040 CHR ''x''" 1040 "''yo''" "[121, 111]"]
    by (simp add: demo_chat_def editable_def)
qed

theorem delete_message_exact_witness:
  "(\<exists>j. fst (run (delete_message_handler demo_world demo_al (replicate 1040 CHR ''x'') None) demo_chat) = Inr j)
   \<and> map msg_ciphertext (messages (db (snd (run (delete_message_handler demo_world demo_al
        (replicate 1040 CHR ''x'') None) demo_chat)))) = [[]]"
proof -
  have "\<exists>m \<in> set (messages (db demo_chat)). deletable (db demo_chat) 1 1040 m"
    by (simp add: demo_chat_def deletable_def mem_key_def)
  then show ?thesis
    using delete_message_exact [OF no_faults_demo demo_authed(2), of "replicate 1040 CHR ''x''" 1040 None]
    by (simp add: demo_chat_def deletable_def mem_key_def)
qed

text \<open>
  Members delete each other's messages. The conversation partner, who did not send the
  message and may not edit it, deletes it for everyone: its content is gone for the sender too.
\<close>

lemma partner_deletes_for_everyone:
  "msg_sender_account_id (hd (messages (db demo_chat))) = 1
   \<and> fst (run (authed demo_world demo_bo) demo_chat) = Inr (2, 12)
   \<and> (\<exists>j. fst (run (delete_message_handler demo_world demo_bo (replicate 1040 CHR ''x'') None) demo_chat) = Inr j)
   \<and> map msg_ciphertext (messages (db (snd (run (delete_message_handler demo_world demo_bo
        (replicate 1040 CHR ''x'') None) demo_chat)))) = [[]]
   \<and> fst (run (edit_message_handler demo_world demo_bo (replicate 1040 CHR ''x'') ''yo'') demo_chat)
        = Inl (NotFound ''no such message you can edit'')"
  by (simp add: demo_authed) (simp add: demo_chat_def prog_defs run_simps)

theorem hide_only_for_me_witness:
  "\<exists>j t m. run (delete_message_handler demo_world demo_bo (replicate 1040 CHR ''x'') (Some ''me'')) demo_chat = (Inr j, t)
     \<and> m \<in> set (messages (db demo_chat)) \<and> visible (db t) 1034 1 m \<and> \<not> visible (db t) 1034 2 m"
proof -
  obtain j t where t: "run (delete_message_handler demo_world demo_bo (replicate 1040 CHR ''x'') (Some ''me'')) demo_chat
      = (Inr j, t)"
    by (simp add: demo_chat_def prog_defs run_simps)
  have "visible (db demo_chat) 1034 1 (hd (messages (db demo_chat)))" "msg_id (hd (messages (db demo_chat))) = 1040"
    "hd (messages (db demo_chat)) \<in> set (messages (db demo_chat))"
    by (simp_all add: demo_chat_def visible_def demo_two_def empty_database_def)
  then show ?thesis
    using t hide_only_for_me [OF demo_authed(3) _ t, of 1040] by auto
qed

end
