(* ===== verification/App_Properties.thy ===== *)
theory App_Properties
  imports App Message_Properties
begin

text \<open>
  Properties of single requests at the level of the router: the version guard, requests without
  a valid session, failing statements, blobs and profiles.
\<close>

section \<open>The version guard\<close>

lemma digit_zero: "digit_val c = Some 0 \<longleftrightarrow> c = CHR ''0''"
  proof -
    have "(of_char c :: nat) = of_char CHR ''0'' \<longleftrightarrow> c = CHR ''0''" by (simp only: of_char_eq_iff)
    then have "c = CHR ''0'' \<longleftrightarrow> (of_char c :: nat) = 48" by simp
    then show ?thesis by (auto simp: digit_val_def)
  qed

lemma parse_digits_step: "parse_digits acc (c # cs) = Some n \<longleftrightarrow>
   (\<exists>d. digit_val c = Some d \<and> 10 * acc + d < 2 ^ 32 \<and> parse_digits (10 * acc + d) cs = Some n)"
  by (simp split: option.split)

declare parse_digits.simps(2) [simp del]

lemma parse_digits_zero: "parse_digits acc s = Some 0 \<longleftrightarrow> acc = 0 \<and> list_all (\<lambda>c. c = CHR ''0'') s"
proof (induction s arbitrary: acc)
  case Nil
  show ?case by simp
next
  case (Cons c cs)
  have key: "10 * acc + d < 2 ^ 32 \<and> 10 * acc + d = 0 \<and> Z \<longleftrightarrow> acc = 0 \<and> d = 0 \<and> Z" for d :: nat and Z by auto
  have "parse_digits acc (c # cs) = Some 0 \<longleftrightarrow> acc = 0 \<and> digit_val c = Some 0 \<and> list_all (\<lambda>c. c = CHR ''0'') cs"
    unfolding parse_digits_step Cons.IH key by blast
  then show ?case unfolding digit_zero by (simp only: list.pred_inject)
qed

lemma parse_digits_bound: "acc < 2 ^ 32 \<Longrightarrow> parse_digits acc s = Some n \<Longrightarrow> n < 2 ^ 32"
proof (induction s arbitrary: acc)
  case Nil
  then show ?case by simp
next
  case (Cons c cs)
  then show ?case unfolding parse_digits_step by blast
qed

lemma replicate_zeros: "b \<noteq> [] \<and> (\<forall>c \<in> set b. c = z) \<longleftrightarrow> (\<exists>n. b = replicate (Suc n) z)" for b :: "'a list"
proof
  assume b: "b \<noteq> [] \<and> (\<forall>c \<in> set b. c = z)"
  then have "b = replicate (length b) z" by (intro replicate_eqI) auto
  moreover have "length b = Suc (length b - 1)" using b by (cases b) auto
  ultimately show "\<exists>n. b = replicate (Suc n) z" by metis
qed auto
lemma of_nat_u32_zero:
  assumes "n < 2 ^ 32" shows "(of_nat n :: u32) = 0 \<longleftrightarrow> n = 0"
proof -
  have "unat (of_nat n :: u32) = n mod 2 ^ LENGTH(32)" by (rule unat_of_nat)
  then have u: "unat (of_nat n :: u32) = n" using assms by simp
  show ?thesis
  proof
    assume z: "(of_nat n :: u32) = 0"
    show "n = 0" using u unfolding z unat_0 by (rule sym)
  next
    assume z: "n = 0"
    show "(of_nat n :: u32) = 0" unfolding z by simp
  qed
qed

lemma parse_digits_u32_zero:
  "map_option (of_nat :: nat \<Rightarrow> u32) (parse_digits 0 b) = Some 0 \<longleftrightarrow> list_all (\<lambda>c. c = CHR ''0'') b"
proof (cases "parse_digits 0 b")
  case None
  then show ?thesis using parse_digits_zero [of 0 b] by (simp only: option.map option.distinct simp_thms)
next
  case (Some n)
  have "n < 2 ^ 32" by (rule parse_digits_bound [OF _ Some]) simp
  from of_nat_u32_zero [OF this] parse_digits_zero [of 0 b] Some show ?thesis
    by (simp only: option.map option.inject simp_thms)
qed

definition digits_of :: "string \<Rightarrow> string" where
  "digits_of h = (case h of c # cs \<Rightarrow> if c = CHR ''+'' then cs else h | [] \<Rightarrow> [])"

lemma parse_u32_zero_body:
  "parse_u32 h = Some 0 \<longleftrightarrow> (\<exists>n. digits_of h = replicate (Suc n) CHR ''0'')"
proof -
  have "parse_u32 h = Some 0 \<longleftrightarrow> digits_of h \<noteq> [] \<and> list_all (\<lambda>c. c = CHR ''0'') (digits_of h)"
    unfolding parse_u32_def digits_of_def [symmetric] Let_def
    by (cases "digits_of h = []") (simp_all only: if_True if_False parse_digits_u32_zero option.distinct simp_thms)
  then show ?thesis unfolding list_all_iff replicate_zeros .
qed

lemma parse_u32_zero:
  "parse_u32 h = Some 0 \<longleftrightarrow>
     (\<exists>n. h = replicate (Suc n) CHR ''0'' \<or> h = CHR ''+'' # replicate (Suc n) CHR ''0'')"
proof -
  have "digits_of h = replicate (Suc n) CHR ''0'' \<longleftrightarrow>
      h = replicate (Suc n) CHR ''0'' \<or> h = CHR ''+'' # replicate (Suc n) CHR ''0''" for n
    by (cases h) (simp_all add: digits_of_def)
  then show ?thesis unfolding parse_u32_zero_body by (simp only:)
qed

text \<open>
  The version guard. A request below the version prefix reaches its handler exactly if its
  version header is a number whose value is the protocol version, that is, one or more zeros with
  an optional plus sign; any other request is answered with \<open>426\<close> and changes nothing.
\<close>

lemma version_guard_exact:
  "run (router w parse (Versioned hs c)) s =
    (if \<exists>v h n. map_of hs ''trust-protocol-version'' = Some v \<and> header_to_str w v = Some h
         \<and> (h = replicate (Suc n) CHR ''0'' \<or> h = CHR ''+'' # replicate (Suc n) CHR ''0'')
     then run (dispatch w hs c) s else (upgrade_required, s))"
proof -
  have "declared_version w hs = Some PROTOCOL_VERSION \<longleftrightarrow>
      (\<exists>v h. map_of hs ''trust-protocol-version'' = Some v \<and> header_to_str w v = Some h \<and> parse_u32 h = Some 0)"
    by (auto simp: declared_version_def PROTOCOL_VERSION_def bind_eq_Some_conv)
  then have "declared_version w hs = Some PROTOCOL_VERSION \<longleftrightarrow>
      (\<exists>v h n. map_of hs ''trust-protocol-version'' = Some v \<and> header_to_str w v = Some h
         \<and> (h = replicate (Suc n) CHR ''0'' \<or> h = CHR ''+'' # replicate (Suc n) CHR ''0''))"
    unfolding parse_u32_zero by blast
  then show ?thesis
    by (simp only: router.simps require_protocol_version_def if_distrib [of "\<lambda>p. run p s"] run_Ret)
qed

section \<open>Requests without a valid token\<close>

fun needs_token :: "call \<Rightarrow> bool" where
  "needs_token Capabilities = False"
| "needs_token (Register req) = False"
| "needs_token (Login req) = False"
| "needs_token (Refresh req) = False"
| "needs_token (Rejected st) = False"
| "needs_token _ = True"

definition unauthorized :: "string \<Rightarrow> reply" where
  "unauthorized msg = JsonReply 401 (JObj [(''code'', JStr ''UNAUTHENTICATED''), (''message'', JStr msg)])"

lemma run_authed_first:
  assumes "run (authed w hs) s = (Inl (Unauthorized msg), t)"
  shows "run (respond f (bindE (authed w hs) k)) s = (unauthorized msg, t)"
  using assms by (simp add: respond_def run_bind run_bindE unauthorized_def app_error_response_def)

lemma dispatch_unauthorized:
  assumes "run (authed w hs) s = (Inl (Unauthorized msg), t)" and "needs_token c" and "c \<noteq> Logout"
  shows "run (dispatch w hs c) s = (unauthorized msg, t)"
  using assms
  by (cases c) (simp_all add: run_authed_first list_users_handler_def lookup_user_def list_conversations_def
      send_message_def history_handler_def edit_message_handler_def delete_message_handler_def upload_blob_def
      list_media_handler_def get_my_profile_def get_profile_handler_def update_profile_def)

lemma authed_total:
  assumes "no_faults w"
  shows "\<exists>r t. run (authed w hs) s = (r, t) \<and> db t = db s \<and> pres t = pres s \<and> bus t = bus s
    \<and> ((\<exists>msg. r = Inl (Unauthorized msg)) \<or> (\<exists>a dv. r = Inr (a, dv)))"
  by (auto simp: run_authed [OF assms] split: option.splits)

lemma no_live_session:
  assumes inv: "auth_inv d" and none: "\<And>a dv. \<not> token_identifies w d now tok a dv"
  shows "List.find (\<lambda>e. ses_access_token_hash e = hash_token w tok \<and> ses_revoked_at e = None
           \<and> now < ses_expires_at e) (sessions d) = None"
proof (rule ccontr)
  assume "\<not> ?thesis"
  then obtain e where "live_session d now (hash_token w tok) e"
    by (auto simp: find_live_iff [OF inv])
  moreover from this have "ses_device_id e \<in> dev_id ` set (devices d)"
    using inv unfolding auth_inv_def live_session_def by blast
  ultimately show False using none unfolding token_identifies_def by (metis imageE)
qed

text \<open>
  Without faults, a request to any route but those of the
  handshake, registration, login and refresh, whose bearer token is missing or belongs to no live
  session, is answered with \<open>401\<close>, or \<open>204\<close> for logout, and changes neither the database nor
  presence nor the bus.
\<close>

lemma no_access_without_session:
  assumes w: "no_faults w" and s: "sys_inv s" and c: "needs_token c"
    and none: "\<forall>tok a dv. bearer_token w hs = Some tok \<longrightarrow>
      \<not> token_identifies w (db s) (pg_now w (tick s)) tok a dv"
  shows "((\<exists>msg. fst (run (dispatch w hs c) s) = unauthorized msg)
      \<or> c = Logout \<and> fst (run (dispatch w hs c) s) = EmptyReply 204)
    \<and> db (snd (run (dispatch w hs c) s)) = db s \<and> pres (snd (run (dispatch w hs c) s)) = pres s
    \<and> bus (snd (run (dispatch w hs c) s)) = bus s"
proof -
  have inv: "auth_inv (db s)" using s by (simp add: sys_inv_def db_inv_def)
  obtain r t where t: "run (authed w hs) s = (r, t)" "db t = db s" "pres t = pres s" "bus t = bus s"
    and r: "(\<exists>msg. r = Inl (Unauthorized msg)) \<or> (\<exists>a dv. r = Inr (a, dv))"
    using authed_total [OF w, of hs s] by blast
  have not_in: "fst (run (authed w hs) s) \<noteq> Inr (a, dv)" for a dv
  proof (cases "bearer_token w hs")
    case None
    then show ?thesis by (simp add: run_authed [OF w])
  next
    case (Some tok)
    with none show ?thesis by (simp add: authed_result [OF w inv Some])
  qed
  have "r \<noteq> Inr (a, dv)" for a dv using not_in [of a dv] t(1) by simp
  with r obtain msg where "r = Inl (Unauthorized msg)" by blast
  with t(1) have msg: "run (authed w hs) s = (Inl (Unauthorized msg), t)" by simp
  show ?thesis
  proof (cases "c = Logout")
    case False
    then show ?thesis using dispatch_unauthorized [OF msg c False] t(2-4) by auto
  next
    case True
    show ?thesis
    proof (cases "bearer_token w hs")
      case None
      then show ?thesis using True
        by (simp add: logout_def respond_def run_simps unauthorized_def app_error_response_def)
    next
      case (Some tok)
      have "List.find (\<lambda>e. ses_access_token_hash e = hash_token w tok \<and> ses_revoked_at e = None
                  \<and> pg_now w (tick s) < ses_expires_at e) (sessions (db s)) = None"
        using no_live_session [OF inv] none Some by blast
      then show ?thesis using True run_logout [OF w Some, of s] by (simp add: respond_def run_simps)
    qed
  qed
qed

section \<open>Failing statements\<close>

text \<open>
  The text of a database error reaches the client. When the first statement of a login fails
  for another reason than a violated constraint, the answer is \<open>500\<close> and its message contains the
  error text of the database driver.
\<close>

lemma database_error_text_reaches_client:
  assumes "b64_decode w (reg_public_identity (lr_device req)) = Some k"
    and "fault w (tick s) = FailBefore e"
  shows "run (dispatch w hs (Login req)) s =
    (JsonReply 500 (JObj [(''code'', JStr ''INTERNAL''),
       (''message'', JStr (''database error: '' @ sqlx_text w (OtherSqlx e)))]), advance s)"
  using assms by (simp add: respond_def login_def decode_identity_def run_simps app_error_response_def)

section \<open>Blobs\<close>

lemma upload_effect:
  assumes "run (upload_blob w hs content) s = (Inr j, t)"
  shows "\<exists>i ct b. j = JObj [(''blobId'', juuid w i)] \<and> blobs (db t) = blobs (db s) @ [b]
    \<and> bl_id b = i \<and> bl_bytes b = content \<and> bl_content_type b = ct \<and> content \<noteq> []
    \<and> ct = (case Option.bind (map_of hs ''content-type'') (header_to_str w) of
             None \<Rightarrow> ''application/octet-stream'' | Some v \<Rightarrow> v)"
proof -
  obtain me s1 i where a: "run (authed w hs) s = (Inr me, s1)" and c: "content \<noteq> []"
    and p: "run (put_blob w (case Option.bind (map_of hs ''content-type'') (header_to_str w) of
             None \<Rightarrow> ''application/octet-stream'' | Some v \<Rightarrow> v) content) s1 = (Inr i, t)"
    and j: "j = JObj [(''blobId'', juuid w i)]"
    using assms unfolding upload_blob_def Let_def
    by (auto elim!: run_bindE_InrE dest!: run_dbq_InrD split: if_splits)
  obtain s2 where b: "run (pg w (\<lambda>n. insert_blob (pg_now w n) i (case Option.bind (map_of hs ''content-type'')
      (header_to_str w) of None \<Rightarrow> ''application/octet-stream'' | Some v \<Rightarrow> v) content)) s2 = (Inr (), t)"
      "db s2 = db s1"
    using p unfolding put_blob_def
    by (auto elim!: run_bindE_InrE run_bind_resE simp: run_new_uuid)
  have "db s1 = db s" by (rule authed_run_db [OF a])
  then show ?thesis
    using pg_result [OF b(1), THEN conjunct2] pg_db [OF b(1)] b(2) j c
    by (auto simp: insert_blob_def split: if_splits)
qed

text \<open>
  (C35) Blobs are kept. Once an upload has succeeded, the blob is served under the id it was given,
  with the bytes and the content type of the upload, in every later state of the server.
\<close>

theorem blob_round_trip:
  assumes s: "sys_inv s" and r: "run (upload_blob w hs content) s = (Inr j, t)"
    and u: "sys_inv u" "sys_grows t u" and f: "fault w (tick u) = NoFault"
  shows "\<exists>i. j = JObj [(''blobId'', juuid w i)] \<and> fst (run (get_blob_handler w i) u) =
      BlobContent (case Option.bind (map_of hs ''content-type'') (header_to_str w) of
             None \<Rightarrow> ''application/octet-stream'' | Some v \<Rightarrow> v) ''public, max-age=31536000'' content"
proof -
  obtain b where b: "j = JObj [(''blobId'', juuid w (bl_id b))]" "blobs (db t) = blobs (db s) @ [b]"
    "bl_bytes b = content" "bl_content_type b = (case Option.bind (map_of hs ''content-type'') (header_to_str w) of
             None \<Rightarrow> ''application/octet-stream'' | Some v \<Rightarrow> v)"
    using upload_effect [OF r] by auto
  have "b \<in> set (blobs (db u))"
    using u(2) b(2) by (auto simp: sys_grows_def db_grows_def content_grows_def)
  then have "List.find (\<lambda>x. bl_id x = bl_id b) (blobs (db u)) = Some b"
    using u(1) by (intro find_unique_key) (auto simp: sys_inv_def db_inv_def misc_inv_def)
  then have "fst (run (get_blob_handler w (bl_id b)) u) =
      BlobContent (bl_content_type b) ''public, max-age=31536000'' (bl_bytes b)"
    using f by (simp add: get_blob_handler_def run_simps get_blob_def)
  with b show ?thesis by auto
qed

theorem blob_round_trip_witness:
  "\<exists>j t i. run (upload_blob demo_world demo_al [1, 2, 3]) demo_two = (Inr j, t)
     \<and> fst (run (get_blob_handler demo_world i) t)
         = BlobContent ''application/octet-stream'' ''public, max-age=31536000'' [1, 2, 3]"
proof -
  obtain j t where t: "run (upload_blob demo_world demo_al [1, 2, 3]) demo_two = (Inr j, t)"
    by (simp add: prog_defs run_simps)
  have "sys_inv t" using safe_run_inv [OF safe_media_handlers(2) sys_inv_demo_two t] .
  from blob_round_trip [OF sys_inv_demo_two t this srv.refl] t show ?thesis by (auto simp: demo_al_def)
qed

section \<open>Profiles\<close>

lemma find_update_where:
  assumes "\<And>r. key (f r) = key r"
  shows "List.find (\<lambda>r. key r = a) (update_where (\<lambda>r. key r = k) f rows)
       = map_option (\<lambda>r. if key r = k then f r else r) (List.find (\<lambda>r. key r = a) rows)"
  using assms by (induction rows) (auto simp: update_where_def)

lemma upsert_row_effect:
  assumes "upsert_profile_row me f d = (Inr (), e)" and f: "\<And>p. pr_account_id (f p) = pr_account_id p"
  shows "profile_of e me = Some (f (case profile_of d me of None \<Rightarrow> profile_default me | Some p \<Rightarrow> p))"
    and "a \<noteq> me \<Longrightarrow> profile_of e a = profile_of d a"
proof -
  have "profile_of e me = Some (f (case profile_of d me of None \<Rightarrow> profile_default me | Some p \<Rightarrow> p))
      \<and> (a \<noteq> me \<longrightarrow> profile_of e a = profile_of d a)"
  proof (cases "has_key pr_account_id me (profiles d)")
    case True
    then obtain p where p: "profile_of d me = Some p" "pr_account_id p = me"
      using find_NoneD [of "\<lambda>p. pr_account_id p = me" "profiles d"] find_SomeD
      unfolding profile_of_def has_key_iff by (metis (mono_tags, lifting) imageE option.exhaust)
    have "map_option (\<lambda>r. if pr_account_id r = me then f r else r) (profile_of d a) = profile_of d a" if "a \<noteq> me"
      using that find_SomeD [of "\<lambda>p. pr_account_id p = a" "profiles d"]
      by (cases "profile_of d a") (auto simp: profile_of_def)
    moreover have "e = d\<lparr>profiles := update_where (\<lambda>p. pr_account_id p = me) f (profiles d)\<rparr>"
      using assms(1) True by (simp add: upsert_profile_row_def)
    ultimately show ?thesis
      using p find_update_where [of pr_account_id f _ me "profiles d"] f by (simp add: profile_of_def)
  next
    case False
    then have "profile_of d me = None"
      by (auto simp: profile_of_def find_None_iff has_key_iff)
    moreover have "e = d\<lparr>profiles := profiles d @ [f (profile_default me)]\<rparr>"
      using assms(1) False by (simp add: upsert_profile_row_def split: if_splits)
    moreover have "pr_account_id (f (profile_default me)) = me" by (simp add: f profile_default_def)
    ultimately show ?thesis by (auto simp: profile_of_def find_append split: option.splits)
  qed
  then show "profile_of e me = Some (f (case profile_of d me of None \<Rightarrow> profile_default me | Some p \<Rightarrow> p))"
    and "a \<noteq> me \<Longrightarrow> profile_of e a = profile_of d a" by simp_all
qed

text \<open>
  (C37) Profile updates. A successful update of the own profile sets each text field that was
  given, clears it when it is blank, and keeps it when it is absent; the avatar is set to the id
  that was given, cleared by an empty or malformed one and kept when absent; the time of the last
  visit stays, and so do the profiles of all other accounts.
\<close>

theorem update_profile_effect:
  assumes a: "run (authed w hs) s = (Inr (me, dv), s1)" and r: "run (update_profile w hs req) s = (Inr j, t)"
  shows "\<exists>cur p. get_profile me (db s) = (Inr cur, db s) \<and> get_profile me (db t) = (Inr p, db t)
    \<and> pr_display_name p = (case up_display_name req of None \<Rightarrow> pr_display_name cur
         | Some d \<Rightarrow> if trim_is_empty d then None else Some d)
    \<and> pr_bio p = (case up_bio req of None \<Rightarrow> pr_bio cur | Some b \<Rightarrow> if trim_is_empty b then None else Some b)
    \<and> pr_avatar_blob_id p = (case up_avatar_blob_id req of None \<Rightarrow> pr_avatar_blob_id cur
         | Some x \<Rightarrow> if x = [] then None else uuid_parse w x)
    \<and> pr_last_seen p = pr_last_seen cur
    \<and> (\<forall>other. other \<noteq> me \<longrightarrow> get_profile other (db t) = (fst (get_profile other (db s)), db t))"
proof -
  define tail where "tail = bindE (dbq w (pg w (\<lambda>_. username_of me))) (\<lambda>username.
        bindE (dbq w (pg w (\<lambda>_. get_profile me))) (\<lambda>p.
        bind (envelope_of w ''profile.update'' (profile_event w me username p)) (\<lambda>env.
        bind (pg w (\<lambda>n. conversations_for (row_order w n) me)) (\<lambda>convos.
        bind (case convos of
                Inl _ \<Rightarrow> Ret ()
              | Inr rows \<Rightarrow> for_each rows (\<lambda>r. deliver_to_account w (cl_other r) env None)) (\<lambda>_.
        bind (deliver_to_account w me env None) (\<lambda>_.
        profile_json w me username))))))"
  obtain cur s2 where g: "run (dbq w (pg w (\<lambda>_. get_profile me))) s1 = (Inr cur, s2)"
    and "run (bindE (dbq w (pg w (\<lambda>_. upsert_profile me (text_field (up_display_name req) (pr_display_name cur))
          (text_field (up_bio req) (pr_bio cur)) (avatar_field w (up_avatar_blob_id req) (pr_avatar_blob_id cur)))))
        (\<lambda>_. tail)) s2 = (Inr j, t)"
    using r unfolding update_profile_def Let_def run_bindE [of "authed w hs"] a
    by (simp add: tail_def run_bindE [of "dbq w (pg w (\<lambda>_. get_profile me))" _ s1] split: sum.splits prod.splits)
  then obtain s3 where u: "run (dbq w (pg w (\<lambda>_. upsert_profile me (text_field (up_display_name req) (pr_display_name cur))
          (text_field (up_bio req) (pr_bio cur)) (avatar_field w (up_avatar_blob_id req) (pr_avatar_blob_id cur))))) s2
        = (Inr (), s3)" and rest: "run tail s3 = (Inr j, t)"
    by (simp add: run_bindE split: sum.splits prod.splits)
  have "guar same_db tail"
    unfolding tail_def profile_json_def by (auto intro!: guar_intros reads_db split: sum.splits)
  then have t: "db t = db s3" using guar_same_db_run rest by (metis snd_conv)
  note g = run_dbq_InrD [OF g] and u = run_dbq_InrD [OF u]
  have s2: "db s2 = db s" and cur: "get_profile me (db s) = (Inr cur, db s)"
    using pg_result [OF g, THEN conjunct2] pg_db [OF g] authed_run_db [OF a] by (simp_all add: reads_snd)
  note up = pg_result [OF u, THEN conjunct2, unfolded s2 upsert_profile_def]
  have me: "profile_of (db t) me = Some (cur\<lparr>pr_display_name := text_field (up_display_name req) (pr_display_name cur),
      pr_bio := text_field (up_bio req) (pr_bio cur),
      pr_avatar_blob_id := avatar_field w (up_avatar_blob_id req) (pr_avatar_blob_id cur)\<rparr>)"
    using upsert_row_effect(1) [OF up] cur by (simp add: t get_profile_def)
  have other: "profile_of (db t) a = profile_of (db s) a" if "a \<noteq> me" for a
    using upsert_row_effect(2) [OF up _ that] by (simp add: t)
  show ?thesis
    using cur me other by (simp add: get_profile_def text_field_def avatar_field_def)
qed


definition demo_profile :: update_profile_req where
  "demo_profile = \<lparr>up_display_name = Some ''Alice'', up_bio = Some ''  '', up_avatar_blob_id = None\<rparr>"

theorem update_profile_effect_witness:
  "\<exists>me dv s1 j t p. run (authed demo_world demo_al) demo_two = (Inr (me, dv), s1)
     \<and> run (update_profile demo_world demo_al demo_profile) demo_two = (Inr j, t)
     \<and> get_profile me (db t) = (Inr p, db t) \<and> pr_display_name p = Some ''Alice'' \<and> pr_bio p = None"
proof -
  obtain me dv s1 where a: "run (authed demo_world demo_al) demo_two = (Inr (me, dv), s1)"
    by (simp add: prog_defs run_simps)
  obtain j t where r: "run (update_profile demo_world demo_al demo_profile) demo_two = (Inr j, t)"
    by (simp add: prog_defs run_simps demo_profile_def trim_is_empty_def username_of_def conversations_for_def ascii_ws_def ws2_def ws3_def)
  have "trim_is_empty ''  ''" "\<not> trim_is_empty ''Alice''" by (simp_all add: trim_is_empty_def ascii_ws_def ws2_def ws3_def)
  with update_profile_effect [OF a r] a r show ?thesis
    by (auto simp: demo_profile_def)
qed

section \<open>A concrete request\<close>

text \<open>One account sends the other a message, through the router.\<close>

definition demo_request :: request where
  "demo_request = Versioned ((''trust-protocol-version'', ''0'') # demo_al) (SendMessage demo_send)"

lemma request_reach:
  "pool_reach (serves w parse) ([], s) ([Ret (fst (run (router w parse req) s))], snd (run (router w parse req) s))"
proof -
  have "pool_reach (serves w parse) ([], s) ([] @ [router w parse req], s)"
    by (rule pool_reach.step [OF pool_reach.start pool_step.spawn]) (auto simp: serves_def)
  from pool_reach_trans [OF run_pool_reach this [unfolded append_Nil]] show ?thesis .
qed

lemmas router_defs [prog_defs] = respond_def require_protocol_version_def declared_version_def
  parse_u32_def parse_digits.simps digit_val_def PROTOCOL_VERSION_def

lemma demo_request_reach:
  "\<exists>ps t. pool_reach (serves demo_world (\<lambda>_. None)) ([], demo_two) (ps, t) \<and> db t = db demo_chat"
proof -
  have "db (snd (run (router demo_world (\<lambda>_. None) demo_request) demo_two)) = db demo_chat"
    by (simp add: demo_request_def demo_send_def demo_chat_def prog_defs run_simps)
  then show ?thesis using request_reach by blast
qed

end
