(* ===== verification/Media_Properties.thy ===== *)
theory Media_Properties
  imports App_Properties
begin

text \<open>
  Properties of the shared-media listing (\<open>list_media\<close> in \<open>media.rs\<close> and \<open>db.rs\<close>): what one
  page holds, what a client collects that follows the cursors, and where that falls short.
\<close>

section \<open>One page\<close>

lemma list_media_page:
  assumes "list_media order cid kind before limit d = (Inr (rows, nxt), e)" and "1 \<le> limit"
  shows "rows = take (nat limit) (sort_key (\<lambda>m. - md_seq m) (reorder order (media_hits cid kind before d)))"
    and "nxt = (if int (length (media_hits cid kind before d)) > limit then Some (md_seq (last rows)) else None)"
proof -
  let ?S = "sort_key (\<lambda>m. - md_seq m) (reorder order (media_hits cid kind before d))"
  have more: "int (length (take (nat (limit + 1)) ?S)) > limit \<longleftrightarrow> int (length ?S) > limit"
    using assms(2) by auto
  have all: "take (nat (limit + 1)) ?S = take (nat limit) ?S" if "\<not> int (length ?S) > limit"
    using that assms(2) by simp
  have "rows = (if int (length ?S) > limit then take (nat limit) (take (nat (limit + 1)) ?S)
           else take (nat (limit + 1)) ?S)
      \<and> nxt = (if int (length ?S) > limit \<and> rows \<noteq> [] then Some (md_seq (last rows)) else None)"
    using assms more by (auto simp: list_media_def Let_def split: if_splits)
  moreover have "take (nat limit) (take (nat (limit + 1)) ?S) = take (nat limit) ?S"
    using assms(2) by (simp add: min_absorb1)
  ultimately have rows: "rows = take (nat limit) ?S"
    and nxt: "nxt = (if int (length ?S) > limit \<and> rows \<noteq> [] then Some (md_seq (last rows)) else None)"
    using all by auto
  from rows show "rows = take (nat limit) ?S" .
  have "length rows = min (nat limit) (length ?S)" using rows by simp
  then have "rows \<noteq> []" if "int (length ?S) > limit" using that assms(2) by auto
  with nxt show "nxt = (if int (length (media_hits cid kind before d)) > limit then Some (md_seq (last rows)) else None)"
    by auto
qed

lemma sorted_wrt_sort_key: "sorted_wrt (\<lambda>x y. f x \<le> f y) (sort_key f xs)"
  for f :: "'a \<Rightarrow> 'b::linorder"
  using sorted_sort_key [of f xs] by (simp add: sorted_map)

lemma media_desc: "sorted_wrt (\<lambda>x y. md_seq y \<le> md_seq x) (sort_key (\<lambda>m. - md_seq m) xs)"
  using sorted_wrt_sort_key [of "\<lambda>m. - md_seq m" xs] by simp

lemma desc_rest:
  assumes d: "sorted_wrt (\<lambda>x y. md_seq y \<le> md_seq x) xs" and n: "take n xs \<noteq> []" and e: "e \<in> set (drop n xs)"
  shows "md_seq e \<le> md_seq (last (take n xs))"
proof -
  have "sorted_wrt (\<lambda>x y. md_seq y \<le> md_seq x) (take n xs @ drop n xs)" using d by simp
  with e last_in_set [OF n] show ?thesis unfolding sorted_wrt_append by blast
qed

text \<open>
  (C25) A page of the shared media. When a listing succeeds, the caller is a member of the
  conversation, nothing changes, and the page holds at most as many entries as were asked for and
  never more than a hundred: entries of the conversation that match the filter, newest first, and
  no entry left out is newer than one shown. There is a cursor exactly if entries are left out, and
  it is the number of the last entry shown.
\<close>

theorem media_page_exact:
  assumes r: "run (list_media_handler w hs cid q) s = (Inr j, t)"
  shows "\<exists>me dv items nxt. fst (run (authed w hs) s) = Inr (me, dv)
    \<and> (cid, me) \<in> mem_key ` set (conversation_members (db s)) \<and> db t = db s
    \<and> j = JObj [(''items'', JArr (map (media_json w) items)), (''nextCursor'', jopt JInt nxt)]
    \<and> length items = min (nat (media_limit (mq_limit q))) (length (media_hits cid (mq_kind q) (mq_before q) (db s)))
    \<and> 1 \<le> media_limit (mq_limit q) \<and> media_limit (mq_limit q) \<le> 100
    \<and> mset items \<subseteq># mset (media_hits cid (mq_kind q) (mq_before q) (db s))
    \<and> sorted_wrt (\<lambda>x y. md_seq y \<le> md_seq x) items
    \<and> (\<forall>e \<in># mset (media_hits cid (mq_kind q) (mq_before q) (db s)) - mset items.
         \<forall>i \<in> set items. md_seq e \<le> md_seq i)
    \<and> nxt = (if length items < length (media_hits cid (mq_kind q) (mq_before q) (db s))
             then Some (md_seq (last items)) else None)"
proof -
  let ?H = "media_hits cid (mq_kind q) (mq_before q) (db s)" and ?L = "media_limit (mq_limit q)"
  obtain me dv s1 s2 items nxt where
      a: "run (authed w hs) s = (Inr (me, dv), s1)"
    and p: "run (pg w (\<lambda>_. is_participant cid me)) s1 = (Inr True, s2)"
    and l: "run (pg w (\<lambda>n. list_media (row_order w n) cid (mq_kind q) (mq_before q) ?L)) s2 = (Inr (items, nxt), t)"
    and j: "j = JObj [(''items'', JArr (map (media_json w) items)), (''nextCursor'', jopt JInt nxt)]"
    using r unfolding list_media_handler_def
    by (auto elim!: run_bindE_InrE dest!: run_dbq_InrD split: prod.splits if_splits)
  have db: "db s1 = db s" "db s2 = db s" "db t = db s"
    using authed_run_db [OF a] pg_db [OF p] pg_db [OF l] by (simp_all add: reads_snd)
  have member: "(cid, me) \<in> mem_key ` set (conversation_members (db s))"
    using pg_result [OF p, THEN conjunct2] db
    by (auto simp: is_participant_def mem_key_in filter_empty_conv)
  have L: "1 \<le> ?L" "?L \<le> 100" by (simp_all add: media_limit_def clamp_def split: option.split)
  let ?S = "sort_key (\<lambda>m. - md_seq m) (reorder (row_order w (tick s2)) ?H)"
  note page = list_media_page [OF pg_result [OF l, THEN conjunct2, unfolded db] L(1)]
  have S: "mset items + mset (drop (nat ?L) ?S) = mset ?H"
    using page(1) by (metis append_take_drop_id mset_append mset_reorder mset_sort)
  have "sorted_wrt (\<lambda>x y. md_seq y \<le> md_seq x) (take (nat ?L) ?S @ drop (nat ?L) ?S)"
    using media_desc by simp
  then have "sorted_wrt (\<lambda>x y. md_seq y \<le> md_seq x) items"
    "\<forall>e \<in> set (drop (nat ?L) ?S). \<forall>i \<in> set items. md_seq e \<le> md_seq i"
    unfolding sorted_wrt_append page(1) by blast+
  moreover have "mset ?H - mset items = mset (drop (nat ?L) ?S)" using S by (metis add_diff_cancel_left')
  moreover have "mset items \<subseteq># mset ?H" using S by (metis mset_subset_eq_add_left)
  moreover have len: "length items = min (nat ?L) (length ?H)" using page(1) by simp
  moreover have "nxt = (if length items < length ?H then Some (md_seq (last items)) else None)"
    unfolding len using page(2) L by auto
  ultimately show ?thesis using a db member L j
    by (intro exI [of _ me] exI [of _ dv] exI [of _ items] exI [of _ nxt]) simp
qed

section \<open>All pages\<close>

lemma distinct_submset:
  assumes "mset xs \<subseteq># mset ys" and "distinct ys"
  shows "distinct xs"
  unfolding distinct_count_atmost_1
proof
  fix a
  have "count (mset xs) a \<le> count (mset ys) a" using assms(1) by (simp add: subseteq_mset_def)
  also have "\<dots> \<le> 1" using assms(2) by (simp add: distinct_count_atmost_1)
  finally show "count (mset xs) a = (if a \<in> set xs then 1 else 0)"
    by (auto simp: count_eq_zero_iff) (metis One_nat_def count_mset_0_iff le_SucE le_zero_eq)
qed

lemma media_hits_cursor:
  assumes "e \<in> set (media_hits cid kind before d)"
  shows "media_hits cid kind (Some (md_seq e)) d
       = filter (\<lambda>x. md_seq x < md_seq e) (media_hits cid kind before d)"
  using assms by (auto simp: media_hits_def intro!: filter_cong split: option.splits)

lemma list_media_next:
  assumes "list_media order cid kind before limit d = (Inr (rows, Some c), e)"
  shows "c \<in> md_seq ` set (media_hits cid kind before d)"
proof -
  have "rows \<noteq> []" "c = md_seq (last rows)" "set rows \<subseteq> set (media_hits cid kind before d)"
    using assms by (auto simp: list_media_def Let_def split: if_splits dest!: in_set_takeD)
  then show ?thesis using last_in_set by blast
qed

text \<open>What a client collects that follows the cursors until there is none.\<close>

function media_pages ::
    "(nat \<Rightarrow> nat list) \<Rightarrow> nat \<Rightarrow> uuid \<Rightarrow> string option \<Rightarrow> i64 option \<Rightarrow> i64 \<Rightarrow> database \<Rightarrow> media list" where
  "media_pages order n cid kind before limit d =
     (case list_media (order n) cid kind before limit d of
        (Inr (rows, Some c), _) \<Rightarrow> rows @ media_pages order (Suc n) cid kind (Some c) limit d
      | (Inr (rows, None), _) \<Rightarrow> rows
      | (Inl _, _) \<Rightarrow> [])"
  by pat_completeness auto

termination
proof (relation "measure (\<lambda>(order, n, cid, kind, before, limit, d). length (media_hits cid kind before d))",
    goal_cases)
  case (2 order n cid kind before limit d r e p rows nxt c)
  then have "list_media (order n) cid kind before limit d = (Inr (rows, Some c), e)" by simp
  from list_media_next [OF this] obtain m where m: "m \<in> set (media_hits cid kind before d)" "c = md_seq m" by auto
  then have "length (filter (\<lambda>x. md_seq x < c) (media_hits cid kind before d)) < length (media_hits cid kind before d)"
    by (intro length_filter_less) auto
  with m show ?case by (simp add: media_hits_cursor)
qed simp

declare media_pages.simps [simp del]

lemma media_page_cut:
  assumes l: "list_media order cid kind before limit d = (Inr (rows, Some c), e)" and limit: "1 \<le> limit"
  obtains rest where "mset rows + mset rest = mset (media_hits cid kind before d)"
    "rows \<noteq> []" "c = md_seq (last rows)" "sorted_wrt (\<lambda>x y. md_seq y \<le> md_seq x) rows"
    "\<And>x. x \<in> set rest \<Longrightarrow> md_seq x \<le> c"
proof -
  let ?H = "media_hits cid kind before d"
  let ?S = "sort_key (\<lambda>m. - md_seq m) (reorder order ?H)"
  note page = list_media_page [OF l limit]
  have more: "limit < int (length ?H)" and c: "c = md_seq (last rows)"
    using page(2) by (auto split: if_splits)
  have "length rows = min (nat limit) (length ?H)" using page(1) by simp
  then have ne: "rows \<noteq> []" using more limit by auto
  have desc: "sorted_wrt (\<lambda>x y. md_seq y \<le> md_seq x) rows"
    unfolding page(1) by (rule sorted_wrt_take [OF media_desc])
  have "mset rows + mset (drop (nat limit) ?S) = mset ?H"
    using page(1) by (metis append_take_drop_id mset_append mset_reorder mset_sort)
  moreover have "md_seq x \<le> c" if "x \<in> set (drop (nat limit) ?S)" for x
    using desc_rest [OF media_desc _ that] ne c page(1) by simp
  ultimately show thesis using that ne c desc by blast
qed

text \<open>
  The contract between a listing with an exclusive cursor and a client that follows the cursors.
  \<open>hits b\<close> are the rows below the cursor \<open>b\<close>, \<open>page\<close> is one answer of the server (the number of
  the request stands for what the server is free to choose, as the order of equal keys), and
  \<open>pages\<close> is what the client collects. The last page holds all hits, any other page holds the
  topmost ones and gives the key of its last row as cursor.
\<close>

locale cursor_paging =
  fixes key :: "'r \<Rightarrow> int" and hits :: "int option \<Rightarrow> 'r list"
    and page :: "nat \<Rightarrow> int option \<Rightarrow> 'r list \<times> int option"
    and pages :: "nat \<Rightarrow> int option \<Rightarrow> 'r list"
  assumes last_page: "page n b = (rows, None) \<Longrightarrow>
      mset rows = mset (hits b) \<and> sorted_wrt (\<lambda>x y. key y \<le> key x) rows"
    and cut_page: "page n b = (rows, Some c) \<Longrightarrow> rows \<noteq> [] \<and> c = key (last rows)
      \<and> sorted_wrt (\<lambda>x y. key y \<le> key x) rows
      \<and> (\<exists>rest. mset rows + mset rest = mset (hits b) \<and> (\<forall>x \<in> set rest. key x \<le> c))"
    and below: "e \<in> set (hits b) \<Longrightarrow> hits (Some (key e)) = filter (\<lambda>x. key x < key e) (hits b)"
    and follow: "pages n b = (case page n b of
        (rows, Some c) \<Rightarrow> rows @ pages (Suc n) (Some c) | (rows, None) \<Rightarrow> rows)"
begin

lemma cut_keys:
  assumes part: "set H = set rows \<union> set rest" and ne: "rows \<noteq> []" and c: "c = key (last rows)"
    and le: "\<And>x. x \<in> set rest \<Longrightarrow> key x \<le> c"
  shows "key ` set H = key ` set rows \<union> key ` set (filter (\<lambda>x. key x < c) H)"
proof (intro equalityI subsetI)
  fix x assume "x \<in> key ` set H"
  then obtain e where e: "e \<in> set H" "x = key e" by blast
  then consider "e \<in> set rows" | "key e < c" | "key e = c"
    unfolding part using le [of e] by (meson UnE order_le_less)
  then show "x \<in> key ` set rows \<union> key ` set (filter (\<lambda>x. key x < c) H)"
    using e c last_in_set [OF ne] by cases simp_all
next
  fix x assume "x \<in> key ` set rows \<union> key ` set (filter (\<lambda>x. key x < c) H)"
  moreover have "set rows \<subseteq> set H" unfolding part by blast
  ultimately show "x \<in> key ` set H" by auto
qed

lemma above_cursor:
  assumes "sorted_wrt (\<lambda>x y. key y \<le> key x) rows" and "x \<in> set rows"
  shows "key (last rows) \<le> key x"
  using assms by (induction rows) (auto split: if_splits)

text \<open>The rows below a cursor are fewer, so the client comes to an end.\<close>

lemma fewer_below:
  assumes "page n b = (rows, Some c)"
  shows "length (hits (Some c)) < length (hits b)"
proof -
  obtain rest where rest: "mset rows + mset rest = mset (hits b)" and c: "rows \<noteq> []" "c = key (last rows)"
    using cut_page [OF assms] by blast
  from rest have "set (hits b) = set rows \<union> set rest" by (metis set_mset_mset set_mset_union)
  then have "last rows \<in> set (hits b)" using last_in_set [OF c(1)] by simp
  then show ?thesis using below [of "last rows" b] c(2) by (auto intro: length_filter_less)
qed

lemma collected:
  "mset (pages n b) \<subseteq># mset (hits b) \<and> key ` set (pages n b) = key ` set (hits b)
   \<and> sorted_wrt (\<lambda>x y. key y \<le> key x) (pages n b)"
proof (induction "length (hits b)" arbitrary: n b rule: less_induct)
  case less
  obtain rows nxt where p: "page n b = (rows, nxt)" by fastforce
  show ?case
  proof (cases nxt)
    case None
    with p last_page [of n b rows] have "pages n b = rows" "mset rows = mset (hits b)"
      "sorted_wrt (\<lambda>x y. key y \<le> key x) rows" by (simp_all add: follow [of n b])
    then show ?thesis by (metis set_mset_mset subset_mset.order_refl)
  next
    case (Some c)
    let ?P = "pages (Suc n) (Some c)"
    have pages: "pages n b = rows @ ?P" using p Some by (simp add: follow [of n b])
    obtain rest where part: "mset rows + mset rest = mset (hits b)" and le: "\<And>x. x \<in> set rest \<Longrightarrow> key x \<le> c"
      and ne: "rows \<noteq> []" and c: "c = key (last rows)" and desc: "sorted_wrt (\<lambda>x y. key y \<le> key x) rows"
      using cut_page [of n b rows c] p Some by blast
    from part have cover: "set (hits b) = set rows \<union> set rest" by (metis set_mset_mset set_mset_union)
    have H: "hits (Some c) = filter (\<lambda>x. key x < c) (hits b)"
      using below [of "last rows" b] last_in_set [OF ne] cover c by simp
    note IH = less [OF fewer_below [OF p [unfolded Some]], of "Suc n", unfolded H]
    note IH_keys = IH [THEN conjunct2, THEN conjunct1] and IH_desc = IH [THEN conjunct2, THEN conjunct2]
    have ge: "c \<le> key x" if "x \<in> set rows" for x using above_cursor [OF desc that] c by simp
    then have "filter_mset (\<lambda>x. key x < c) (mset rows) = {#}" by (auto simp: filter_mset_eq_conv leD)
    then have "filter_mset (\<lambda>x. key x < c) (mset (hits b)) \<subseteq># mset rest"
      unfolding part [symmetric] filter_union_mset by (simp only: add_0) (rule multiset_filter_subset)
    then have "mset ?P \<subseteq># mset rest"
      by (rule subset_mset.order_trans [OF IH [THEN conjunct1, unfolded mset_filter]])
    then have "mset (rows @ ?P) \<subseteq># mset (hits b)"
      unfolding part [symmetric] mset_append by (rule subset_mset.add_left_mono)
    moreover have "key ` set (rows @ ?P) = key ` set (hits b)"
      using cut_keys [OF cover ne c le] IH_keys by (simp only: set_append image_Un)
    moreover have "key x \<in> key ` set (filter (\<lambda>x. key x < c) (hits b))" if "x \<in> set ?P" for x
      unfolding IH_keys [symmetric] using that by (rule imageI)
    then have "key y \<le> key x" if "x \<in> set rows" "y \<in> set ?P" for x y
      using ge [OF that(1)] that(2) by fastforce
    then have "sorted_wrt (\<lambda>x y. key y \<le> key x) (rows @ ?P)"
      using desc IH_desc unfolding sorted_wrt_append by blast
    ultimately show ?thesis unfolding pages by blast
  qed
qed

lemma collected_all:
  assumes d: "distinct (map key (hits b))"
  shows "mset (pages n b) = mset (hits b)"
proof -
  have H: "distinct (hits b)" "inj_on key (set (hits b))" using d by (simp_all add: distinct_map)
  have sub: "set (pages n b) \<subseteq> set (hits b)" using collected [of n b] by (metis set_mset_mono set_mset_mset)
  then have "set (pages n b) = set (hits b)" using collected [of n b] H(2) by (metis inj_on_image_eq_iff order_refl)
  moreover have "distinct (pages n b)" using collected [of n b] H(1) by (blast intro: distinct_submset)
  ultimately show ?thesis using H(1) by (simp add: set_eq_iff_mset_eq_distinct)
qed

end

text \<open>The answer of \<open>list_media\<close> as a page; it never fails for a limit the handler can pass.\<close>

definition media_page ::
    "(nat \<Rightarrow> nat list) \<Rightarrow> uuid \<Rightarrow> string option \<Rightarrow> i64 \<Rightarrow> database \<Rightarrow> nat \<Rightarrow> i64 option \<Rightarrow> media list \<times> i64 option" where
  "media_page order cid kind limit d n before =
     (case fst (list_media (order n) cid kind before limit d) of Inr p \<Rightarrow> p | Inl _ \<Rightarrow> ([], None))"

lemma media_limit_pos: "1 \<le> media_limit l"
  by (simp add: media_limit_def clamp_def)

lemma media_page_list: "list_media (order n) cid kind b (media_limit l) d = (Inr (media_page order cid kind (media_limit l) d n b), d)"
  using media_limit_pos [of l] by (simp add: media_page_def list_media_def Let_def)

lemma media_page_last:
  assumes "media_page order cid kind (media_limit l) d n b = (rows, None)"
  shows "mset rows = mset (media_hits cid kind b d) \<and> sorted_wrt (\<lambda>x y. md_seq y \<le> md_seq x) rows"
proof -
  note page = list_media_page [OF media_page_list [of order n cid kind b l d, unfolded assms] media_limit_pos]
  have "length (media_hits cid kind b d) \<le> nat (media_limit l)" using page(2) by (auto split: if_splits)
  then have "rows = sort_key (\<lambda>m. - md_seq m) (reorder (order n) (media_hits cid kind b d))" using page(1) by simp
  then show ?thesis using media_desc by simp
qed

interpretation lm: cursor_paging md_seq "\<lambda>b. media_hits cid kind b d"
  "media_page order cid kind (media_limit l) d" "\<lambda>n b. media_pages order n cid kind b (media_limit l) d"
  for cid kind d order l
proof (unfold_locales, goal_cases)
  case (1 n b rows)
  then show ?case by (rule media_page_last)
next
  case (2 n b rows c)
  show ?case
    by (rule media_page_cut [OF media_page_list [of order n cid kind b l d, unfolded 2] media_limit_pos]) blast
next
  case (3 e b)
  then show ?case by (rule media_hits_cursor)
next
  case (4 n b)
  show ?case by (simp add: media_pages.simps [of order n] media_page_list split: prod.splits option.splits)
qed

text \<open>
  (C26) Paging ends and shows every message with media. A client that follows the cursors of a
  media index that does not change receives, newest first, only entries of the conversation that
  match the filter, none more often than it is there, and at least one entry of every message that
  has some; and it receives all entries if no two belong to the same message.
\<close>

theorem media_paging_complete:
  "mset (media_pages order 0 cid kind before (media_limit l) d) \<subseteq># mset (media_hits cid kind before d)
    \<and> md_seq ` set (media_pages order 0 cid kind before (media_limit l) d) = md_seq ` set (media_hits cid kind before d)
    \<and> sorted_wrt (\<lambda>x y. md_seq y \<le> md_seq x) (media_pages order 0 cid kind before (media_limit l) d)
    \<and> (distinct (map md_seq (media_hits cid kind before d)) \<longrightarrow>
         mset (media_pages order 0 cid kind before (media_limit l) d) = mset (media_hits cid kind before d))"
  using lm.collected [where n = 0 and b = before] lm.collected_all [where b = before and n = 0] by blast

text \<open>A message with an album of two pictures.\<close>

definition demo_picture :: "string \<Rightarrow> attachment_meta" where
  "demo_picture nm = \<lparr>at_kind = ''image'', at_blob_id = None, at_thumb_blob_id = None, at_mime = None,
     at_name = Some nm, at_url = None, at_size = None, at_width = None, at_height = None\<rparr>"

definition demo_album :: send_req where
  "demo_album = demo_send\<lparr>sr_attachments := Some [demo_picture ''a.png'', demo_picture ''b.png'']\<rparr>"

definition demo_page :: "i64 option \<Rightarrow> media_query" where
  "demo_page before = \<lparr>mq_kind = None, mq_before = before, mq_limit = Some 1\<rparr>"

definition demo_album_sent :: sys where
  "demo_album_sent = snd (run (send_message demo_world demo_al demo_album) demo_two)"

lemma demo_album_rows:
  "map md_seq (media_rows (db demo_album_sent)) = [1, 1]
   \<and> map md_name (media_rows (db demo_album_sent)) = [Some ''a.png'', Some ''b.png'']
   \<and> map md_conversation_id (media_rows (db demo_album_sent)) = [1034, 1034]"
  by (simp add: demo_album_sent_def demo_album_def demo_send_def demo_picture_def prog_defs run_simps)


theorem media_page_exact_witness:
  "\<exists>j t items. run (list_media_handler demo_world demo_al 1034 (demo_page None)) demo_album_sent = (Inr j, t)
     \<and> jfield ''items'' j = Some (JArr items) \<and> length items = 1"
proof -
  obtain j t where r: "run (list_media_handler demo_world demo_al 1034 (demo_page None)) demo_album_sent = (Inr j, t)"
    by (simp add: demo_album_sent_def demo_page_def demo_album_def demo_send_def demo_picture_def prog_defs run_simps)
  have "length (media_hits 1034 None None (db demo_album_sent)) = 2"
    by (simp add: demo_album_sent_def demo_album_def demo_send_def demo_picture_def prog_defs run_simps)
  with media_page_exact [OF r] r show ?thesis by (auto simp: demo_page_def media_limit_def clamp_def)
qed

text \<open>Two entries of different messages.\<close>

definition demo_media :: database where
  "demo_media = (db demo_album_sent)\<lparr>media_rows :=
     map (\<lambda>i. (hd (media_rows (db demo_album_sent)))\<lparr>md_seq := i\<rparr>) [1, 2]\<rparr>"

theorem media_paging_complete_witness:
  "map md_seq (media_hits 1034 None None demo_media) = [1, 2]
   \<and> mset (media_pages (\<lambda>_. []) 0 1034 None None (media_limit (Some 1)) demo_media)
       = mset (media_hits 1034 None None demo_media)"
proof -
  have "md_conversation_id (hd (media_rows (db demo_album_sent))) = 1034"
    using demo_album_rows by (cases "media_rows (db demo_album_sent)") auto
  then have "map md_seq (media_hits 1034 None None demo_media) = [1, 2]"
    by (simp add: media_hits_def demo_media_def)
  with media_paging_complete [of "\<lambda>_. []" 1034 None None "Some 1" demo_media] show ?thesis by simp
qed

end
