(* ===== verification/Conversation_Properties.thy ===== *)
theory Conversation_Properties
  imports Media_Properties
begin

text \<open>
  Properties of receipts and of the list of conversations: how a read receipt that comes in over a
  socket (\<open>ws.rs\<close>, \<open>db::mark_read\<close>) shows in the sender's history, and which conversations
  \<open>list_conversations\<close> returns.
\<close>


section \<open>Receipt markers\<close>

lemma max_seq_ge: "m \<in> set (messages d) \<Longrightarrow> msg_seq m \<le> max_seq (msg_conversation_id m) d"
  by (auto simp: max_seq_def Let_def filter_empty_conv intro!: Max_ge)

lemma marker_rows_set_marker_rows [simp]:
  "marker_rows tb (set_marker_rows tb' rows d) = (if tb = tb' then rows else marker_rows tb d)"
  by (simp add: marker_rows_def set_marker_rows_def split: marker_table.splits)

lemma find_marker_update:
  "List.find (\<lambda>k. mk_key k = x) (update_where (\<lambda>k. mk_key k = y) (\<lambda>k. k\<lparr>mk_up_to_seq := g k\<rparr>) rows)
     = map_option (\<lambda>k. if mk_key k = y then k\<lparr>mk_up_to_seq := g k\<rparr> else k) (List.find (\<lambda>k. mk_key k = x) rows)"
  by (rule find_update_where) (simp add: mk_key_def)

text \<open>The value of a marker, zero when there is no row.\<close>

definition marker_value :: "marker_table \<Rightarrow> uuid \<Rightarrow> uuid \<Rightarrow> database \<Rightarrow> i64" where
  "marker_value tb cid a d =
     (case List.find (\<lambda>k. mk_key k = (cid, a)) (marker_rows tb d) of None \<Rightarrow> 0 | Some k \<Rightarrow> mk_up_to_seq k)"

lemma marker_of_value: "marker_of tb cid a d = (Inr (marker_value tb cid a d), d)"
  by (simp add: marker_of_def marker_value_def)

lemma mark_value:
  assumes "mark tb cid a d = (Inr (), e)"
  shows "marker_value tb' cid' a' e =
     (if (tb', cid', a') = (tb, cid, a)
      then if has_key mk_key (cid, a) (marker_rows tb d) then max (marker_value tb cid a d) (max_seq cid d)
           else max_seq cid d
      else marker_value tb' cid' a' d)"
proof (cases "has_key mk_key (cid, a) (marker_rows tb d)")
  case True
  then obtain k where k: "List.find (\<lambda>k. mk_key k = (cid, a)) (marker_rows tb d) = Some k" "mk_key k = (cid, a)"
    using find_NoneD [of "\<lambda>k. mk_key k = (cid, a)" "marker_rows tb d"] find_SomeD
    unfolding has_key_iff by (metis (mono_tags, lifting) imageE option.exhaust)
  have "e = set_marker_rows tb (update_where (\<lambda>k. mk_key k = (cid, a))
              (\<lambda>k. k\<lparr>mk_up_to_seq := max (mk_up_to_seq k) (max_seq cid d)\<rparr>) (marker_rows tb d)) d"
    using assms True by (simp add: mark_def)
  then show ?thesis using True k
    by (auto simp: marker_value_def find_marker_update split: option.splits dest!: find_SomeD)
next
  case False
  then have "List.find (\<lambda>k. mk_key k = (cid, a)) (marker_rows tb d) = None"
    by (auto simp: find_None_iff has_key_iff) (metis image_eqI)
  moreover have "e = set_marker_rows tb (marker_rows tb d @
              [\<lparr>mk_conversation_id = cid, mk_account_id = a, mk_up_to_seq = max_seq cid d\<rparr>]) d"
    using assms False by (simp add: mark_def split: if_splits)
  ultimately show ?thesis using False
    by (auto simp: marker_value_def find_append mk_key_def split: option.splits)
qed

lemma mark_total:
  assumes "cid \<in> conv_ids d" and "a \<in> acc_ids d"
  shows "\<exists>e. mark tb cid a d = (Inr (), e)"
  using assms by (auto simp: mark_def has_key_iff conv_ids_def acc_ids_def)

lemma mark_same:
  "messages (snd (mark tb cid a d)) = messages d" "conversations (snd (mark tb cid a d)) = conversations d"
  "accounts (snd (mark tb cid a d)) = accounts d" "dm_conversations (snd (mark tb cid a d)) = dm_conversations d"
  by (auto simp: mark_def set_marker_rows_def split: marker_table.splits)

lemma max_seq_same: "messages d = messages e \<Longrightarrow> max_seq cid d = max_seq cid e"
  by (simp add: max_seq_def)

text \<open>Reading a conversation marks everything in it as delivered and read.\<close>

lemma read_receipt_marks:
  assumes w: "no_faults w" and cid: "cid \<in> conv_ids (db s)" and a: "a \<in> acc_ids (db s)"
  shows "\<exists>t. run (receipt_marks w ''receipt.read'' cid a) s = ((), t)
    \<and> messages (db t) = messages (db s) \<and> dm_conversations (db t) = dm_conversations (db s)
    \<and> accounts (db t) = accounts (db s)
    \<and> max_seq cid (db s) \<le> marker_value ReadMarkers cid a (db t)
    \<and> max_seq cid (db s) \<le> marker_value DeliveredMarkers cid a (db t)
    \<and> (\<forall>tb cid' a'. (cid', a') \<noteq> (cid, a) \<longrightarrow> marker_value tb cid' a' (db t) = marker_value tb cid' a' (db s))"
proof -
  obtain e where e: "mark DeliveredMarkers cid a (db s) = (Inr (), e)" using mark_total [OF cid a] by blast
  have same: "conversations e = conversations (db s)" "accounts e = accounts (db s)"
    "messages e = messages (db s)" "dm_conversations e = dm_conversations (db s)"
    using mark_same [of DeliveredMarkers cid a "db s"] by (simp_all add: e)
  then have "cid \<in> conv_ids e" "a \<in> acc_ids e" using cid a by (simp_all add: conv_ids_def acc_ids_def)
  then obtain f where f: "mark ReadMarkers cid a e = (Inr (), f)" using mark_total by blast
  have same_f: "messages f = messages e" "dm_conversations f = dm_conversations e" "accounts f = accounts e"
    using mark_same [of ReadMarkers cid a e] by (simp_all add: f)
  let ?t = "(advance ((advance s)\<lparr>db := e\<rparr>))\<lparr>db := f\<rparr>"
  have "run (receipt_marks w ''receipt.read'' cid a) s = ((), ?t)"
    using w e f by (simp add: receipt_marks_def run_simps no_faultsD mark_read_def mark_delivered_def)
  then show ?thesis
    using mark_value [OF e] mark_value [OF f] same same_f max_seq_same [OF same(3)]
    by (intro exI [of _ ?t]) simp
qed


lemma dm_conversation_existing:
  assumes w: "no_faults w" and inv: "conv_inv (db s)"
    and row: "\<lparr>dm_account_lo = min a b, dm_account_hi = max a b, dm_conversation_id = cid\<rparr> \<in> set (dm_conversations (db s))"
  shows "run (dm_conversation w a b) s = (Inr cid, advance s)"
  using find_dm_pair [OF inv row] w
  by (cases "pair_order a b") (simp add: dm_conversation_def run_simps no_faultsD select_dm_def)

lemma handle_inbound_read:
  assumes w: "no_faults w" and s: "sys_inv s"
    and p: "parse txt = Some msg" "in_type msg = ''receipt.read''" "in_to msg = Some (acc_username peer)"
    and peer: "peer \<in> set (accounts (db s))" and me: "me \<in> acc_ids (db s)"
    and row: "\<lparr>dm_account_lo = min me (acc_id peer), dm_account_hi = max me (acc_id peer),
        dm_conversation_id = cid\<rparr> \<in> set (dm_conversations (db s))"
    and r: "run (handle_inbound w parse me txt) s = ((), t)"
  shows "max_seq cid (db s) \<le> marker_value ReadMarkers cid me (db t)"
    and "set (dm_conversations (db t)) = set (dm_conversations (db s))"
proof -
  have inv: "auth_inv (db s)" "conv_inv (db s)" using s by (simp_all add: sys_inv_def db_inv_def)
  have f: "find_account_by_username (acc_username peer) (db s) = (Inr (Some peer), db s)"
    using find_unique_key [of acc_username "accounts (db s)" peer] inv(1) peer
    by (simp add: find_account_by_username_def auth_inv_def)
  have cid: "cid \<in> conv_ids (db (advance (advance s)))" "me \<in> acc_ids (db (advance (advance s)))"
    using inv(2) row me by (auto simp: conv_inv_def mem_key_def)
  obtain u where u: "run (receipt_marks w ''receipt.read'' cid me) (advance (advance s)) = ((), u)"
    and eff: "max_seq cid (db s) \<le> marker_value ReadMarkers cid me (db u)"
      "dm_conversations (db u) = dm_conversations (db s)"
    using read_receipt_marks [OF w cid] by auto
  have dm: "run (dm_conversation w me (acc_id peer)) (advance s) = (Inr cid, advance (advance s))"
    using dm_conversation_existing [OF w, of "advance s"] inv(2) row by simp
  define tail where "tail = (case inbound_payload w msg cid me of
       None \<Rightarrow> Ret ()
     | Some payload \<Rightarrow> bind (envelope_of w (in_type msg) payload) (\<lambda>env. deliver_to_account w (acc_id peer) env None))"
  have "run tail u = ((), t)"
    using r p f dm u w by (simp add: handle_inbound_def run_bind run_pg no_faultsD tail_def)
  moreover have "guar same_db tail" unfolding tail_def by (auto intro!: guar_intros split: option.splits)
  ultimately have "db t = db u" using guar_same_db_run by (metis snd_conv)
  with eff show "max_seq cid (db s) \<le> marker_value ReadMarkers cid me (db t)"
    and "set (dm_conversations (db t)) = set (dm_conversations (db s))" by simp_all
qed

text \<open>A message that was there before has a number within what was there before.\<close>

lemma message_seq_old:
  assumes g: "sys_grows s u" and inv: "msg_inv (db u)" and m: "m \<in> set (messages (db u))"
    and old: "msg_id m \<in> msg_id ` set (messages (db s))"
  shows "msg_seq m \<le> max_seq (msg_conversation_id m) (db s)"
proof -
  obtain m' where m': "m' \<in> set (messages (db s))" "msg_id m' = msg_id m" using old by auto
  have "rows_grow msg_grows (messages (db s)) (messages (db u))"
    using g by (simp add: sys_grows_def db_grows_def content_grows_def)
  from rows_growE [OF this m'(1)] obtain n where n: "n \<in> set (messages (db u))" "msg_grows m' n" by blast
  have "n = m"
    using inv n m m'(2) distinct_key_eq [of msg_id "messages (db u)" n m] by (simp add: msg_inv_def msg_grows_def)
  then show ?thesis using n(2) max_seq_ge [OF m'(1)] by (simp add: msg_grows_def)
qed

lemma marker_value_row:
  assumes "marker_inv d" and "k \<in> set (marker_rows tb d)"
  shows "marker_value tb (mk_conversation_id k) (mk_account_id k) d = mk_up_to_seq k"
  using find_unique_key [OF _ assms(2) refl, of mk_key] assms(1)
  by (simp add: marker_inv_def marker_value_def mk_key_def)

lemma marker_value_mono:
  assumes g: "content_grows d e" and inv: "marker_inv d" "marker_inv e"
  shows "marker_value tb cid a d \<le> marker_value tb cid a e"
proof (cases "List.find (\<lambda>k. mk_key k = (cid, a)) (marker_rows tb d)")
  case None
  have "0 \<le> marker_value tb cid a e"
    using inv(2) by (auto simp: marker_value_def marker_inv_def split: option.splits dest!: find_SomeD)
  with None show ?thesis by (simp add: marker_value_def)
next
  case (Some k)
  then have k: "k \<in> set (marker_rows tb d)" "mk_key k = (cid, a)" by (auto dest: find_SomeD)
  have "rows_grow mk_le (marker_rows tb d) (marker_rows tb e)"
    using g by (cases tb) (simp_all add: content_grows_def marker_rows_def)
  from rows_growE [OF this k(1)] obtain l where l: "l \<in> set (marker_rows tb e)" "mk_le k l" by blast
  show ?thesis
    using marker_value_row [OF inv(1) k(1)] marker_value_row [OF inv(2) l(1)] k(2) l(2)
    by (simp add: mk_le_def mk_key_def)
qed

text \<open>
  (C23) Read receipts reach the sender's history. After an account has sent a read receipt for its
  conversation with a peer, the peer's history shows, at every later time, the status \<open>read\<close> for
  every message of the peer that was in the conversation when the receipt came.
\<close>

theorem read_receipt_shown:
  assumes w: "no_faults w" and s: "sys_inv s"
    and p: "parse txt = Some msg" "in_type msg = ''receipt.read''" "in_to msg = Some (acc_username al)"
    and al: "al \<in> set (accounts (db s))" and bo: "bo \<in> set (accounts (db s))"
    and row: "\<lparr>dm_account_lo = min (acc_id bo) (acc_id al), dm_account_hi = max (acc_id bo) (acc_id al),
        dm_conversation_id = cid\<rparr> \<in> set (dm_conversations (db s))"
    and t: "run (handle_inbound w parse (acc_id bo) txt) s = ((), t)"
    and u: "sys_inv u" "sys_grows t u" "fst (run (authed w hs) u) = Inr (acc_id al, dv)"
    and hist: "run (history_handler w hs (acc_username bo)) u = (Inr j, v)"
  shows "\<exists>pr pd ms. jfield ''messages'' j = Some (JArr (map (message_json w (acc_id al) pr pd) ms))
    \<and> (\<forall>m \<in> set ms. msg_sender_account_id m = acc_id al \<longrightarrow> msg_id m \<in> msg_id ` set (messages (db s)) \<longrightarrow>
         message_status (acc_id al) pr pd m = ''read'')"
proof -
  have st: "sys_grows s t" "sys_inv t"
    using safe_run [OF safe_handle_inbound s, of w parse "acc_id bo" "txt"] t by simp_all
  have su: "sys_grows s u" using srv.trans st(1) u(2) by blast
  have acc: "bo \<in> set (accounts (db u))"
    using su bo by (auto simp: sys_grows_def db_grows_def auth_grows_def)
  have me: "acc_id bo \<in> acc_ids (db s)" using bo by (simp add: acc_ids_def)
  note marks = handle_inbound_read [OF w s p al me row t]
  have "\<lparr>dm_account_lo = min (acc_id al) (acc_id bo), dm_account_hi = max (acc_id al) (acc_id bo),
        dm_conversation_id = cid\<rparr> \<in> set (dm_conversations (db u))"
    using row su by (auto simp: sys_grows_def db_grows_def conv_grows_def min.commute max.commute)
  from history_of_pair [OF u(1) hist u(3) acc refl this] obtain pr pd ms where
      h: "marker_of ReadMarkers cid (acc_id bo) (db u) = (Inr pr, db u)" "set ms = {m. visible (db u) cid (acc_id al) m}"
    and j: "j = JObj [(''conversationId'', juuid w cid), (''withUserId'', juuid w (acc_id bo)),
               (''messages'', JArr (map (message_json w (acc_id al) pr pd) ms))]" by blast
  have inv: "msg_inv (db u)" "marker_inv (db u)" "marker_inv (db t)"
    using u(1) st(2) by (simp_all add: sys_inv_def db_inv_def)
  have "max_seq cid (db s) \<le> marker_value ReadMarkers cid (acc_id bo) (db u)"
    using marks(1) marker_value_mono [OF _ inv(3,2), of ReadMarkers cid "acc_id bo"] u(2)
    by (auto simp: sys_grows_def db_grows_def)
  then have pr: "max_seq cid (db s) \<le> pr" using h(1) by (simp add: marker_of_value)
  have "msg_seq m \<le> pr" if "m \<in> set ms" "msg_id m \<in> msg_id ` set (messages (db s))" for m
    using message_seq_old [OF su inv(1), of m] that h(2) pr by (fastforce simp: visible_def)
  then show ?thesis using j
    by (intro exI [of _ pr] exI [of _ pd] exI [of _ ms]) (simp add: message_status_def)
qed


definition demo_read :: inbound where
  "demo_read = \<lparr>in_type = ''receipt.read'', in_to = Some ''al'', in_message_id = None, in_emoji = None,
     in_up_to_seq = Some 1, in_activity = None, in_from = None, in_call_id = None, in_media = None,
     in_sdp = None, in_candidate = None\<rparr>"

lemma demo_read_run:
  "\<exists>t j u. run (handle_inbound demo_world (\<lambda>_. Some demo_read) 2 []) demo_chat = ((), t)
     \<and> run (history_handler demo_world demo_al ''bo'') t = (Inr j, u)
     \<and> fst (run (authed demo_world demo_al) t) = Inr (1, 11)"
  by (simp add: demo_chat_def demo_read_def inbound_payload_def prog_defs run_simps)

theorem read_receipt_shown_witness:
  "\<exists>t u j pr pd ms. run (handle_inbound demo_world (\<lambda>_. Some demo_read) 2 []) demo_chat = ((), t)
     \<and> run (history_handler demo_world demo_al ''bo'') t = (Inr j, u)
     \<and> jfield ''messages'' j = Some (JArr (map (message_json demo_world 1 pr pd) ms))
     \<and> (\<forall>m \<in> set ms. msg_sender_account_id m = 1 \<longrightarrow> msg_id m \<in> {1040} \<longrightarrow>
          message_status 1 pr pd m = ''read'')"
proof -
  let ?al = "accounts (db demo_chat) ! 0" and ?bo = "accounts (db demo_chat) ! 1"
  have acc: "?al \<in> set (accounts (db demo_chat))" "?bo \<in> set (accounts (db demo_chat))"
    "acc_username ?al = ''al''" "acc_username ?bo = ''bo''" "acc_id ?al = 1" "acc_id ?bo = 2"
    by (simp_all add: demo_chat_def demo_two_def)
  have row: "\<lparr>dm_account_lo = min (acc_id ?bo) (acc_id ?al), dm_account_hi = max (acc_id ?bo) (acc_id ?al),
      dm_conversation_id = 1034\<rparr> \<in> set (dm_conversations (db demo_chat))"
    unfolding acc by (simp add: demo_chat_def)
  obtain t j u where t: "run (handle_inbound demo_world (\<lambda>_. Some demo_read) (acc_id ?bo) []) demo_chat = ((), t)"
    and h: "run (history_handler demo_world demo_al (acc_username ?bo)) t = (Inr j, u)"
    and a: "fst (run (authed demo_world demo_al) t) = Inr (acc_id ?al, 11)"
    unfolding acc using demo_read_run by blast
  have inv: "sys_inv t" by (rule safe_run_inv [OF safe_handle_inbound sys_inv_demo_chat t])
  have msg: "(\<lambda>_. Some demo_read) [] = Some demo_read" "in_type demo_read = ''receipt.read''"
    "in_to demo_read = Some (acc_username ?al)" unfolding acc by (simp_all add: demo_read_def)
  have "msg_id ` set (messages (db demo_chat)) = {1040}" by (simp add: demo_chat_def)
  with read_receipt_shown [OF no_faults_demo sys_inv_demo_chat msg acc(1,2) row t inv srv.refl a h] h t
  show ?thesis unfolding acc by metis
qed


section \<open>The list of conversations\<close>

lemma distinct_concat_map:
  assumes "distinct xs" and "\<And>x. x \<in> set xs \<Longrightarrow> distinct (f x)"
    and "\<And>x y. x \<in> set xs \<Longrightarrow> y \<in> set xs \<Longrightarrow> x \<noteq> y \<Longrightarrow> set (f x) \<inter> set (f y) = {}"
  shows "distinct (concat (map f xs))"
  using assms
proof (induction xs)
  case (Cons x xs)
  have "set (f x) \<inter> set (f y) = {}" if "y \<in> set xs" for y using Cons.prems that by (intro Cons.prems(3)) auto
  then have "set (f x) \<inter> set (concat (map f xs)) = {}" by auto
  moreover have "distinct (concat (map f xs))" using Cons.prems by (intro Cons.IH) auto
  ultimately show ?case using Cons.prems(2) by simp
qed simp

text \<open>The other member of a conversation that has messages determines the conversation.\<close>

lemma pair_min_max:
  fixes a :: "'a::linorder"
  shows "a = l \<or> a = h \<Longrightarrow> b = l \<or> b = h \<Longrightarrow> b \<noteq> a \<Longrightarrow> l \<le> h \<Longrightarrow> l = min a b \<and> h = max a b"
  by (auto simp: min_def max_def)

lemma partner_row:
  assumes s: "sys_inv s" and h: "has_messages (db s) cid"
    and m: "(cid, a) \<in> mem_key ` set (conversation_members (db s))"
      "(cid, b) \<in> mem_key ` set (conversation_members (db s))" "b \<noteq> a"
  shows "\<lparr>dm_account_lo = min a b, dm_account_hi = max a b, dm_conversation_id = cid\<rparr> \<in> set (dm_conversations (db s))"
proof -
  have inv: "msg_inv (db s)" "conv_inv (db s)" "claim_inv s" using s by (simp_all add: sys_inv_def db_inv_def)
  obtain p where p: "p \<in> set (dm_conversations (db s))" "dm_conversation_id p = cid"
  proof -
    from h obtain x where x: "x \<in> set (messages (db s))" "msg_conversation_id x = cid"
      by (auto simp: has_messages_def list_ex_iff)
    have "msg_conversation_id x \<in> dm_ids (db s)" using inv(1) x(1) unfolding msg_inv_def by blast
    then show thesis using that x(2) unfolding dm_ids_def by (auto simp: image_iff)
  qed
  have "dm_claim s (dm_conversation_id p) = Some (dm_key p)" using inv(3) p(1) unfolding claim_inv_def by blast
  with p(2) have claim: "dm_claim s cid = Some (dm_key p)" by simp
  have in_pair: "x = dm_account_lo p \<or> x = dm_account_hi p"
    if x: "(cid, x) \<in> mem_key ` set (conversation_members (db s))" for x
  proof -
    obtain k where k: "(cid, x) = mem_key k" "k \<in> set (conversation_members (db s))"
      using x by (rule imageE)
    from k(2) obtain lo hi where "dm_claim s (mem_conversation_id k) = Some (lo, hi)" "mem_account_id k \<in> {lo, hi}"
      using inv(3) unfolding claim_inv_def by blast
    moreover have "mem_conversation_id k = cid" "mem_account_id k = x" using k(1) by (simp_all add: mem_key_def)
    ultimately have "(lo, hi) = dm_key p" "x \<in> {lo, hi}" using claim by simp_all
    then show ?thesis by (auto simp: dm_key_def)
  qed
  have "dm_account_lo p \<le> dm_account_hi p" using inv(2) p(1) by (simp add: conv_inv_def)
  then have "dm_account_lo p = min a b \<and> dm_account_hi p = max a b"
    by (rule pair_min_max [OF in_pair [OF m(1)] in_pair [OF m(2)] m(3)])
  with p(2) have "p = \<lparr>dm_account_lo = min a b, dm_account_hi = max a b, dm_conversation_id = cid\<rparr>"
    by (cases p) simp
  with p(1) show ?thesis by simp
qed

lemma partner_unique:
  assumes s: "sys_inv s" and b: "b \<noteq> a" and h: "has_messages (db s) c" "has_messages (db s) c'"
    and m: "(c, a) \<in> mem_key ` set (conversation_members (db s))" "(c, b) \<in> mem_key ` set (conversation_members (db s))"
      "(c', a) \<in> mem_key ` set (conversation_members (db s))" "(c', b) \<in> mem_key ` set (conversation_members (db s))"
  shows "c = c'"
proof -
  have inv: "conv_inv (db s)" using s by (simp add: sys_inv_def db_inv_def)
  show ?thesis
    using find_dm_pair [OF inv partner_row [OF s h(1) m(1,2) b]] find_dm_pair [OF inv partner_row [OF s h(2) m(3,4) b]]
    by simp
qed

lemma set_join:
  "set [h ot a. m \<leftarrow> xs, P m, ot \<leftarrow> ys, Q m ot, a \<leftarrow> zs, T m ot a]
     = {h ot a | m ot a. m \<in> set xs \<and> P m \<and> ot \<in> set ys \<and> Q m ot \<and> a \<in> set zs \<and> T m ot a}"
  by (auto split: if_splits)

lemma set_convo_rows:
  assumes "conversations_for order me d = (Inr rows, e)"
  shows "set rows = {convo_row d ot a | m ot a. m \<in> set (conversation_members d) \<and> mem_account_id m = me
    \<and> ot \<in> set (conversation_members d)
    \<and> (mem_conversation_id ot = mem_conversation_id m \<and> mem_account_id ot \<noteq> mem_account_id m)
    \<and> a \<in> set (accounts d) \<and> (acc_id a = mem_account_id ot \<and> has_messages d (mem_conversation_id m))}"
proof -
  let ?L = "[convo_row d ot a.
           m \<leftarrow> conversation_members d, mem_account_id m = me,
           ot \<leftarrow> conversation_members d,
             mem_conversation_id ot = mem_conversation_id m \<and> mem_account_id ot \<noteq> mem_account_id m,
           a \<leftarrow> accounts d, acc_id a = mem_account_id ot \<and> has_messages d (mem_conversation_id m)]"
  have "rows = sort_key (\<lambda>r. - latest_ts d (cl_cid r)) (reorder order ?L)"
    using assms unfolding conversations_for_def prod.inject sum.inject by (elim conjE) (rule sym)
  then have "set rows = set ?L" by (simp only: set_sort set_reorder)
  then show ?thesis unfolding set_join .
qed

lemma convo_row_members:
  assumes r: "conversations_for order me d = (Inr rows, e)"
  shows "(b, cid) \<in> (\<lambda>r. (cl_other r, cl_cid r)) ` set rows \<longleftrightarrow>
      b \<noteq> me \<and> has_messages d cid \<and> b \<in> acc_ids d
    \<and> (cid, me) \<in> mem_key ` set (conversation_members d)
    \<and> (cid, b) \<in> mem_key ` set (conversation_members d)" (is "?L \<longleftrightarrow> ?R")
proof
  assume ?L
  then obtain m ot a where "b = mem_account_id ot" "cid = mem_conversation_id ot"
    "m \<in> set (conversation_members d)" "mem_account_id m = me" "ot \<in> set (conversation_members d)"
    "mem_conversation_id ot = mem_conversation_id m" "mem_account_id ot \<noteq> mem_account_id m"
    "a \<in> set (accounts d)" "acc_id a = mem_account_id ot" "has_messages d (mem_conversation_id m)"
    unfolding set_convo_rows [OF r] by (auto simp: convo_row_def)
  then show ?R unfolding mem_key_in acc_ids_def by (metis image_eqI)
next
  assume ?R
  then obtain m ot a where m: "m \<in> set (conversation_members d)" "mem_account_id m = me"
    "mem_conversation_id m = cid" "ot \<in> set (conversation_members d)" "mem_conversation_id ot = cid"
    "mem_account_id ot = b" "a \<in> set (accounts d)" "acc_id a = b" "b \<noteq> me" "has_messages d cid"
    unfolding mem_key_in acc_ids_def by (metis imageE)
  then have "convo_row d ot a \<in> set rows" unfolding set_convo_rows [OF r] by blast
  then show ?L by (rule rev_image_eqI) (simp add: m convo_row_def)
qed

lemma convo_rows_partners:
  assumes s: "sys_inv s" and r: "conversations_for order me (db s) = (Inr rows, e)"
  shows "(\<lambda>r. (cl_other r, cl_cid r)) ` set rows = {(b, cid). b \<noteq> me \<and> has_messages (db s) cid
    \<and> \<lparr>dm_account_lo = min me b, dm_account_hi = max me b, dm_conversation_id = cid\<rparr> \<in> set (dm_conversations (db s))}"
proof -
  have inv: "conv_inv (db s)" using s by (simp add: sys_inv_def db_inv_def)
  note rows = convo_row_members [OF r]
  have "(b, cid) \<in> (\<lambda>r. (cl_other r, cl_cid r)) ` set rows \<longleftrightarrow> b \<noteq> me \<and> has_messages (db s) cid
      \<and> \<lparr>dm_account_lo = min me b, dm_account_hi = max me b, dm_conversation_id = cid\<rparr> \<in> set (dm_conversations (db s))"
    for b cid
  proof
    assume "(b, cid) \<in> (\<lambda>r. (cl_other r, cl_cid r)) ` set rows"
    with rows partner_row [OF s, of cid me b] show "b \<noteq> me \<and> has_messages (db s) cid
        \<and> \<lparr>dm_account_lo = min me b, dm_account_hi = max me b, dm_conversation_id = cid\<rparr> \<in> set (dm_conversations (db s))"
      by blast
  next
    assume p: "b \<noteq> me \<and> has_messages (db s) cid
      \<and> \<lparr>dm_account_lo = min me b, dm_account_hi = max me b, dm_conversation_id = cid\<rparr> \<in> set (dm_conversations (db s))"
    then have "(cid, min me b) \<in> mem_key ` set (conversation_members (db s))"
      "(cid, max me b) \<in> mem_key ` set (conversation_members (db s))"
      using inv unfolding conv_inv_def by force+
    then have mem: "(cid, me) \<in> mem_key ` set (conversation_members (db s))"
      "(cid, b) \<in> mem_key ` set (conversation_members (db s))"
      by (cases "me \<le> b"; simp add: min_def max_def)+
    then have "b \<in> acc_ids (db s)" using inv unfolding conv_inv_def mem_key_in by blast
    with mem p rows show "(b, cid) \<in> (\<lambda>r. (cl_other r, cl_cid r)) ` set rows" by blast
  qed
  then show ?thesis unfolding set_eq_iff split_paired_All mem_Collect_eq prod.case by blast
qed


lemma mset_map_rows: "mset (map f (sort_key k (reorder p xs))) = mset (map f xs)"
  by simp

lemma distinct_map_rows: "distinct (map f (sort_key k (reorder p xs))) \<longleftrightarrow> distinct (map f xs)"
  using mset_map_rows by (rule mset_eq_imp_distinct_iff)

lemma map_join:
  "map cl_other [convo_row d ot a. m \<leftarrow> xs, P m, ot \<leftarrow> ys, Q m ot, a \<leftarrow> zs, T m ot a]
     = concat (map (\<lambda>m. if P m then concat (map (\<lambda>ot. if Q m ot then
         concat (map (\<lambda>a. if T m ot a then [mem_account_id ot] else []) zs) else []) ys) else []) xs)"
  by (simp add: map_concat convo_row_def comp_def if_distrib [where f = "map cl_other"] cong del: if_weak_cong)

lemma distinct_hits:
  assumes "distinct (map key zs)"
  shows "distinct (concat (map (\<lambda>a. if key a = k \<and> c then [x] else []) zs))"
  using assms
proof (induction zs)
  case (Cons z zs)
  show ?case
  proof (cases "key z = k \<and> c")
    case True
    then have "\<forall>a \<in> set zs. (if key a = k \<and> c then [x] else []) = []" using Cons.prems by (auto simp: image_iff)
    then have "concat (map (\<lambda>a. if key a = k \<and> c then [x] else []) zs) = []" unfolding concat_eq_Nil_conv by simp
    with True show ?thesis by (simp only: list.map concat.simps append_Nil2) simp
  next
    case False
    with Cons show ?thesis by (simp only: list.map concat.simps if_False append_Nil distinct.simps)
  qed
qed simp

lemma convo_rows_distinct:
  assumes s: "sys_inv s" and r: "conversations_for order me (db s) = (Inr rows, e)"
  shows "distinct (map cl_other rows)"
proof -
  let ?d = "db s"
  have inv: "conv_inv ?d" "auth_inv ?d" using s by (simp_all add: sys_inv_def db_inv_def)
  have dm: "distinct (map mem_key (conversation_members ?d))" using inv(1) by (simp add: conv_inv_def)
  then have members: "distinct (conversation_members ?d)" by (simp add: distinct_map)
  have key: "x = y" if "x \<in> set (conversation_members ?d)" "y \<in> set (conversation_members ?d)"
      "mem_conversation_id x = mem_conversation_id y" "mem_account_id x = mem_account_id y" for x y
    using distinct_key_eq [OF dm that(1,2)] that(3,4) by (simp add: mem_key_def)
  define hits where "hits m ot = (concat (map (\<lambda>a. if acc_id a = mem_account_id ot \<and>
      has_messages ?d (mem_conversation_id m) then [mem_account_id ot] else []) (accounts ?d)))" for m ot :: member
  have hits: "distinct (hits m ot)" "x \<in> set (hits m ot) \<Longrightarrow> x = mem_account_id ot \<and> has_messages ?d (mem_conversation_id m)"
    for m ot :: member and x
    unfolding hits_def using inv(2) by (auto simp: auth_inv_def split: if_splits intro!: distinct_hits)
  define others where "others m = (if mem_account_id m = me then concat (map (\<lambda>ot.
      if mem_conversation_id ot = mem_conversation_id m \<and> mem_account_id ot \<noteq> mem_account_id m then hits m ot
      else []) (conversation_members ?d)) else [])" for m :: member
  have others: "x \<in> set (others m) \<Longrightarrow> \<exists>ot \<in> set (conversation_members ?d). x = mem_account_id ot
      \<and> mem_conversation_id ot = mem_conversation_id m \<and> x \<noteq> me \<and> mem_account_id m = me
      \<and> has_messages ?d (mem_conversation_id m)" for m :: member and x
    unfolding others_def by (auto split: if_splits dest!: hits(2))
  have "rows = sort_key (\<lambda>r. - latest_ts ?d (cl_cid r)) (reorder order [convo_row ?d ot a.
           m \<leftarrow> conversation_members ?d, mem_account_id m = me,
           ot \<leftarrow> conversation_members ?d,
             mem_conversation_id ot = mem_conversation_id m \<and> mem_account_id ot \<noteq> mem_account_id m,
           a \<leftarrow> accounts ?d, acc_id a = mem_account_id ot \<and> has_messages ?d (mem_conversation_id m)])"
    using r unfolding conversations_for_def prod.inject sum.inject by (elim conjE) (rule sym)
  then have "distinct (map cl_other rows) \<longleftrightarrow> distinct (concat (map others (conversation_members ?d)))"
    unfolding others_def hits_def by (simp only: distinct_map_rows map_join)
  moreover have "distinct (concat (map others (conversation_members ?d)))"
  proof (rule distinct_concat_map [OF members])
    fix m assume "m \<in> set (conversation_members ?d)"
    show "distinct (others m)" unfolding others_def
      using key hits by (auto intro!: distinct_concat_map [OF members] split: if_splits)
  next
    fix m n assume mn: "m \<in> set (conversation_members ?d)" "n \<in> set (conversation_members ?d)" "m \<noteq> n"
    show "set (others m) \<inter> set (others n) = {}"
    proof (rule ccontr)
      assume "set (others m) \<inter> set (others n) \<noteq> {}"
      then obtain b where "b \<in> set (others m)" "b \<in> set (others n)" by blast
      from others [OF this(1)] others [OF this(2)]
      have m: "(mem_conversation_id m, b) \<in> mem_key ` set (conversation_members ?d)" "has_messages ?d (mem_conversation_id m)"
        and n: "(mem_conversation_id n, b) \<in> mem_key ` set (conversation_members ?d)" "has_messages ?d (mem_conversation_id n)"
        and b: "b \<noteq> me" "mem_account_id m = me" "mem_account_id n = me"
        unfolding mem_key_in by metis+
      have me: "(mem_conversation_id m, me) \<in> mem_key ` set (conversation_members ?d)"
        "(mem_conversation_id n, me) \<in> mem_key ` set (conversation_members ?d)"
        unfolding mem_key_in using mn b by blast+
      have "mem_conversation_id m = mem_conversation_id n"
        by (rule partner_unique [OF s b(1) m(2) n(2) me(1) m(1) me(2) n(1)])
      with key mn b show False by metis
    qed
  qed
  ultimately show ?thesis by simp
qed

lemma run_online_map:
  "run (for_map (\<lambda>r. bind (account_online (g r)) (\<lambda>on. Ret (h r on))) rows) s
     = (map (\<lambda>r. h r (is_online (pres s) (g r))) rows, s)"
  by (induction rows) (simp_all add: run_simps account_online_def)

text \<open>
  (C24) The list of conversations is exact. A successful request lists, latest first, each account
  that shares with the caller a direct conversation with messages, once, with the conversation and
  whether the account is online; the caller itself is not listed, and nothing changes.
\<close>

theorem list_conversations_exact:
  assumes s: "sys_inv s" and r: "run (list_conversations w hs) s = (Inr j, t)"
  shows "\<exists>me dv rows. fst (run (authed w hs) s) = Inr (me, dv) \<and> db t = db s
    \<and> j = JArr (map (\<lambda>x. conversation_json w x (is_online (pres t) (cl_other x))) rows)
    \<and> (\<lambda>x. (cl_other x, cl_cid x)) ` set rows = {(b, cid). b \<noteq> me \<and> has_messages (db s) cid
        \<and> \<lparr>dm_account_lo = min me b, dm_account_hi = max me b, dm_conversation_id = cid\<rparr>
            \<in> set (dm_conversations (db s))}
    \<and> distinct (map cl_other rows)
    \<and> sorted_wrt (\<lambda>x y. latest_ts (db s) (cl_cid y) \<le> latest_ts (db s) (cl_cid x)) rows"
proof -
  obtain me dv s1 rows where a: "run (authed w hs) s = (Inr (me, dv), s1)"
    and c: "run (pg w (\<lambda>n. conversations_for (row_order w n) me)) s1 = (Inr rows, t)"
    and j: "j = JArr (map (\<lambda>x. conversation_json w x (is_online (pres t) (cl_other x))) rows)"
    using r unfolding list_conversations_def
    by (auto elim!: run_bindE_InrE dest!: run_dbq_InrD simp: run_bind run_online_map split: prod.splits)
  have db: "db s1 = db s" "db t = db s" using authed_run_db [OF a] pg_db [OF c] by (simp_all add: reads_snd)
  note rows = pg_result [OF c, THEN conjunct2, unfolded db]
  have "sorted_wrt (\<lambda>x y. - latest_ts (db s) (cl_cid x) \<le> - latest_ts (db s) (cl_cid y)) rows"
    using rows sorted_wrt_sort_key [of "\<lambda>r. - latest_ts (db s) (cl_cid r)"] unfolding conversations_for_def by auto
  then have "sorted_wrt (\<lambda>x y. latest_ts (db s) (cl_cid y) \<le> latest_ts (db s) (cl_cid x)) rows" by simp
  with a j db convo_rows_partners [OF s rows] convo_rows_distinct [OF s rows] show ?thesis
    by (intro exI [of _ me] exI [of _ dv] exI [of _ rows]) simp
qed

theorem list_conversations_exact_witness:
  "\<exists>j t x. run (list_conversations demo_world demo_al) demo_chat = (Inr j, t) \<and> j = JArr [x]"
proof -
  obtain j t where r: "run (list_conversations demo_world demo_al) demo_chat = (Inr j, t)"
    by (simp add: list_conversations_def conversations_for_def run_bindE run_bind demo_authed(2) run_dbq run_pg run_online_map)
  have "{(b, cid). b \<noteq> 1 \<and> has_messages (db demo_chat) cid
        \<and> \<lparr>dm_account_lo = min 1 b, dm_account_hi = max 1 b, dm_conversation_id = cid\<rparr>
            \<in> set (dm_conversations (db demo_chat))} = {(2, 1034)}"
  proof -
    have "min 1 b = 1 \<and> max 1 b = 2 \<longleftrightarrow> b = 2" for b :: uuid by (auto simp: min_def max_def)
    then show ?thesis by (auto simp: demo_chat_def has_messages_def)
  qed
  with list_conversations_exact [OF sys_inv_demo_chat r] demo_authed(2) obtain rows where
      j: "j = JArr (map (\<lambda>x. conversation_json demo_world x (is_online (pres t) (cl_other x))) rows)"
    and partners: "(\<lambda>x. (cl_other x, cl_cid x)) ` set rows = {(2, 1034)}" and d: "distinct (map cl_other rows)"
    by auto
  have "set (map cl_other rows) = fst ` ((\<lambda>x. (cl_other x, cl_cid x)) ` set rows)" by (simp add: image_comp comp_def)
  then have "set (map cl_other rows) = {2}" unfolding partners by simp
  then have "length (map cl_other rows) = 1" using distinct_card [OF d] by simp
  then obtain x where "rows = [x]" by (auto simp: length_Suc_conv)
  with j r show ?thesis by auto
qed

end
