(* ===== verification/Socket_Properties.thy ===== *)
theory Socket_Properties
  imports Conversation_Properties
begin

text \<open>
  Properties of WebSocket connections (\<open>handle_socket\<close> in \<open>ws.rs\<close>): what a connection changes in
  presence while it is open and after it was left, and what it sends on.
\<close>

section \<open>Steps that leave presence alone\<close>

definition same_pres :: "sys \<Rightarrow> sys \<Rightarrow> bool" where
  "same_pres s t \<longleftrightarrow> pres t = pres s"

lemma same_pres_run: "guar same_pres p \<Longrightarrow> pres (snd (run p s)) = pres s"
  using guar_run [of same_pres p s] by (auto simp: same_pres_def)

lemma guar_pres_primitives [guar_intros]:
  "guar same_pres (pg w q)" "guar same_pres (new_uuid w)" "guar same_pres (now_utc w)"
  "guar same_pres (bus_publish d env)" "guar same_pres (bus_subscribe d)" "guar same_pres (bus_recv w d rx pos)"
  unfolding pg_def new_uuid_def now_utc_def bus_publish_def bus_subscribe_def bus_recv_def look_def
  by (auto intro!: guar_atomic simp: same_pres_def split: fault.splits prod.splits)

lemma guar_pres_create [guar_intros]: "guar same_pres (create_conversation w cid lo hi)"
  unfolding create_conversation_def
  by (rule guar_atomic) (simp add: same_pres_def claim_on_def same_pres_run [OF guar_pres_primitives(1)])

lemma guar_pres_events [guar_intros]:
  "guar same_pres (envelope_of w ty p)" "guar same_pres (deliver_to_account w a env ex)"
  "guar same_pres (broadcast_presence w a b ls)" "guar same_pres (dm_conversation w x y)"
  "guar same_pres (receipt_marks w ty' cid acc)"
  unfolding envelope_of_def deliver_to_account_def broadcast_presence_def dm_conversation_def receipt_marks_def
  by (auto intro!: guar_intros simp: same_pres_def split: sum.splits prod.splits option.splits)

lemma guar_pres_inbound [guar_intros]: "guar same_pres (handle_inbound w parse account t)"
  unfolding handle_inbound_def by (auto intro!: guar_intros split: option.splits sum.splits)

lemma guar_pres_loop [guar_intros]: "guar same_pres (socket_loop w parse account device rx pos es)"
  by (induction w parse account device rx pos es rule: socket_loop.induct)
    (auto intro!: guar_intros split: option.splits prod.splits recv_outcome.splits)

section \<open>The life of a connection\<close>

lemma presence_connect_run:
  "run (presence_connect device account) s
     = (fst (on_connect device account (pres s)), s\<lparr>pres := snd (on_connect device account (pres s))\<rparr>)"
  by (simp add: presence_connect_def run_simps on_connect_def split: prod.splits)

lemma presence_disconnect_run:
  "run (presence_disconnect device) s
     = (fst (on_disconnect device (pres s)), s\<lparr>pres := snd (on_disconnect device (pres s))\<rparr>)"
  by (auto simp: presence_disconnect_def run_simps on_disconnect_def split: prod.splits option.splits)

lemma AList_delete_update_new: "d \<notin> fst ` set xs \<Longrightarrow> AList.delete d (AList.update d a xs) = xs"
  by (induction xs) (auto simp: AList.delete_eq filter_id_conv)

text \<open>Connecting and disconnecting a device that was not connected restores presence.\<close>

lemma connect_disconnect:
  assumes p: "presence_inv p" and d: "d \<notin> fst ` set (connected p)"
  shows "on_disconnect d (snd (on_connect d a p)) = (Some (a, \<not> is_online p a), p)"
proof -
  have m: "map_of (AList.update d a (connected p)) d = Some a" by (simp add: update_conv')
  have "online p a = None \<or> (\<exists>n. online p a = Some (Suc n))"
    using p by (auto simp: presence_inv_def gr0_conv_Suc)
  then show ?thesis
  proof
    assume none: "online p a = None"
    then have "p\<lparr>online := (online p)(a := None)\<rparr> = p" by (simp add: fun_upd_idem)
    with none show ?thesis using m AList_delete_update_new [OF d]
      by (simp add: on_disconnect_def connected_remove_def on_connect_def online_up_def connected_insert_def
          online_down_def usize_dec_def is_online_def)
  next
    assume "\<exists>n. online p a = Some (Suc n)"
    then obtain n where "online p a = Some (Suc n)" ..
    then show ?thesis using m AList_delete_update_new [OF d]
      by (simp add: on_disconnect_def connected_remove_def on_connect_def online_up_def connected_insert_def
          online_down_def usize_dec_def is_online_def fun_upd_idem)
  qed
qed


lemma socket_opened_pres:
  assumes "run (socket_opened w account device) s = (x, t)"
  shows "pres t = snd (on_connect device account (pres s))"
proof -
  let ?p = "\<lambda>first. bind (if first then broadcast_presence w account True None else Ret ()) (\<lambda>_. bus_subscribe device)"
  have "guar same_pres (?p first)" for first by (auto intro!: guar_intros)
  from same_pres_run [OF this] assms show ?thesis
    by (auto simp: socket_opened_def run_bind presence_connect_run dest!: arg_cong [of _ _ "\<lambda>x. pres (snd x)"])
qed

lemma socket_closed_pres:
  assumes "run (socket_closed w device) s = (x, t)" and "on_disconnect device (pres s) = (Some (a, off), p)"
  shows "pres t = p"
proof -
  let ?p = "if off then bind (now_utc w) (\<lambda>now. bind (pg w (\<lambda>_. set_last_seen a now)) (\<lambda>_.
      broadcast_presence w a False (Some now))) else Ret ()"
  have "guar same_pres ?p" by (auto intro!: guar_intros)
  from same_pres_run [OF this, of "s\<lparr>pres := p\<rparr>"] assms show ?thesis
    by (simp add: socket_closed_def run_bind presence_disconnect_run)
qed



end
