(* ===== verification/Liveness_Properties.thy ===== *)
theory Liveness_Properties
  imports Media_Properties
begin

text \<open>
  When requests succeed: without faults, and as long as the generators return fresh values, logins
  and messages that meet the documented conditions go through.
\<close>

section \<open>Fresh identifiers\<close>

text \<open>
  The next \<open>k\<close> identifiers the generator can return are new, and different from each other:
  what version-4 UUIDs give with overwhelming probability.
\<close>

definition used_ids :: "database \<Rightarrow> uuid set" where
  "used_ids d = acc_id ` set (accounts d) \<union> dev_id ` set (devices d) \<union> ses_id ` set (sessions d)
     \<union> conv_id ` set (conversations d) \<union> msg_id ` set (messages d) \<union> md_id ` set (media_rows d)"

definition fresh_ids :: "world \<Rightarrow> sys \<Rightarrow> nat \<Rightarrow> bool" where
  "fresh_ids w s k \<longleftrightarrow> inj_on (uuid_at w) {tick s..<tick s + k}
     \<and> (\<forall>n \<in> {tick s..<tick s + k}. uuid_at w n \<notin> used_ids (db s))"

text \<open>The tokens the next \<open>k\<close> random draws lead to have hashes of no session.\<close>

definition fresh_tokens :: "world \<Rightarrow> sys \<Rightarrow> nat \<Rightarrow> bool" where
  "fresh_tokens w s k \<longleftrightarrow> (\<forall>n \<in> {tick s..<tick s + k}. \<forall>e \<in> set (sessions (db s)).
     ses_access_token_hash e \<noteq> hash_token w (''tka_'' @ b64url_encode w (random_bytes w n))
   \<and> ses_refresh_token_hash e \<noteq> hash_token w (''tkr_'' @ b64url_encode w (random_bytes w n)))"

section \<open>Logging in\<close>

lemma issue_session_total:
  assumes w: "no_faults w" and ids: "\<forall>n \<in> {tick s..<tick s + 5}. uuid_at w n \<notin> ses_id ` set (sessions (db s))"
    and tok: "fresh_tokens w s 5" and dv: "device \<in> dev_id ` set (devices (db s))"
  shows "\<exists>tp t. run (issue_session w device) s = (Inr tp, t)"
proof -
  have "uuid_at w (Suc (Suc (Suc (tick s)))) \<notin> ses_id ` set (sessions (db s))" using ids by simp
  moreover have "tick s \<in> {tick s..<tick s + 5}" "Suc (tick s) \<in> {tick s..<tick s + 5}" by simp_all
  then have "hash_token w (''tka_'' @ b64url_encode w (random_bytes w (tick s))) \<notin> ses_access_token_hash ` set (sessions (db s))"
    "hash_token w (''tkr_'' @ b64url_encode w (random_bytes w (Suc (tick s)))) \<notin> ses_refresh_token_hash ` set (sessions (db s))"
    using tok unfolding fresh_tokens_def image_iff by metis+
  ultimately show ?thesis
    using w dv by (simp add: issue_session_def new_token_def run_simps no_faultsD create_session_def has_key_iff)
qed

text \<open>
  (C16) Who may log in can. Without faults, and as long as identifiers and tokens are fresh, a login
  succeeds exactly if the identity key is valid base64 and there is an account of the given name
  whose password verifier accepts the given password.
\<close>

theorem login_succeeds_iff:
  assumes w: "no_faults w" and s: "sys_inv s" and f: "fresh_ids w s 20" "fresh_tokens w s 20"
  shows "(\<exists>a t. run (login w req) s = (Inr a, t)) \<longleftrightarrow>
    b64_decode w (reg_public_identity (lr_device req)) \<noteq> None
    \<and> (\<exists>acc \<in> set (accounts (db s)). acc_username acc = lr_username req
         \<and> verify_password w (acc_password_verifier acc) (lr_password req))"
    (is "?L \<longleftrightarrow> ?R")
proof
  assume ?L
  then show ?R
    by (auto simp: login_def decode_identity_def find_account_by_username_def elim!: run_bindE_InrE
        dest!: run_ok_or_InrD run_auth_InrD pg_result find_SomeD split: if_splits)
next
  assume ?R
  then obtain k acc where k: "b64_decode w (reg_public_identity (lr_device req)) = Some k"
    and acc: "acc \<in> set (accounts (db s))" "acc_username acc = lr_username req"
    and v: "verify_password w (acc_password_verifier acc) (lr_password req)" by blast
  have find: "List.find (\<lambda>a. acc_username a = lr_username req) (accounts (db s)) = Some acc"
    using s acc by (intro find_unique_key) (auto simp: sys_inv_def db_inv_def auth_inv_def)
  define dv where "dv = uuid_at w (Suc (tick s))"
  have "dv \<notin> dev_id ` set (devices (db s))" using f(1) by (simp add: dv_def fresh_ids_def used_ids_def)
  then obtain v' where cd: "create_device (pg_now w (Suc (Suc (tick s)))) dv (acc_id acc)
      (reg_display_name (lr_device req)) k (db s) = (Inr v', (db s)\<lparr>devices := devices (db s) @ [v']\<rparr>)"
      "dev_id v' = dv"
    using acc(1) by (simp add: create_device_def has_key_iff)
  define u where "u = (advance (advance (advance s)))\<lparr>db := (db s)\<lparr>devices := devices (db s) @ [v']\<rparr>\<rparr>"
  have u: "tick u = tick s + 3" "sessions (db u) = sessions (db s)" by (simp_all add: u_def)
  have "\<forall>n \<in> {tick u..<tick u + 5}. uuid_at w n \<notin> ses_id ` set (sessions (db u))"
    using f(1) by (simp add: u fresh_ids_def used_ids_def)
  moreover have "fresh_tokens w u 5" using f(2) by (simp add: u fresh_tokens_def)
  ultimately obtain tp t where "run (issue_session w dv) u = (Inr tp, t)"
    using issue_session_total [OF w, of u dv] cd(2) by (auto simp: u_def)
  then show ?L
    using w k find v cd(1)
    by (auto simp: login_def decode_identity_def run_simps no_faultsD find_account_by_username_def u_def dv_def advance_def)
qed


lemma demo_fresh: "fresh_ids demo_world demo_two 20" "fresh_tokens demo_world demo_two 20"
proof -
  have n: "{30..<50} = {30, 31, 32, 33, 34, 35, 36, 37, 38, 39, 40, 41, 42, 43, 44, 45, 46, 47, 48, 49 :: nat}"
    by (intro set_eqI) (simp, presburger)
  show "fresh_ids demo_world demo_two 20" "fresh_tokens demo_world demo_two 20"
    by (simp_all add: fresh_ids_def fresh_tokens_def used_ids_def demo_two_def demo_sys_def n hash_token_def empty_database_def)
qed

theorem login_succeeds_iff_witness: "\<exists>a t. run (login demo_world demo_login) demo_two = (Inr a, t)"
proof -
  have "\<exists>acc \<in> set (accounts (db demo_two)). acc_username acc = lr_username demo_login
      \<and> verify_password demo_world (acc_password_verifier acc) (lr_password demo_login)"
    by (simp add: demo_two_def demo_login_def verify_password_def)
  then show ?thesis
    unfolding login_succeeds_iff [OF no_faults_demo sys_inv_demo_two demo_fresh] by simp
qed


section \<open>Sending\<close>

lemma dm_conversation_total:
  assumes w: "no_faults w" and s: "sys_inv s" and acc: "a \<in> acc_ids (db s)" "b \<in> acc_ids (db s)"
    and fresh: "uuid_at w (Suc (tick s)) \<notin> conv_ids (db s)"
  shows "\<exists>cid t. run (dm_conversation w a b) s = (Inr cid, t) \<and> tick s \<le> tick t \<and> tick t \<le> tick s + 6
    \<and> (\<forall>c \<in> set (conversations (db t)). c \<in> set (conversations (db s)) \<or> conv_last_seq c = 0)"
proof -
  obtain lo hi where p: "pair_order a b = (lo, hi)" by fastforce
  have lh: "lo \<in> acc_ids (db s)" "hi \<in> acc_ids (db s)" using acc pair_order_set [of a b] by (auto simp: p)
  show ?thesis
  proof (cases "List.find (\<lambda>p. dm_key p = (lo, hi)) (dm_conversations (db s))")
    case (Some r)
    then have "run (dm_conversation w a b) s = (Inr (dm_conversation_id r), advance s)"
      using w p by (simp add: dm_conversation_def run_simps no_faultsD select_dm_def)
    then show ?thesis by (intro exI [of _ "dm_conversation_id r"] exI [of _ "advance s"]) simp
  next
    case None
    then have new: "\<not> has_key dm_key (lo, hi) (dm_conversations (db s))"
      by (auto simp: find_None_iff has_key_iff)
    show ?thesis
      using w p None new fresh lh
      by (simp add: dm_conversation_def run_simps no_faultsD select_dm_def create_conversation_def run_atomic
          insert_conversation_def insert_members_def insert_dm_def select_dm_one_def claim_on_def
          has_key_iff conv_ids_def acc_ids_def find_append dm_key_def Let_def)
  qed
qed


lemma store_message_total:
  assumes w: "no_faults w" and s: "sys_inv s" and dm: "in_dm cid me s"
    and c: "c \<in> set (conversations (db s))" "conv_id c = cid" "conv_last_seq c < i64_max"
    and fresh: "uuid_at w (Suc (tick s)) \<notin> msg_id ` set (messages (db s))"
  shows "\<exists>m t. run (store_message w cid me dv content rt) s = (Inr m, t) \<and> tick t = tick s + 3
    \<and> conv_ids (db t) = conv_ids (db s) \<and> media_rows (db t) = media_rows (db s) \<and> accounts (db t) = accounts (db s)"
proof -
  have inv: "conv_inv (db s)" "msg_inv (db s)" using s by (simp_all add: sys_inv_def db_inv_def)
  have find: "List.find (\<lambda>x. conv_id x = cid) (conversations (db s)) = Some c"
    using inv(1) c by (intro find_unique_key) (auto simp: conv_inv_def)
  have "msg_seq m \<le> conv_last_seq c" if m: "m \<in> set (messages (db s))" "msg_conversation_id m = cid" for m
  proof -
    have "seq_within (db s) (msg_conversation_id m) (msg_seq m)" using inv(2) m(1) unfolding msg_inv_def by blast
    then obtain c' where c': "c' \<in> set (conversations (db s))" "conv_id c' = cid" "msg_seq m \<le> conv_last_seq c'"
      using m(2) by (auto simp: seq_within_def)
    have "c' = c" using inv(1) c c' distinct_key_eq [of conv_id "conversations (db s)" c' c] by (simp add: conv_inv_def)
    with c'(3) show ?thesis by simp
  qed
  then have seq: "(cid, conv_last_seq c + 1) \<notin> seq_key ` set (messages (db s))" by (fastforce simp: seq_key_def)
  have me: "me \<in> acc_id ` set (accounts (db s))"
    using dm inv(1) by (fastforce simp: in_dm_def joined_def conv_inv_def mem_key_def acc_ids_def)
  have cid: "cid \<in> conv_id ` set (conversations (db s))" using c by blast
  show ?thesis
    using w find c(3) seq me cid fresh
    by (simp add: store_message_def run_simps no_faultsD bump_last_seq_def insert_message_def new_message_def
        has_key_iff seq_key_def conv_ids_def)
qed

lemma index_attachments_total:
  assumes "no_faults w" and "cid \<in> conv_ids (db s)" and "me \<in> acc_ids (db s)"
    and "inj_on (uuid_at w) {tick s..<tick s + 2 * length atts}"
    and "\<forall>n \<in> {tick s..<tick s + 2 * length atts}. uuid_at w n \<notin> md_id ` set (media_rows (db s))"
  shows "\<exists>t. run (index_attachments w cid me msg atts) s = (Inr (), t)"
  using assms unfolding index_attachments_def
proof (induction atts arbitrary: s)
  case Nil
  show ?case by simp
next
  case (Cons att atts)
  let ?r = "record_media w cid (msg_id msg) me (msg_seq msg) (at_kind att)
       (parse_id w (at_blob_id att)) (parse_id w (at_thumb_blob_id att)) (at_mime att) (at_name att)
       (at_url att) (at_size att) (at_width att) (at_height att)"
  have "uuid_at w (tick s) \<notin> md_id ` set (media_rows (db s))" using Cons.prems(5) by simp
  then obtain e where r: "run ?r s = (Inr (), (advance (advance s))\<lparr>db := (db s)\<lparr>media_rows := media_rows (db s) @ [e]\<rparr>\<rparr>)"
    and e: "md_id e = uuid_at w (tick s)"
    using Cons.prems(1-3)
    by (simp add: record_media_def run_simps no_faultsD insert_media_def has_key_iff conv_ids_def acc_ids_def)
  let ?u = "(advance (advance s))\<lparr>db := (db s)\<lparr>media_rows := media_rows (db s) @ [e]\<rparr>\<rparr>"
  have sub: "{tick ?u..<tick ?u + 2 * length atts} \<subseteq> {tick s..<tick s + 2 * length (att # atts)}" by auto
  have "uuid_at w n \<noteq> uuid_at w (tick s)" if "n \<in> {tick ?u..<tick ?u + 2 * length atts}" for n
    using inj_onD [OF Cons.prems(4), of n "tick s"] that by auto
  then have "\<forall>n \<in> {tick ?u..<tick ?u + 2 * length atts}. uuid_at w n \<notin> md_id ` set (media_rows (db ?u))"
    using Cons.prems(5) sub e by auto
  with Cons.IH [of ?u] Cons.prems(1-4) inj_on_subset [OF _ sub] obtain t where
    "run (for_eachE atts (\<lambda>att. dbq w (record_media w cid (msg_id msg) me (msg_seq msg) (at_kind att)
       (parse_id w (at_blob_id att)) (parse_id w (at_thumb_blob_id att)) (at_mime att) (at_name att)
       (at_url att) (at_size att) (at_width att) (at_height att)))) ?u = (Inr (), t)"
    by (auto simp: conv_ids_def acc_ids_def)
  then show ?case using r by (simp add: run_bindE run_dbq)
qed


lemma authed_account:
  assumes s: "sys_inv s" and a: "run (authed w hs) s = (Inr (me, dv), t)"
  shows "me \<in> acc_ids (db s)"
proof -
  obtain u v where "run (pg w (\<lambda>_. find_device_by_id dv)) u = (Inr (Some v), t)" "dev_account_id v = me"
    using a unfolding authed_def by (auto elim!: run_bindE_InrE dest!: run_ok_or_InrD run_auth_InrD)
  then have "v \<in> set (devices (db t))" "dev_account_id v = me"
    using pg_result by (fastforce simp: find_device_by_id_def dest!: find_SomeD)+
  then show ?thesis
    using s authed_run_db [OF a] by (auto simp: sys_inv_def db_inv_def auth_inv_def acc_ids_def)
qed

lemma store_then_index:
  assumes w: "no_faults w" and s: "sys_inv s" and dm: "in_dm cid me s"
    and room: "\<forall>c \<in> set (conversations (db s)). conv_last_seq c < i64_max"
    and inj: "inj_on (uuid_at w) {tick s..<tick s + (3 + 2 * length atts)}"
    and new: "\<forall>n \<in> {tick s..<tick s + (3 + 2 * length atts)}.
      uuid_at w n \<notin> msg_id ` set (messages (db s)) \<union> md_id ` set (media_rows (db s))"
  shows "\<exists>m u v. run (store_message w cid me dv content rt) s = (Inr m, u)
    \<and> run (index_attachments w cid me m atts) u = (Inr (), v)"
proof -
  have inv: "conv_inv (db s)" using s by (simp add: sys_inv_def db_inv_def)
  obtain x where x: "x \<in> set (conversation_members (db s))" "mem_conversation_id x = cid" "mem_account_id x = me"
    using dm by (auto simp: in_dm_def joined_def mem_key_in)
  then have me: "me \<in> acc_ids (db s)" and "cid \<in> conv_ids (db s)" using inv unfolding conv_inv_def by blast+
  then obtain c where c: "c \<in> set (conversations (db s))" "conv_id c = cid" by (auto simp: conv_ids_def)
  have "uuid_at w (Suc (tick s)) \<notin> msg_id ` set (messages (db s))" using new by simp
  with store_message_total [OF w s dm c] room c(1) obtain m u where
      st: "run (store_message w cid me dv content rt) s = (Inr m, u)"
    and u: "tick u = tick s + 3" "conv_ids (db u) = conv_ids (db s)" "media_rows (db u) = media_rows (db s)"
      "accounts (db u) = accounts (db s)"
    by blast
  have sub: "{tick u..<tick u + 2 * length atts} \<subseteq> {tick s..<tick s + (3 + 2 * length atts)}" by (auto simp: u(1))
  have "inj_on (uuid_at w) {tick u..<tick u + 2 * length atts}" using inj sub by (rule inj_on_subset)
  moreover have "\<forall>n \<in> {tick u..<tick u + 2 * length atts}. uuid_at w n \<notin> md_id ` set (media_rows (db u))"
    unfolding u(3) using new sub by (meson UnI2 subsetD)
  ultimately have "\<exists>v. run (index_attachments w cid me m atts) u = (Inr (), v)"
    using index_attachments_total [OF w, of cid u me atts m] me \<open>cid \<in> conv_ids (db s)\<close> u(2,4)
    by (simp add: acc_ids_def)
  with st show ?thesis by blast
qed

lemma send_message_progress:
  assumes w: "no_faults w" and s: "sys_inv s" and a: "run (authed w hs) s = (Inr (me, dv), s1)"
    and f: "fresh_ids w s (20 + 2 * length (all_attachments req))"
    and room: "\<forall>c \<in> set (conversations (db s)). conv_last_seq c < i64_max"
    and target: "target \<in> set (accounts (db s))" "acc_username target = sr_to_username req"
    and content: "b64_decode w (sr_ciphertext req) = Some content"
  shows "\<exists>j t. run (send_message w hs req) s = (Inr j, t)"
proof -
  let ?k = "20 + 2 * length (all_attachments req)"
  have s1: "db s1 = db s" "tick s1 = tick s + 2"
    using a w by (auto simp: run_authed split: option.splits)
  have inv2: "sys_inv (advance s1)"
    using safe_run_inv [OF safe_authed(1) s a] by (simp add: sys_inv_def claim_inv_def)
  have find: "List.find (\<lambda>x. acc_username x = sr_to_username req) (accounts (db s)) = Some target"
    using s target by (intro find_unique_key) (auto simp: sys_inv_def db_inv_def auth_inv_def)
  have acc: "me \<in> acc_ids (db (advance s1))" "acc_id target \<in> acc_ids (db (advance s1))"
    using authed_account [OF s a] target(1) by (simp_all add: s1 acc_ids_def)
  have new: "uuid_at w n \<notin> used_ids (db s)" if "tick s \<le> n" "n < tick s + ?k" for n
    using f that by (simp add: fresh_ids_def)
  have "uuid_at w (Suc (tick (advance s1))) \<notin> conv_ids (db (advance s1))"
    using new [of "Suc (Suc (Suc (Suc (tick s))))"] by (simp add: s1 used_ids_def conv_ids_def)
  from dm_conversation_total [OF w inv2 acc this] obtain cid s3 where
      dm: "run (dm_conversation w me (acc_id target)) (advance s1) = (Inr cid, s3)"
    and t3: "tick s + 3 \<le> tick s3" "tick s3 \<le> tick s + 9"
    and room3: "\<forall>c \<in> set (conversations (db s3)). conv_last_seq c < i64_max"
    using room by (fastforce simp: s1 i64_max_def)
  have tabs: "messages (db s3) = messages (db s) \<and> media_rows (db s3) = media_rows (db s)"
    using frame_run [OF guar_frame_dm_conversation dm, of "\<lambda>d. (messages d, media_rows d)"] by (simp add: s1)
  have inv3: "sys_inv s3" and in_dm: "in_dm cid me s3"
    using dm_conversation_run [OF inv2 dm] dm_row_in_dm [of "pair_order me (acc_id target)" cid s3 me]
      pair_order_set [of me "acc_id target"] by auto
  let ?W = "{tick s3..<tick s3 + (3 + 2 * length (all_attachments req))}"
  have sub: "?W \<subseteq> {tick s..<tick s + ?k}" using t3 by auto
  have "inj_on (uuid_at w) ?W" using f [unfolded fresh_ids_def, THEN conjunct1] sub by (rule inj_on_subset)
  moreover have "\<forall>n \<in> ?W. uuid_at w n \<notin> msg_id ` set (messages (db s3)) \<union> md_id ` set (media_rows (db s3))"
    using new sub tabs by (auto simp: used_ids_def subset_iff)
  ultimately obtain m s4 s5 where
    "run (store_message w cid me dv content (parse_id w (sr_reply_to_message_id req))) s3 = (Inr m, s4)"
    "run (index_attachments w cid me m (all_attachments req)) s4 = (Inr (), s5)"
    using store_then_index [OF w inv3 in_dm room3] by blast
  then show ?thesis
    using w a find content dm
    by (auto simp: send_message_def run_bindE run_bind run_auth run_pg run_dbq run_ok_or no_faultsD s1
        find_account_by_username_def split: prod.splits)
qed

text \<open>
  (C9) What can be sent is sent. Without faults, with fresh identifiers and with room in the
  counters, an authenticated request to send a message succeeds exactly if the named recipient
  exists and the ciphertext is valid base64.
\<close>

theorem send_succeeds_iff:
  assumes w: "no_faults w" and s: "sys_inv s" and a: "fst (run (authed w hs) s) = Inr (me, dv)"
    and f: "fresh_ids w s (20 + 2 * length (all_attachments req))"
    and room: "\<forall>c \<in> set (conversations (db s)). conv_last_seq c < i64_max"
  shows "(\<exists>j t. run (send_message w hs req) s = (Inr j, t)) \<longleftrightarrow>
    sr_to_username req \<in> acc_username ` set (accounts (db s)) \<and> b64_decode w (sr_ciphertext req) \<noteq> None"
    (is "?L \<longleftrightarrow> ?R")
proof
  assume ?L
  then obtain j t where "run (send_message w hs req) s = (Inr j, t)" by blast
  from send_message_effect [OF s this] show ?R by (elim exE conjE) (metis image_eqI option.distinct(1))
next
  assume ?R
  then obtain target content where "target \<in> set (accounts (db s))" "acc_username target = sr_to_username req"
    "b64_decode w (sr_ciphertext req) = Some content" by force
  moreover obtain s1 where "run (authed w hs) s = (Inr (me, dv), s1)" using a by (cases "run (authed w hs) s") simp
  ultimately show ?L using send_message_progress [OF w s _ f room] by blast
qed

theorem send_succeeds_iff_witness:
  "\<exists>j t. run (send_message demo_world demo_al demo_send) demo_two = (Inr j, t)"
proof -
  have f: "fresh_ids demo_world demo_two (20 + 2 * length (all_attachments demo_send))"
    by (simp add: all_attachments_def demo_send_def demo_fresh)
  have r: "\<forall>c \<in> set (conversations (db demo_two)). conv_last_seq c < i64_max"
    by (simp add: demo_two_def empty_database_def)
  show ?thesis
    unfolding send_succeeds_iff [OF no_faults_demo sys_inv_demo_two demo_authed(1) f r]
    by (simp add: demo_two_def demo_send_def)
qed

end
