(* ===== verification/Failure_Properties.thy ===== *)
theory Failure_Properties
  imports Media_Properties
begin

text \<open>
  The shape of answers, and what failing statements and unlucky interleavings leave behind: gaps in
  the sequence numbers, and index entries of deleted messages.
\<close>

section \<open>The shape of answers\<close>

text \<open>The status and code of every error, and the body that carries it.\<close>

definition api_errors :: "(nat \<times> string) list" where
  "api_errors = [(400, ''BAD_REQUEST''), (401, ''UNAUTHENTICATED''), (404, ''NOT_FOUND''),
     (409, ''CONFLICT''), (500, ''INTERNAL'')]"

definition is_api_error :: "nat \<Rightarrow> json \<Rightarrow> bool" where
  "is_api_error st j = list_ex (\<lambda>(st', code). st = st' \<and> (case j of
       JObj [(k, JStr c), (l, JStr _)] \<Rightarrow> k = ''code'' \<and> c = code \<and> l = ''message''
     | _ \<Rightarrow> False)) api_errors"

fun success_status :: "call \<Rightarrow> nat" where
  "success_status (Register _) = 201"
| "success_status Logout = 204"
| "success_status (Rejected st) = st"
| "success_status c = 200"

lemma app_error_is_api_error: "is_api_error (status (app_error_response e)) (body (app_error_response e))"
  by (cases e) (simp_all add: app_error_response_def is_api_error_def api_errors_def)

definition well_formed_reply :: "call \<Rightarrow> reply \<Rightarrow> bool" where
  "well_formed_reply c r =
     (case r of
        JsonReply st j \<Rightarrow> is_api_error st j \<or> (st = success_status c \<and> (st = 200 \<or> st = 201))
      | EmptyReply st \<Rightarrow> st = success_status c \<and> (case c of Logout \<Rightarrow> True | Rejected _ \<Rightarrow> True | _ \<Rightarrow> False)
      | _ \<Rightarrow> False)"

lemma well_formed_respond:
  assumes "\<And>x. well_formed_reply c (f x)"
  shows "well_formed_reply c (fst (run (respond f p) s))"
proof -
  have err: "well_formed_reply c (JsonReply (status (app_error_response e)) (body (app_error_response e)))" for e
    using app_error_is_api_error by (simp add: well_formed_reply_def)
  obtain r t where "run p s = (r, t)" by fastforce
  then show ?thesis using assms err by (cases r) (simp_all add: respond_def run_bind Let_def)
qed


section \<open>Sequence numbers and failing statements\<close>

text \<open>A world in which only the statement that inserts the first message fails.\<close>

definition flaky_world :: world where
  "flaky_world = demo_world\<lparr>fault := (\<lambda>n. if n = 41 then FailBefore ''connection lost'' else NoFault)\<rparr>"

lemma flaky_world_simps [simp]:
  "fault flaky_world n = (if n = 41 then FailBefore ''connection lost'' else NoFault)"
  "pg_now flaky_world = int" "app_now flaky_world = int"
  "uuid_at flaky_world n = of_nat (1000 + n)" "random_bytes flaky_world n = [of_nat n]"
  "row_order flaky_world n = []" "b64_decode flaky_world s = Some (map of_char s)"
  "uuid_parse flaky_world s = Some (of_nat (length s))" "sha256 flaky_world = map of_char"
  "header_to_str flaky_world = Some"
  by (simp_all add: flaky_world_def)


section \<open>Deleting while attachments are being indexed\<close>

text \<open>The part of \<open>send_message\<close> up to the stored message, and the rest of it.\<close>

definition send_stored :: "world \<Rightarrow> headers \<Rightarrow> send_req \<Rightarrow> (sys, app_error + uuid \<times> uuid \<times> account \<times> bytes \<times> uuid \<times> message) prog" where
  "send_stored w hs req =
     bindE (authed w hs) (\<lambda>(me, my_device).
     bindE (auth w (\<lambda>_. find_account_by_username (sr_to_username req))) (\<lambda>found.
     bindE (ok_or (NotFound ''user not found'') found) (\<lambda>target.
     bindE (ok_or (BadRequest ''ciphertext must be base64'') (b64_decode w (sr_ciphertext req))) (\<lambda>content.
     bindE (dbq w (dm_conversation w me (acc_id target))) (\<lambda>convo.
     bindE (dbq w (store_message w convo me my_device content (parse_id w (sr_reply_to_message_id req)))) (\<lambda>msg.
     Ret (Inr (me, my_device, target, content, convo, msg))))))))"

definition send_indexed ::
    "world \<Rightarrow> send_req \<Rightarrow> uuid \<times> uuid \<times> account \<times> bytes \<times> uuid \<times> message \<Rightarrow> (sys, app_error + json) prog" where
  "send_indexed w req = (\<lambda>(me, my_device, target, content, convo, msg).
     bindE (index_attachments w convo me msg (all_attachments req)) (\<lambda>_.
     bind (envelope_of w ''message.new'' (message_event w convo me my_device msg content
         (parse_id w (sr_reply_to_message_id req)))) (\<lambda>env.
     bind (deliver_message w me my_device (acc_id target) env) (\<lambda>_.
     Ret (Inr (JObj [(''messageId'', juuid w (msg_id msg)), (''seq'', JInt (msg_seq msg)),
                     (''serverTs'', jtime w (msg_server_ts msg)), (''conversationId'', juuid w convo)]))))))"

lemma send_message_split: "send_message w hs req = bindE (send_stored w hs req) (send_indexed w req)"
proof -
  have Ret: "bindE (Ret (Inr x)) k = k x" for x and k :: "'a \<Rightarrow> (sys, app_error + json) prog" by (simp add: bindE_def)
  show ?thesis
    unfolding send_message_def send_stored_def send_indexed_def bindE_assoc Let_def
    by (simp add: bindE_assoc Ret case_prod_unfold)
qed

definition demo_attached :: send_req where
  "demo_attached = demo_send\<lparr>sr_attachment := Some (demo_picture ''a.png'')\<rparr>"

lemma demo_deletion_runs:
  "\<exists>x s1 b s2 a t. run (send_stored demo_world demo_al demo_attached) demo_two = (Inr x, s1)
     \<and> run (delete_message_handler demo_world demo_bo (replicate 1040 CHR ''x'') None) s1 = (Inr b, s2)
     \<and> run (send_indexed demo_world demo_attached x) s2 = (Inr a, t)
     \<and> list_all (\<lambda>m. msg_deleted_at m \<noteq> None) (messages (db t)) \<and> map md_message_id (media_rows (db t)) = [1040]"
  by (simp add: send_stored_def send_indexed_def demo_attached_def demo_send_def demo_picture_def prog_defs run_simps)


end
