(* ===== verification/Chat_Refinement.thy ===== *)
theory Chat_Refinement
  imports App_Properties
begin

text \<open>
  What the messages of the server are, seen from outside: for each conversation a sequence of
  entries to which one can be added, whose content can be amended, and from which one can be
  retracted. Every atomic step of every request, whether its statement fails or not, leaves this
  abstract chat alone or makes one of its three steps.
\<close>

section \<open>The abstract chat\<close>

record entry =
  en_id :: uuid
  en_sender :: uuid
  en_content :: bytes
  en_reply_to :: "uuid option"

type_synonym chat = "uuid \<Rightarrow> entry list"

text \<open>
  An entry with a new id may go anywhere in its conversation: a sequence number is reserved in one
  statement and used in a later one, so a message can arrive behind a later one.
\<close>

inductive chat_step :: "chat \<Rightarrow> chat \<Rightarrow> bool" where
  post: "\<forall>cid'. \<forall>e' \<in> set (c cid'). en_id e' \<noteq> en_id e \<Longrightarrow>
           c cid = before @ after \<Longrightarrow>
           chat_step c (c(cid := before @ e # after))"
| amend: "e \<in> set (c cid) \<Longrightarrow> chat_step c
            (\<lambda>cid. map (\<lambda>e'. if en_id e' = en_id e then e'\<lparr>en_content := content\<rparr> else e') (c cid))"
| retract: "e \<in> set (c cid) \<Longrightarrow> chat_step c (\<lambda>cid. filter (\<lambda>e'. en_id e' \<noteq> en_id e) (c cid))"

definition entry_of :: "message \<Rightarrow> entry" where
  "entry_of m = \<lparr>en_id = msg_id m, en_sender = msg_sender_account_id m, en_content = msg_ciphertext m,
     en_reply_to = msg_reply_to m\<rparr>"

text \<open>The chat a database represents: the messages not deleted, by conversation and number.\<close>

definition live_in :: "uuid \<Rightarrow> message \<Rightarrow> bool" where
  "live_in cid m \<longleftrightarrow> msg_conversation_id m = cid \<and> msg_deleted_at m = None"

definition chat_of :: "database \<Rightarrow> chat" where
  "chat_of d cid = map entry_of (sort_key msg_seq (filter (live_in cid) (messages d)))"

definition refines :: "database \<Rightarrow> database \<Rightarrow> bool" where
  "refines d e \<longleftrightarrow> chat_of e = chat_of d \<or> chat_step (chat_of d) (chat_of e)"

section \<open>The statements that change messages\<close>

lemma chat_of_frame: "messages e = messages d \<Longrightarrow> chat_of e = chat_of d"
  by (simp add: chat_of_def fun_eq_iff)

lemma in_chat_of: "e \<in> set (chat_of d cid) \<longleftrightarrow> (\<exists>m \<in> set (messages d). live_in cid m \<and> e = entry_of m)"
  by (auto simp: chat_of_def)

lemma insert_message_cases:
  obtains "snd (insert_message m d) = d"
  | "snd (insert_message m d) = d\<lparr>messages := messages d @ [m]\<rparr>" "msg_id m \<notin> msg_id ` set (messages d)"
proof (cases "msg_id m \<in> msg_id ` set (messages d)")
  case True
  then show ?thesis using that(1) by (simp add: insert_message_def has_key_iff)
next
  case False
  have "snd (insert_message m d) = d \<or> snd (insert_message m d) = d\<lparr>messages := messages d @ [m]\<rparr>"
    by (simp add: insert_message_def)
  with False that show ?thesis by blast
qed

lemma chat_of_snoc:
  assumes m: "msg_deleted_at m = None"
  obtains before after where "chat_of d (msg_conversation_id m) = before @ after"
    "chat_of (d\<lparr>messages := messages d @ [m]\<rparr>) = (chat_of d)(msg_conversation_id m := before @ entry_of m # after)"
proof -
  let ?cid = "msg_conversation_id m"
  obtain xs ys where s: "sort_key msg_seq (filter (live_in ?cid) (messages d)) = xs @ ys"
    "sort_key msg_seq (filter (live_in ?cid) (messages d) @ [m]) = xs @ m # ys"
    by (rule sort_key_snoc [of msg_seq "filter (live_in ?cid) (messages d)" m])
  have l: "live_in cid m \<longleftrightarrow> cid = ?cid" for cid using m by (auto simp: live_in_def)
  have "chat_of (d\<lparr>messages := messages d @ [m]\<rparr>) cid
      = ((chat_of d)(?cid := map entry_of xs @ entry_of m # map entry_of ys)) cid" for cid
    using s(2) by (cases "cid = ?cid") (simp_all add: chat_of_def l)
  then have "chat_of (d\<lparr>messages := messages d @ [m]\<rparr>)
      = (chat_of d)(?cid := map entry_of xs @ entry_of m # map entry_of ys)" by (rule ext)
  moreover have "chat_of d ?cid = map entry_of xs @ map entry_of ys" by (simp add: chat_of_def s(1))
  ultimately show ?thesis using that by blast
qed

lemma refines_insert:
  assumes m: "msg_deleted_at m = None"
  shows "refines d (snd (insert_message m d))"
proof (cases rule: insert_message_cases [of m d])
  case 1
  then show ?thesis by (simp add: refines_def)
next
  case 2
  obtain before after where c: "chat_of d (msg_conversation_id m) = before @ after"
    "chat_of (d\<lparr>messages := messages d @ [m]\<rparr>) = (chat_of d)(msg_conversation_id m := before @ entry_of m # after)"
    by (rule chat_of_snoc [OF m, of d])
  have "\<forall>cid. \<forall>e \<in> set (chat_of d cid). en_id e \<noteq> en_id (entry_of m)"
    using 2(2) by (intro allI ballI) (simp add: image_iff in_chat_of entry_of_def, elim bexE, simp, metis)
  from chat_step.post [OF this c(1)] show ?thesis unfolding 2(1) refines_def c(2) ..
qed

lemma only_id:
  assumes "msg_inv d" "m \<in> set (messages d)" "x \<in> set (messages d)" "msg_id x = msg_id m"
  shows "x = m"
  using assms distinct_key_eq [of msg_id "messages d" x m] by (simp add: msg_inv_def)

lemma refines_edit:
  assumes inv: "msg_inv d"
  shows "refines d (snd (edit_message now mid me content d))"
proof (cases "\<exists>m \<in> set (messages d). editable me mid m")
  case False
  then show ?thesis by (simp add: refines_def chat_of_def edit_message_def Let_def editable_def update_where_no)
next
  case True
  then obtain m where m: "m \<in> set (messages d)" "msg_id m = mid" "msg_sender_account_id m = me" "msg_deleted_at m = None"
    by (auto simp: editable_def)
  define g :: "message \<Rightarrow> message" where "g = (\<lambda>x. if msg_id x = mid then x\<lparr>msg_ciphertext := content, msg_edited_at := Some now\<rparr> else x)"
  have "msg_id x = mid \<and> msg_sender_account_id x = me \<and> msg_deleted_at x = None \<longleftrightarrow> msg_id x = mid"
    if "x \<in> set (messages d)" for x
    using only_id [OF inv m(1) that] m by auto
  then have e: "messages (snd (edit_message now mid me content d)) = map g (messages d)"
    by (simp add: edit_message_def Let_def update_where_def g_def)
  have l: "live_in cid (g x) = live_in cid x" for cid x by (simp add: live_in_def g_def)
  have g: "sort_key msg_seq (map g xs) = map g (sort_key msg_seq xs)" for xs
    by (rule sort_key_map_same) (simp add: g_def)
  have "entry_of (g x) = (if en_id (entry_of x) = en_id (entry_of m) then (entry_of x)\<lparr>en_content := content\<rparr> else entry_of x)" for x
    using m(2) by (simp add: g_def entry_of_def)
  then have "chat_of (snd (edit_message now mid me content d))
      = (\<lambda>cid. map (\<lambda>e. if en_id e = en_id (entry_of m) then e\<lparr>en_content := content\<rparr> else e) (chat_of d cid))"
    by (simp add: chat_of_def fun_eq_iff filter_map e l g comp_def)
  moreover have "entry_of m \<in> set (chat_of d (msg_conversation_id m))"
    using m by (auto simp: in_chat_of live_in_def)
  ultimately show ?thesis using chat_step.amend [of "entry_of m" "chat_of d"] by (simp add: refines_def)
qed

lemma refines_delete:
  assumes inv: "msg_inv d"
  shows "refines d (snd (soft_delete now mid actor d))"
proof (cases "\<exists>m \<in> set (messages d). deletable d actor mid m")
  case False
  then show ?thesis by (simp add: refines_def chat_of_def soft_delete_def Let_def soft_delete_hit update_where_no)
next
  case True
  then obtain m where m: "m \<in> set (messages d)" "deletable d actor mid m" by blast
  then have i: "msg_id m = mid" "msg_deleted_at m = None" by (simp_all add: deletable_def)
  have only: "deletable d actor mid x \<longleftrightarrow> msg_id x = mid" if "x \<in> set (messages d)" for x
    using only_id [OF inv m(1) that] m i by (auto simp: deletable_def)
  have "messages (snd (soft_delete now mid actor d)) =
      map (\<lambda>x. if msg_id x = mid then x\<lparr>msg_deleted_at := Some now, msg_ciphertext := []\<rparr> else x) (messages d)"
    using only by (simp add: soft_delete_def Let_def soft_delete_hit update_where_def)
  moreover have "filter (live_in cid)
      (map (\<lambda>x. if msg_id x = mid then x\<lparr>msg_deleted_at := Some now, msg_ciphertext := []\<rparr> else x) ms)
    = filter (\<lambda>x. msg_id x \<noteq> mid) (filter (live_in cid) ms)" for cid ms
    by (induction ms) (auto simp: live_in_def)
  ultimately have "chat_of (snd (soft_delete now mid actor d))
      = (\<lambda>cid. filter (\<lambda>e. en_id e \<noteq> en_id (entry_of m)) (chat_of d cid))"
    by (simp add: chat_of_def fun_eq_iff filter_sort [symmetric] filter_map comp_def entry_of_def i)
  moreover have "entry_of m \<in> set (chat_of d (msg_conversation_id m))"
    using m i by (auto simp: in_chat_of live_in_def)
  ultimately show ?thesis using chat_step.retract [of "entry_of m" "chat_of d"] by (simp add: refines_def)
qed

lemma history_chat:
  "map entry_of (sort_key msg_seq (filter (\<lambda>m. msg_conversation_id m = cid \<and> msg_deleted_at m = None
       \<and> \<not> list_ex (\<lambda>h. hid_message_id h = msg_id m \<and> hid_account_id h = me) (hidden_messages d)) (messages d)))
   = filter (\<lambda>e. \<not> list_ex (\<lambda>h. hid_message_id h = en_id e \<and> hid_account_id h = me) (hidden_messages d)) (chat_of d cid)"
proof -
  have "filter (\<lambda>m. msg_conversation_id m = cid \<and> msg_deleted_at m = None \<and> P m) ms
      = filter P (filter (live_in cid) ms)" for P ms
    by (simp add: live_in_def conj_ac)
  then show ?thesis by (simp add: chat_of_def filter_map filter_sort [symmetric] comp_def entry_of_def)
qed

section \<open>Every step of every request\<close>

definition chat_sim :: "sys \<Rightarrow> sys \<Rightarrow> bool" where
  "chat_sim s t \<longleftrightarrow> (msg_inv (db s) \<longrightarrow> refines (db s) (db t))"

lemma chat_sim_refl [simp]: "chat_sim s s"
  by (simp add: chat_sim_def refines_def)

lemma sim_frame: "guar (same_table messages) p \<Longrightarrow> guar chat_sim p"
proof (erule guar_mono)
  show "chat_sim s t" if "same_table messages s t" for s t
    using chat_of_frame [of "db t" "db s"] that by (simp add: chat_sim_def same_table_def refines_def)
qed

lemma sim_same_db: "guar same_db p \<Longrightarrow> guar chat_sim p"
  by (rule sim_frame) (rule guar_frame_same_db)

lemma sim_pg:
  assumes "\<And>n d. msg_inv d \<Longrightarrow> refines d (snd (q n d))"
  shows "guar chat_sim (pg w q)"
proof -
  have "chat_sim s (snd (run (pg w q) s))" for s
  proof (rule run_pg_cases [of w q s])
    assume "db (snd (run (pg w q) s)) = db s"
    then show ?thesis by (simp add: chat_sim_def refines_def)
  next
    assume "db (snd (run (pg w q) s)) = snd (q (tick s) (db s))"
    then show ?thesis using assms by (simp add: chat_sim_def)
  qed
  then have "guar chat_sim (atomic (run (pg w q)))" by (rule guar_atomic)
  then show ?thesis unfolding pg_atomic [symmetric] .
qed

lemma sim_pg_frame: "(\<And>n d. messages (snd (q n d)) = messages d) \<Longrightarrow> guar chat_sim (pg w q)"
  by (rule sim_frame) (rule guar_frame_pg)

lemma sim_reads: "(\<And>n. reads (q n)) \<Longrightarrow> guar chat_sim (pg w q)"
  by (rule sim_same_db) (rule guar_pg_reads)

lemma sim_auth: "guar chat_sim (pg w q) \<Longrightarrow> guar chat_sim (auth w q)"
  unfolding auth_def by (intro guar_intros)

lemma sim_quiet [guar_intros]:
  "guar chat_sim (new_uuid w)" "guar chat_sim (now_utc w)" "guar chat_sim (fill_bytes w)" "guar chat_sim (look f)"
  "guar chat_sim (authed w hs)" "guar chat_sim (authed_from_token w token)"
  "guar chat_sim (envelope_of w ty p)" "guar chat_sim (deliver_to_account w a env ex)"
  "guar chat_sim (broadcast_presence w a b ls)" "guar chat_sim (account_online a)"
  "guar chat_sim (deliver_message w me dv target env)" "guar chat_sim (deliver_to_conversation w cid env actor dv)"
  "guar chat_sim (list_users_handler w hs)" "guar chat_sim (lookup_user w hs u)"
  "guar chat_sim (list_conversations w hs)" "guar chat_sim (get_my_profile w hs)" "guar chat_sim (get_profile_handler w hs u)"
  "guar chat_sim (list_media_handler w hs cid mq)" "guar chat_sim (get_blob_handler w i)"
  by (rule sim_same_db, intro guar_intros)+

lemma sim_dm [guar_intros]: "guar chat_sim (dm_conversation w a b)"
  by (rule sim_frame, rule guar_frame_dm_conversation) simp_all

lemma sim_index [guar_intros]: "guar chat_sim (index_attachments w cid me m atts)"
  by (rule sim_frame, rule guar_frame_index) simp

lemma sim_store [guar_intros]: "guar chat_sim (store_message w cid me dv content rt)"
proof -
  have "guar chat_sim (pg w (\<lambda>_. bump_last_seq cid))"
    by (rule sim_pg_frame) (simp add: bump_last_seq_def split: option.splits)
  moreover have "guar chat_sim (pg w (\<lambda>n. insert_message (new_message mid cid sq me dv content rt (pg_now w n))))" for mid sq
    by (rule sim_pg, rule refines_insert) (simp add: new_message_def)
  ultimately show ?thesis unfolding store_message_def by (intro guar_intros)
qed

lemma sim_delete [guar_intros]: "guar chat_sim (delete_message w mid actor)"
proof -
  have "guar chat_sim (pg w (\<lambda>n. soft_delete (pg_now w n) mid actor))" by (rule sim_pg) (rule refines_delete)
  moreover have "guar chat_sim (pg w (\<lambda>_. delete_media_of mid))" by (rule sim_pg_frame) (simp add: delete_media_of_def)
  ultimately show ?thesis unfolding delete_message_def by (auto intro!: guar_intros split: option.splits)
qed

lemma sim_writes [guar_intros]:
  "guar chat_sim (pg w (\<lambda>n. create_account (now n) a u v))"
  "guar chat_sim (pg w (\<lambda>n. create_device (now n) dv a dn pid))"
  "guar chat_sim (pg w (\<lambda>n. create_session (now n) sid dv ah rh ex))"
  "guar chat_sim (pg w (\<lambda>_. rotate_session sid ah rh ex))"
  "guar chat_sim (pg w (\<lambda>n. revoke_session (now n) sid))"
  "guar chat_sim (pg w (\<lambda>_. hide_message_for mid a))"
  "guar chat_sim (pg w (\<lambda>_. upsert_profile a dn' bio av))"
  "guar chat_sim (pg w (\<lambda>_. set_last_seen a ts))"
  "guar chat_sim (pg w (\<lambda>n. insert_blob (now n) i ct bs))"
  "guar chat_sim (pg w (\<lambda>_. mark_read cid a))" "guar chat_sim (pg w (\<lambda>_. mark_delivered cid a))"
  by (rule sim_pg_frame; simp add: table_defs hide_message_for_def upsert_profile_def set_last_seen_def
     upsert_profile_row_def insert_blob_def mark_read_def mark_delivered_def mark_def set_marker_rows_def Let_def
     split: option.splits)+

lemma sim_edit [guar_intros]: "guar chat_sim (pg w (\<lambda>n. edit_message (now n) mid me content))"
  by (rule sim_pg) (rule refines_edit)

lemma sim_atomic [guar_intros]: "(\<And>s. db (snd (f s)) = db s) \<Longrightarrow> guar chat_sim (atomic f)"
  by (rule guar_atomic) (simp add: chat_sim_def refines_def)

lemma sim_auth_handlers [guar_intros]:
  "guar chat_sim (register w req)" "guar chat_sim (login w lreq)" "guar chat_sim (refresh w rreq)" "guar chat_sim (logout w hs)"
  unfolding register_def login_def refresh_def logout_def new_token_def decode_identity_def hash_password_def
    issue_session_def
  by (auto intro!: guar_intros sim_auth sim_reads reads_auth split: option.splits)

lemma sim_message_handlers [guar_intros]:
  "guar chat_sim (send_message w hs req)" "guar chat_sim (history_handler w hs u)"
  "guar chat_sim (edit_message_handler w hs i ct)" "guar chat_sim (delete_message_handler w hs i sc)"
  "guar chat_sim (upload_blob w hs content)" "guar chat_sim (update_profile w hs preq)"
  unfolding send_message_def history_handler_def edit_message_handler_def delete_message_handler_def
    upload_blob_def put_blob_def update_profile_def profile_json_def Let_def
  by (auto intro!: guar_intros sim_auth sim_reads reads_auth reads_db split: option.splits prod.splits sum.splits)

lemma sim_inbound [guar_intros]: "guar chat_sim (handle_inbound w parse account t)"
  unfolding handle_inbound_def receipt_marks_def
  by (auto intro!: guar_intros sim_reads reads_auth split: option.splits sum.splits)

lemma sim_socket_loop [guar_intros]: "guar chat_sim (socket_loop w parse account device rx pos es)"
  by (induction w parse account device rx pos es rule: socket_loop.induct)
    (auto simp: bus_recv_def intro!: guar_intros split: prod.splits option.splits recv_outcome.splits)

lemma sim_ws [guar_intros]: "guar chat_sim (ws_handler w parse token es)"
  unfolding ws_handler_def handle_socket_def socket_opened_def socket_closed_def presence_connect_def
    presence_disconnect_def bus_subscribe_def
  by (auto intro!: guar_intros split: prod.splits option.splits sum.splits)

lemma sim_respond [guar_intros]: "guar chat_sim p \<Longrightarrow> guar chat_sim (respond f p)"
  unfolding respond_def by (intro guar_intros)

lemma sim_dispatch [guar_intros]: "guar chat_sim (dispatch w hs c)"
  by (cases c) (auto intro!: guar_intros)

lemma sim_router: "guar chat_sim (router w parse req)"
  by (cases req) (auto intro!: guar_intros sim_reads reads_ping simp: health_def require_protocol_version_def)

end
