(* ===== verification/Delivery_Properties.thy ===== *)
theory Delivery_Properties
  imports Socket_Properties App_Properties
begin

text \<open>
  How events travel from the requests that publish them to the connections that send them on. The
  calls on a channel only grow (a second interpretation of \<open>rely_guarantee\<close>), so what a connection
  has received stays true whatever the other tasks do.
\<close>

section \<open>Events on the bus\<close>

text \<open>No task takes back what was published: the calls on a channel only grow.\<close>

definition bus_grows :: "sys \<Rightarrow> sys \<Rightarrow> bool" where
  "bus_grows s t \<longleftrightarrow> capacity (bus t) = capacity (bus s)
     \<and> (\<forall>d. \<exists>ops. calls (bus t) d = calls (bus s) d @ ops)"

lemma bus_grows_same: "bus t = bus s \<Longrightarrow> bus_grows s t"
  by (simp add: bus_grows_def)

interpretation chan: rely_guarantee bus_grows "\<lambda>_. True"
proof
  show "bus_grows s s" for s by (simp add: bus_grows_same)
  show "bus_grows s u" if "bus_grows s t" "bus_grows t u" for s t u
    using that unfolding bus_grows_def by (metis append_assoc)
qed

lemma capacity_bus [simp]:
  "capacity (publish d e b) = capacity b" "capacity (snd (subscribe d b)) = capacity b"
  by (simp_all add: publish_def subscribe_def sender_def split: option.splits)

lemma guar_bus_primitives [guar_intros]:
  "guar bus_grows (pg w q)" "guar bus_grows (new_uuid w)" "guar bus_grows (now_utc w)" "guar bus_grows (fill_bytes w)"
  "guar bus_grows (look f)" "guar bus_grows (hash_password w pw)" "guar bus_grows (bus_recv w d rx pos)"
  unfolding pg_def new_uuid_def now_utc_def fill_bytes_def bus_recv_def look_def hash_password_def
  by (auto intro!: guar_atomic bus_grows_same split: fault.splits prod.splits)

lemma guar_bus_calls [guar_intros]:
  "guar bus_grows (bus_publish d env)" "guar bus_grows (bus_subscribe d)"
proof -
  show "guar bus_grows (bus_publish d env)"
    unfolding bus_publish_def by (rule guar_atomic) (simp add: bus_grows_def ipb.log_pub)
  have "bus_grows s (s\<lparr>bus := snd (subscribe d (bus s))\<rparr>)" for s by (simp add: bus_grows_def ipb.log_sub)
  then show "guar bus_grows (bus_subscribe d)"
    unfolding bus_subscribe_def by (intro guar_atomic) (simp add: split_beta)
qed

lemma bus_pg: "bus (snd (run (pg w q) s)) = bus s"
  by (simp add: run_pg split: fault.splits prod.splits)

lemma guar_bus_create [guar_intros]: "guar bus_grows (create_conversation w cid lo hi)"
  unfolding create_conversation_def by (intro guar_atomic bus_grows_same) (simp add: claim_on_def bus_pg)

lemma guar_bus_auth [guar_intros]:
  "guar bus_grows (auth w q)" "guar bus_grows (authed_device w hs)" "guar bus_grows (authed w hs)"
  "guar bus_grows (authed_from_token w token)" "guar bus_grows (issue_session w dv)"
  unfolding auth_def authed_device_def authed_def authed_from_token_def issue_session_def new_token_def
  by (intro guar_intros)+

lemma guar_bus_events [guar_intros]:
  "guar bus_grows (envelope_of w ty p)" "guar bus_grows (deliver_to_account w a env ex)"
  "guar bus_grows (broadcast_presence w a b ls)" "guar bus_grows (dm_conversation w x y)"
  "guar bus_grows (deliver_message w me dv target env)" "guar bus_grows (deliver_to_conversation w cid env actor dv)"
  "guar bus_grows (account_online a)" "guar bus_grows (profile_json w a u)"
  unfolding envelope_of_def deliver_to_account_def broadcast_presence_def dm_conversation_def deliver_message_def
    deliver_to_conversation_def account_online_def profile_json_def
  by (auto intro!: guar_intros guar_atomic bus_grows_same split: sum.splits prod.splits option.splits)

lemma guar_bus_handlers [guar_intros]:
  "guar bus_grows (register w req)" "guar bus_grows (login w lreq)" "guar bus_grows (refresh w rreq)"
  "guar bus_grows (logout w hs)" "guar bus_grows (list_users_handler w hs)" "guar bus_grows (lookup_user w hs u)"
  "guar bus_grows (list_conversations w hs)" "guar bus_grows (send_message w hs sreq)"
  "guar bus_grows (history_handler w hs u)" "guar bus_grows (edit_message_handler w hs i ct)"
  "guar bus_grows (delete_message_handler w hs i sc)" "guar bus_grows (upload_blob w hs content)"
  "guar bus_grows (list_media_handler w hs cid mq)" "guar bus_grows (get_my_profile w hs)"
  "guar bus_grows (get_profile_handler w hs u)" "guar bus_grows (update_profile w hs preq)"
  "guar bus_grows (get_blob_handler w bi)"
  unfolding register_def login_def refresh_def logout_def new_token_def decode_identity_def list_users_handler_def
    lookup_user_def list_conversations_def send_message_def index_attachments_def record_media_def store_message_def
    history_handler_def edit_message_handler_def delete_message_handler_def delete_message_def upload_blob_def
    put_blob_def list_media_handler_def get_my_profile_def get_profile_handler_def update_profile_def
    get_blob_handler_def Let_def
  by (auto intro!: guar_intros split: option.splits prod.splits sum.splits)

lemma guar_bus_inbound [guar_intros]: "guar bus_grows (handle_inbound w parse account t)"
  unfolding handle_inbound_def receipt_marks_def by (auto intro!: guar_intros split: option.splits sum.splits)

lemma guar_bus_loop [guar_intros]: "guar bus_grows (socket_loop w parse account device rx pos es)"
  by (induction w parse account device rx pos es rule: socket_loop.induct)
    (auto intro!: guar_intros split: prod.splits option.splits recv_outcome.splits)

lemma guar_bus_presence [guar_intros]:
  "guar bus_grows (presence_connect dv a)" "guar bus_grows (presence_disconnect dv)" "guar bus_grows (socket_closed w dv)"
  unfolding presence_connect_def presence_disconnect_def socket_closed_def
  by (auto intro!: guar_intros guar_atomic bus_grows_same split: prod.splits option.splits)

lemma guar_bus_ws [guar_intros]: "guar bus_grows (ws_handler w parse token es)"
  unfolding ws_handler_def handle_socket_def socket_opened_def
  by (auto intro!: guar_intros split: prod.splits option.splits sum.splits)

lemma guar_bus_router: "guar bus_grows (router w parse req)"
proof -
  have "guar bus_grows (dispatch w hs c)" for hs c
    by (cases c) (auto simp: respond_def intro!: guar_intros)
  then show ?thesis
    by (cases req) (auto simp: health_def require_protocol_version_def intro!: guar_intros)
qed

section \<open>What a connection sends on\<close>

text \<open>
  What \<open>tokio\<close> documents of \<open>recv\<close>: the receiver moves forward over the values sent after its
  subscription, and what it receives is the value it moves past last.
\<close>

definition broadcast_law :: "world \<Rightarrow> bool" where
  "broadcast_law w \<longleftrightarrow> (\<forall>cap ops k i. case chan_recv w cap ops k i of
       None \<Rightarrow> True
     | Some (Lagged, j) \<Rightarrow> i \<le> j
     | Some (Received e, j) \<Rightarrow> i < j \<and> j \<le> length (heard k ops) \<and> e = heard k ops ! (j - 1))"

definition subscriptions :: "chan_op list \<Rightarrow> nat" where
  "subscriptions ops = length (filter (\<lambda>c. c = Subscribe) ops)"

lemma heard_from: "heard (subscriptions xs) (xs @ Subscribe # ys) = sends ys"
proof -
  have "heard (subscriptions xs) ((xs @ [Subscribe]) @ ys) = heard (subscriptions xs) (xs @ [Subscribe]) @ sends ys"
    by (rule heard_append) (simp add: subscriptions_def)
  then show ?thesis by (simp add: subscriptions_def heard_fresh)
qed

text \<open>The frames made of the values a receiver hears from a position on.\<close>

definition frames :: "world \<Rightarrow> envelope list \<Rightarrow> json list" where
  "frames w es = List.map_filter (envelope_json w) es"

lemma frames_append: "frames w (xs @ ys) = frames w xs @ frames w ys"
  by (simp add: frames_def map_filter_def)

lemma frames_one [simp]: "frames w [e] = (case envelope_json w e of None \<Rightarrow> [] | Some j \<Rightarrow> [j])"
  by (simp add: frames_def map_filter_def split: option.splits)

lemma subseq_frames_drop:
  assumes "i \<le> j" shows "subseq (frames w (drop j xs)) (frames w (drop i xs))"
proof -
  have "drop i xs = take (j - i) (drop i xs) @ drop j xs"
    using assms by (metis append_take_drop_id drop_drop le_add_diff_inverse2)
  then show ?thesis by (metis frames_append subseq_drop_many subseq_order.refl)
qed

definition hears :: "world \<Rightarrow> uuid \<Rightarrow> nat \<Rightarrow> nat \<Rightarrow> json list \<times> bool \<Rightarrow> sys \<Rightarrow> bool" where
  "hears w device rx pos r t \<longleftrightarrow> subseq (fst r) (frames w (drop pos (heard rx (calls (bus t) device))))"

definition listening :: "uuid \<Rightarrow> nat \<Rightarrow> sys \<Rightarrow> bool" where
  "listening device rx s \<longleftrightarrow> rx < subscriptions (calls (bus s) device)"

lemma listening_grows:
  assumes "bus_grows s t" and "listening device rx s"
  obtains more where "heard rx (calls (bus t) device) = heard rx (calls (bus s) device) @ more" "listening device rx t"
proof -
  obtain ops where "calls (bus t) device = calls (bus s) device @ ops" using assms(1) unfolding bus_grows_def by blast
  then show ?thesis using that assms(2) heard_append by (auto simp: listening_def subscriptions_def)
qed

lemma hears_mono: "pos \<le> pos' \<Longrightarrow> hears w device rx pos' r t \<Longrightarrow> hears w device rx pos r t"
  unfolding hears_def using subseq_frames_drop subseq_order.order_trans by blast

lemma hears_grows:
  assumes "bus_grows s t" and "listening device rx s" and "hears w device rx pos r s"
  shows "hears w device rx pos r t"
proof -
  obtain more where m: "heard rx (calls (bus t) device) = heard rx (calls (bus s) device) @ more"
    by (rule listening_grows [OF assms(1,2)])
  have "subseq (fst r) (frames w (drop pos (heard rx (calls (bus s) device))) @ frames w more')" for more'
    using assms(3) unfolding hears_def by (rule list_emb_prefix)
  then show ?thesis unfolding hears_def m drop_append frames_append .
qed

text \<open>What a receiver knows about a value it was given.\<close>

definition received :: "uuid \<Rightarrow> nat \<Rightarrow> nat \<Rightarrow> (recv_outcome \<times> nat) option \<Rightarrow> sys \<Rightarrow> bool" where
  "received device rx pos r s \<longleftrightarrow> (case r of
       None \<Rightarrow> True
     | Some (Lagged, j) \<Rightarrow> pos \<le> j
     | Some (Received e, j) \<Rightarrow> pos < j \<and> j \<le> length (heard rx (calls (bus s) device))
         \<and> e = heard rx (calls (bus s) device) ! (j - 1))"

lemma received_grows:
  assumes "bus_grows s t" and "listening device rx s" and "received device rx pos r s"
  shows "received device rx pos r t"
proof -
  obtain more where "heard rx (calls (bus t) device) = heard rx (calls (bus s) device) @ more"
    by (rule listening_grows [OF assms(1,2)])
  with assms(3) show ?thesis
    by (auto simp: received_def nth_append split: option.splits prod.splits recv_outcome.splits)
qed

lemma listening_later: "bus_grows s t \<Longrightarrow> listening device rx s \<Longrightarrow> listening device rx t"
  by (erule (1) listening_grows)

lemma ok_bus_recv:
  assumes "broadcast_law w" and "listening device rx s"
  shows "ok bus_grows (\<lambda>_. True) (received device rx pos) (bus_recv w device rx pos) s"
  unfolding bus_recv_def look_def
proof (rule chan.ok_atomic)
  fix t assume t: "bus_grows s t"
  let ?r = "chan_recv w (capacity (bus t)) (calls (bus t) device) rx pos"
  have "received device rx pos ?r t" using assms(1) by (simp add: received_def broadcast_law_def)
  then show "True \<and> bus_grows t (snd (?r, t))
      \<and> (\<forall>u. bus_grows (snd (?r, t)) u \<longrightarrow> True \<longrightarrow> received device rx pos (fst (?r, t)) u)"
    using received_grows listening_later [OF t assms(2)] by (auto intro: chan.refl)
qed

lemma hears_next:
  assumes "received device rx pos (Some (Received e, j)) s" and "envelope_json w e = Some text"
    and "hears w device rx j (out, b) s"
  shows "hears w device rx pos (text # out, b') s"
proof -
  let ?h = "heard rx (calls (bus s) device)"
  have j: "pos < j" "j \<le> length ?h" "e = ?h ! (j - 1)" using assms(1) by (simp_all add: received_def)
  then have "drop (j - 1) ?h = e # drop j ?h"
    by (metis Cons_nth_drop_Suc One_nat_def Suc_pred less_le_trans not_less_zero linorder_neqE_nat diff_less zero_less_one)
  then have "frames w (drop (j - 1) ?h) = text # frames w (drop j ?h)"
    using frames_append [of w "[e]" "drop j ?h"] assms(2) by simp
  then have "hears w device rx (j - 1) (text # out, b') s" using assms(3) by (simp add: hears_def)
  then show ?thesis using j(1) by (intro hears_mono [of pos "j - 1"]) simp_all
qed

lemma ok_ret_hears:
  assumes "listening device rx s" and "hears w device rx pos r s"
  shows "ok bus_grows (\<lambda>_. True) (hears w device rx pos) (Ret r) s"
  using hears_grows assms by (auto simp: ok_Ret)

lemma ok_guar_bus: "guar bus_grows p \<Longrightarrow> ok bus_grows (\<lambda>_. True) (\<lambda>_ _. True) p s"
  by (rule chan.ok_guar)

lemma ok_loop_bus_event:
  assumes law: "broadcast_law w" and l: "listening device rx s"
    and IH: "\<And>pos t. listening device rx t \<Longrightarrow>
      ok bus_grows (\<lambda>_. True) (hears w device rx pos) (socket_loop w parse account device rx pos es) t"
  shows "ok bus_grows (\<lambda>_. True) (hears w device rx pos)
    (socket_loop w parse account device rx pos (BusEvent sent # es)) s"
  unfolding socket_loop.simps
proof (rule chan.ok_bind [OF ok_bus_recv [OF law l]])
  fix r t assume t: "bus_grows s t" and r: "received device rx pos r t"
  note l' = listening_later [OF t l]
  have skip: "ok bus_grows (\<lambda>_. True) (hears w device rx pos) (socket_loop w parse account device rx j es) t"
    if "pos \<le> j" for j
    by (rule chan.ok_weaken [OF IH [OF l', of j]]) (rule hears_mono [OF that])
  have send: "ok bus_grows (\<lambda>_. True) (hears w device rx pos)
      (bind (socket_loop w parse account device rx j es) (\<lambda>(out, left). Ret (frame # out, left))) t"
    if "r = Some (Received e, j)" "envelope_json w e = Some frame" for e j frame
  proof (rule chan.ok_bind [OF IH [OF l', of j]])
    fix x u assume u: "bus_grows t u" "hears w device rx j x u"
    then have "hears w device rx pos (frame # fst x, snd x) u"
      using hears_next [of device rx pos e j u w frame "fst x" "snd x"] received_grows [OF u(1) l' r] that by simp
    then show "ok bus_grows (\<lambda>_. True) (hears w device rx pos) (case x of (out, left) \<Rightarrow> Ret (frame # out, left)) u"
      using ok_ret_hears listening_later [OF u(1) l'] by (simp add: split_beta)
  qed
  have stop: "ok bus_grows (\<lambda>_. True) (hears w device rx pos) (Ret ([], True)) t"
    by (rule ok_ret_hears [OF l']) (simp add: hears_def)
  show "ok bus_grows (\<lambda>_. True) (hears w device rx pos) (case r of
       None \<Rightarrow> socket_loop w parse account device rx pos es
     | Some (Lagged, pos') \<Rightarrow> socket_loop w parse account device rx pos' es
     | Some (Received env, pos') \<Rightarrow>
         (case envelope_json w env of
            None \<Rightarrow> socket_loop w parse account device rx pos' es
          | Some text \<Rightarrow>
              if \<not> sent then Ret ([], True)
              else bind (socket_loop w parse account device rx pos' es) (\<lambda>(out, left). Ret (text # out, left)))) t"
    using r skip send stop
    by (auto simp: received_def split: option.splits prod.splits recv_outcome.splits)
qed

lemma ok_socket_loop:
  assumes law: "broadcast_law w"
  shows "listening device rx s \<Longrightarrow> ok bus_grows (\<lambda>_. True) (hears w device rx pos)
    (socket_loop w parse account device rx pos es) s"
proof (induction es arbitrary: pos s)
  case Nil
  have "hears w device rx pos ([], False) s" by (simp add: hears_def)
  with Nil show ?case by (simp add: ok_ret_hears)
next
  case (Cons e es)
  have stop: "ok bus_grows (\<lambda>_. True) (hears w device rx pos) (Ret ([], True)) s"
    by (rule ok_ret_hears [OF Cons.prems]) (simp add: hears_def)
  have relay: "ok bus_grows (\<lambda>_. True) (hears w device rx pos)
      (bind (handle_inbound w parse account t) (\<lambda>_. socket_loop w parse account device rx pos es)) s" for t
    by (rule chan.ok_bind [OF ok_guar_bus [OF guar_bus_inbound]])
      (use Cons.IH Cons.prems listening_later in blast)
  show ?case
  proof (cases e)
    case (BusEvent sent)
    then show ?thesis using ok_loop_bus_event [OF law Cons.prems Cons.IH] by simp
  next
    case (Incoming fr)
    then consider "fr = None \<or> fr = Some None \<or> fr = Some (Some CloseFrame)" | "fr = Some (Some OtherFrame)"
      | t where "fr = Some (Some (TextFrame t))" by (metis frame.exhaust option.exhaust)
    then show ?thesis using Incoming stop relay Cons by cases auto
  qed
qed

section \<open>A connection among other tasks\<close>

text \<open>What remains of a request to \<open>/v0/ws\<close> once its token was found valid.\<close>

definition socket_task ::
    "world \<Rightarrow> (string \<Rightarrow> inbound option) \<Rightarrow> uuid \<Rightarrow> uuid \<Rightarrow> sock_event list \<Rightarrow> (sys, reply) prog" where
  "socket_task w parse account device es =
     bind (handle_socket w parse account device es) (\<lambda>r. Ret (WsReply (Upgraded (fst r) (snd r))))"

lemma router_socket:
  "router w parse (WebSocket token es) = bind (authed_from_token w token) (\<lambda>r. case r of
     Inl _ \<Rightarrow> Ret (WsReply WsUnauthorized) | Inr (account, device) \<Rightarrow> socket_task w parse account device es)"
  unfolding router.simps ws_handler_def bind_assoc socket_task_def
  by (rule arg_cong [where f = "bind (authed_from_token w token)"])
    (auto simp: fun_eq_iff bind_assoc split_beta split: sum.splits prod.splits)

definition sent_since :: "world \<Rightarrow> uuid \<Rightarrow> sys \<Rightarrow> json list \<Rightarrow> sys \<Rightarrow> bool" where
  "sent_since w device s out t \<longleftrightarrow>
     (\<exists>ops. calls (bus t) device = calls (bus s) device @ ops \<and> subseq out (frames w (sends ops)))"

lemma sent_since_grows: "sent_since w device s out t \<Longrightarrow> bus_grows t u \<Longrightarrow> sent_since w device s out u"
  unfolding sent_since_def bus_grows_def by (metis append_assoc frames_append list_emb_prefix sends_append)

text \<open>The receiver \<open>rx\<close> was created after the state \<open>s\<close>.\<close>

definition subscribed :: "uuid \<Rightarrow> sys \<Rightarrow> nat \<Rightarrow> sys \<Rightarrow> bool" where
  "subscribed device s rx t \<longleftrightarrow>
     (\<exists>before after. calls (bus t) device = calls (bus s) device @ before @ Subscribe # after
        \<and> rx = subscriptions (calls (bus s) device @ before))"

lemma subscribed_grows: "subscribed device s rx t \<Longrightarrow> bus_grows t u \<Longrightarrow> subscribed device s rx u"
  unfolding subscribed_def bus_grows_def by (metis append_assoc append_Cons)

lemma subscribed_listening: "subscribed device s rx t \<Longrightarrow> listening device rx t"
  by (auto simp: subscribed_def listening_def subscriptions_def)

lemma hears_sent_since:
  assumes "hears w device rx 0 r t" and "subscribed device s rx t"
  shows "sent_since w device s (fst r) t"
proof -
  obtain before after where c: "calls (bus t) device = calls (bus s) device @ before @ Subscribe # after"
    and rx: "rx = subscriptions (calls (bus s) device @ before)" using assms(2) by (auto simp: subscribed_def)
  have "heard rx (calls (bus t) device) = sends after"
    using c rx heard_from [of "calls (bus s) device @ before" after] by simp
  then have "subseq (fst r) (frames w (sends (before @ Subscribe # after)))"
    using assms(1) by (simp add: hears_def frames_append subseq_drop_many)
  with c show ?thesis unfolding sent_since_def by blast
qed

lemma ok_subscribe:
  assumes "bus_grows s t"
  shows "ok bus_grows (\<lambda>_. True) (subscribed device s) (bus_subscribe device) t"
  unfolding bus_subscribe_def
proof (rule chan.ok_atomic)
  fix u assume "bus_grows t u"
  with assms have "bus_grows s u" by (rule chan.trans)
  then obtain ops where ops: "calls (bus u) device = calls (bus s) device @ ops" unfolding bus_grows_def by blast
  let ?f = "case subscribe device (bus u) of (rx, b) \<Rightarrow> (rx, u\<lparr>bus := b\<rparr>)"
  have f: "?f = (fst (subscribe device (bus u)), u\<lparr>bus := snd (subscribe device (bus u))\<rparr>)" by (simp add: split_beta)
  have "calls (bus (snd ?f)) device = calls (bus s) device @ ops @ Subscribe # []"
    "fst ?f = subscriptions (calls (bus s) device @ ops)"
    unfolding f by (simp_all add: ipb.log_sub ipb.sub_id ops subscriptions_def)
  then have "subscribed device s (fst ?f) (snd ?f)" unfolding subscribed_def by blast
  moreover have "bus_grows u (snd ?f)" unfolding f by (simp add: bus_grows_def ipb.log_sub)
  ultimately show "True \<and> bus_grows u (snd ?f) \<and> (\<forall>v. bus_grows (snd ?f) v \<longrightarrow> True \<longrightarrow> subscribed device s (fst ?f) v)"
    using subscribed_grows by blast
qed

lemma ok_socket_opened: "ok bus_grows (\<lambda>_. True) (subscribed device s) (socket_opened w account device) s"
proof -
  have first: "guar bus_grows (if b then broadcast_presence w account True None else Ret ())" for b
    by (auto intro: guar_intros)
  show ?thesis
    unfolding socket_opened_def
    by (rule chan.ok_bind [OF ok_guar_bus [OF guar_bus_presence(1)]],
        rule chan.ok_bind [OF ok_guar_bus [OF first]], rule ok_subscribe) (rule chan.trans)
qed

lemma ok_ret_sent:
  assumes "sent_since w device s out t"
  shows "ok bus_grows (\<lambda>_. True) (\<lambda>r. sent_since w device s (fst r)) (Ret (out, b)) t"
  using sent_since_grows assms by (auto simp: ok_Ret)

lemma ok_handle_socket:
  assumes law: "broadcast_law w"
  shows "ok bus_grows (\<lambda>_. True) (\<lambda>r. sent_since w device s (fst r)) (handle_socket w parse account device es) s"
  unfolding handle_socket_def
proof (rule chan.ok_bind [OF ok_socket_opened [of device s w account]])
  fix rx t assume t: "subscribed device s rx t"
  show "ok bus_grows (\<lambda>_. True) (\<lambda>r. sent_since w device s (fst r)) (bind (socket_loop w parse account device rx 0 es)
     (\<lambda>(out, left). if left then bind (socket_closed w device) (\<lambda>_. Ret (out, True)) else Ret (out, False))) t"
  proof (rule chan.ok_bind [OF ok_socket_loop [OF law subscribed_listening [OF t]]])
    fix x u assume u: "bus_grows t u" "hears w device rx 0 x u"
    then have sent: "sent_since w device s (fst x) u"
      using hears_sent_since subscribed_grows [OF t u(1)] by blast
    have "ok bus_grows (\<lambda>_. True) (\<lambda>r. sent_since w device s (fst r)) (bind (socket_closed w device) (\<lambda>_. Ret (fst x, True))) u"
      by (rule chan.ok_bind [OF ok_guar_bus [OF guar_bus_presence(3)]])
        (rule ok_ret_sent, rule sent_since_grows [OF sent])
    with ok_ret_sent [OF sent, of False] show "ok bus_grows (\<lambda>_. True) (\<lambda>r. sent_since w device s (fst r))
      (case x of (out, left) \<Rightarrow> if left then bind (socket_closed w device) (\<lambda>_. Ret (out, True)) else Ret (out, False)) u"
      by (simp add: split_beta)
  qed
qed


section \<open>From a send request to a connection\<close>

text \<open>Programs that do not touch the bus.\<close>

definition same_bus :: "sys \<Rightarrow> sys \<Rightarrow> bool" where
  "same_bus s t \<longleftrightarrow> bus t = bus s"

lemma same_bus_run: "guar same_bus p \<Longrightarrow> run p s = (x, t) \<Longrightarrow> bus t = bus s"
  using guar_run [of same_bus p s] by (auto simp: same_bus_def)

lemma quiet_primitives [guar_intros]:
  "guar same_bus (pg w q)" "guar same_bus (new_uuid w)" "guar same_bus (now_utc w)"
  unfolding pg_def new_uuid_def now_utc_def
  by (auto intro!: guar_atomic simp: same_bus_def split: fault.splits prod.splits)

lemma quiet_create [guar_intros]: "guar same_bus (create_conversation w cid lo hi)"
  unfolding create_conversation_def by (intro guar_atomic) (simp add: same_bus_def claim_on_def bus_pg)

lemma quiet_programs [guar_intros]:
  "guar same_bus (auth w q)" "guar same_bus (authed w hs)" "guar same_bus (dm_conversation w a b)"
  "guar same_bus (store_message w cid me dv content rt)" "guar same_bus (index_attachments w cid me m atts)"
  "guar same_bus (envelope_of w ty p)"
  unfolding auth_def authed_def authed_device_def dm_conversation_def store_message_def index_attachments_def
    record_media_def envelope_of_def
  by (auto intro!: guar_intros split: prod.splits option.splits)

lemma envelope_of_run:
  "run (envelope_of w ty p) s = (env, t) \<Longrightarrow> env_type env = ty \<and> env_payload env = p \<and> (\<exists>n. env_ts env = app_now w n)"
  by (auto simp: envelope_of_def run_simps)

text \<open>The tables of accounts, devices and sessions.\<close>

definition auth_tables :: "database \<Rightarrow> account list \<times> device list \<times> session list" where
  "auth_tables d = (accounts d, devices d, sessions d)"

lemma auth_tables_same: "auth_tables d = auth_tables e \<Longrightarrow> auth_inv d = auth_inv e \<and> live_devices d = live_devices e"
  by (simp add: auth_tables_def auth_inv_def live_devices_def fun_eq_iff)

lemma frame_store: "(\<And>d x. f (d\<lparr>conversations := x\<rparr>) = f d) \<Longrightarrow> (\<And>d x. f (d\<lparr>messages := x\<rparr>) = f d) \<Longrightarrow>
    guar (same_table f) (store_message w cid me dv content rt)"
  unfolding store_message_def
  by (intro guar_intros guar_frame_pg) (auto simp: bump_last_seq_def insert_message_def split: option.splits)

lemma send_message_bus:
  assumes w: "no_faults w" and s: "sys_inv s" and r: "run (send_message w hs req) s = (Inr j, t)"
    and a: "fst (run (authed w hs) s) = Inr (me, dv)"
    and b: "b \<in> set (accounts (db s))" "acc_username b = sr_to_username req"
  shows "\<exists>m env. messages (db t) = messages (db s) @ [m] \<and> msg_sender_account_id m = me
    \<and> b64_decode w (sr_ciphertext req) = Some (msg_ciphertext m)
    \<and> env_type env = ''message.new'' \<and> (\<exists>n. env_ts env = app_now w n)
    \<and> env_payload env = message_event w (msg_conversation_id m) me dv m (msg_ciphertext m) (msg_reply_to m)
    \<and> (\<forall>d. sends (calls (bus t) d) = sends (calls (bus s) d) @
         (if (d \<in> live_devices (db s) (acc_id b) \<or> d \<in> live_devices (db s) me)
             \<and> (d \<in> live_devices (db s) me \<longrightarrow> d \<noteq> dv) then [env] else []))"
proof -
  obtain me' dv' s1 s2 s3 target content cid m s4 s5 s6 env where steps:
    "run (authed w hs) s = (Inr (me', dv'), s1)"
    "run (pg w (\<lambda>_. find_account_by_username (sr_to_username req))) s1 = (Inr (Some target), s2)"
    "b64_decode w (sr_ciphertext req) = Some content"
    "run (dm_conversation w me' (acc_id target)) s2 = (Inr cid, s3)"
    "run (store_message w cid me' dv' content (parse_id w (sr_reply_to_message_id req))) s3 = (Inr m, s4)"
    "run (index_attachments w cid me' m (all_attachments req)) s4 = (Inr (), s5)"
    "run (envelope_of w ''message.new'' (message_event w cid me' dv' m content
       (parse_id w (sr_reply_to_message_id req)))) s5 = (env, s6)"
    "run (deliver_message w me' dv' (acc_id target) env) s6 = ((), t)"
    by (rule send_message_runE [OF r])
  have me: "me' = me" "dv' = dv" using a steps(1) by simp_all
  have bus: "bus s6 = bus s"
    using same_bus_run [OF quiet_programs(2) steps(1)] same_bus_run [OF quiet_primitives(1) steps(2)]
      same_bus_run [OF quiet_programs(3) steps(4)] same_bus_run [OF quiet_programs(4) steps(5)]
      same_bus_run [OF quiet_programs(5) steps(6)] same_bus_run [OF quiet_programs(6) steps(7)] by simp
  define f where "f = (\<lambda>d. (messages d, auth_tables d))"
  have f: "f (db s2) = f (db s)" "f (db s3) = f (db s2)" "f (db s6) = f (db s4)" "f (db t) = f (db s6)"
    using frame_run [OF guar_frame_handlers(1) steps(1), of f] frame_run [OF guar_frame_reads steps(2), of f]
      frame_run [OF guar_frame_dm_conversation steps(4), of f] frame_run [OF guar_frame_index steps(6), of f]
      frame_run [OF guar_frame_handlers(2) steps(7), of f] frame_run [OF guar_frame_handlers(3) steps(8), of f]
    by (simp_all add: f_def auth_tables_def)
  have st: "auth_tables (db s4) = auth_tables (db s3)"
    by (rule frame_run [OF frame_store steps(5)]) (simp_all add: auth_tables_def)
  then have at: "auth_tables (db s6) = auth_tables (db s)" using f by (simp add: f_def)
  have inv: "auth_inv (db s)" using s by (simp add: sys_inv_def db_inv_def)
  have "target \<in> set (accounts (db s))" "acc_username target = sr_to_username req"
    using pg_result [OF steps(2), THEN conjunct2] authed_run_db [OF steps(1)]
    by (auto simp: find_account_by_username_def dest!: find_SomeD)
  then have target: "target = b"
    using inv b distinct_key_eq [of acc_username "accounts (db s)" target b] by (simp add: auth_inv_def)
  have deliver: "sends (calls (bus t) d) = sends (calls (bus s) d) @
       (if (d \<in> live_devices (db s) (acc_id b) \<or> d \<in> live_devices (db s) me)
           \<and> (d \<in> live_devices (db s) me \<longrightarrow> d \<noteq> dv) then [env] else [])" for d
    using deliver_message_effect [OF w, of s6 me dv "acc_id b" env d] steps(8) auth_tables_same [OF at] inv bus
    by (simp add: me target)
  have m: "messages (db t) = messages (db s) @ [m]" using store_message_effect [OF steps(5)] f by (simp add: f_def)
  have "message_for cid me dv content (parse_id w (sr_reply_to_message_id req)) m"
    using store_message_effect [OF steps(5)] by (simp add: me)
  then have "msg_sender_account_id m = me" "msg_ciphertext m = content" "msg_conversation_id m = cid"
    "msg_reply_to m = parse_id w (sr_reply_to_message_id req)" by (auto simp: message_for_def new_message_def)
  with m deliver envelope_of_run [OF steps(7)] steps(3) me show ?thesis
    by (intro exI [of _ m] exI [of _ env]) simp
qed

text \<open>\<open>recv\<close> of a receiver that does not lag: the next value is there, so it is received.\<close>

definition broadcast_prompt :: "world \<Rightarrow> bool" where
  "broadcast_prompt w \<longleftrightarrow> (\<forall>cap ops k i. i < length (heard k ops) \<longrightarrow> length (heard k ops) - i \<le> cap \<longrightarrow>
     chan_recv w cap ops k i = Some (Received (heard k ops ! i), Suc i))"

lemma loop_catches_up:
  assumes w: "broadcast_prompt w"
  shows "length (heard rx (calls (bus s) device)) = pos + n \<Longrightarrow> n \<le> capacity (bus s) \<Longrightarrow>
    run (socket_loop w parse account device rx pos (replicate n (BusEvent True))) s
      = ((frames w (drop pos (heard rx (calls (bus s) device))), False), s)"
proof (induction n arbitrary: pos)
  case 0
  then show ?case by (simp add: frames_def map_filter_def)
next
  case (Suc n)
  let ?h = "heard rx (calls (bus s) device)"
  have rec: "chan_recv w (capacity (bus s)) (calls (bus s) device) rx pos = Some (Received (?h ! pos), Suc pos)"
    using w Suc.prems by (simp add: broadcast_prompt_def)
  have "drop pos ?h = [?h ! pos] @ drop (Suc pos) ?h" using Suc.prems by (simp add: Cons_nth_drop_Suc)
  then have fr: "frames w (drop pos ?h) = frames w [?h ! pos] @ frames w (drop (Suc pos) ?h)" by (metis frames_append)
  have "run (socket_loop w parse account device rx (Suc pos) (replicate n (BusEvent True))) s
      = ((frames w (drop (Suc pos) ?h), False), s)" using Suc.prems by (intro Suc.IH) simp_all
  then show ?case unfolding fr
    by (simp add: bus_recv_def look_def run_simps rec split: option.split)
qed

lemma bus_grows_run: "guar bus_grows p \<Longrightarrow> bus_grows s (snd (run p s))"
  by (rule guar_run) (auto intro: chan.refl chan.trans)

lemma socket_opened_run:
  assumes "run (socket_opened w account device) s = (rx, t)"
  shows "db t = db s \<and> listening device rx t \<and> heard rx (calls (bus t) device) = []"
proof -
  let ?first = "\<lambda>b. if b then broadcast_presence w account True None else Ret ()"
  obtain b u v where c: "run (presence_connect device account) s = (b, u)" and f: "run (?first b) u = ((), v)"
    and sub: "run (bus_subscribe device) v = (rx, t)"
    using assms by (auto simp: socket_opened_def elim!: run_bind_resE)
  have "db u = db s" using c by (auto simp: presence_connect_def run_simps split: prod.splits)
  moreover have "db v = db u" using f guar_same_db_run [OF guar_events(3), of w account True None u] by (auto split: if_splits)
  moreover have t: "t = v\<lparr>bus := snd (subscribe device (bus v))\<rparr>" "rx = fst (subscribe device (bus v))"
    using sub by (auto simp: bus_subscribe_def run_simps split: prod.splits)
  ultimately show ?thesis
    by (simp add: listening_def subscriptions_def ipb.log_sub ipb.sub_id heard_fresh)
qed

text \<open>
  (C10) A message reaches the open connection of its recipient. If a device of the recipient opens
  a connection and then a send request of another device succeeds, without faults, the next thing
  the connection sends on is an event that carries the stored message: its id, sequence number,
  conversation, sender and the ciphertext that was sent. Hypotheses: a receiver that does not lag
  gets the next value, and times can be printed.
\<close>

theorem message_reaches_socket:
  assumes w: "no_faults w" and prompt: "broadcast_prompt w" and time: "\<forall>n. rfc3339_format w (app_now w n) \<noteq> None"
    and s: "sys_inv s" and cap: "0 < capacity (bus s)"
    and o: "run (socket_opened w (acc_id b) device) s = (rx, s1)" and live: "device \<in> live_devices (db s) (acc_id b)"
    and a: "fst (run (authed w hs) s1) = Inr (me, dv)" and other: "device \<noteq> dv"
    and b: "b \<in> set (accounts (db s))" "acc_username b = sr_to_username req"
    and r: "run (send_message w hs req) s1 = (Inr j, s2)"
  shows "\<exists>m frame. run (socket_loop w parse (acc_id b) device rx 0 [BusEvent True]) s2 = (([frame], False), s2)
    \<and> messages (db s2) = messages (db s) @ [m] \<and> msg_sender_account_id m = me
    \<and> b64_decode w (sr_ciphertext req) = Some (msg_ciphertext m)
    \<and> jfield ''type'' frame = Some (JStr ''message.new'')
    \<and> jfield ''payload'' frame =
        Some (message_event w (msg_conversation_id m) me dv m (msg_ciphertext m) (msg_reply_to m))"
proof -
  have "safe (socket_opened w (acc_id b) device)" unfolding socket_opened_def by (auto intro!: ok_intros)
  then have inv: "sys_inv s1" by (rule safe_run_inv [OF _ s o])
  note o' = socket_opened_run [OF o]
  then have db: "db s1 = db s" by blast
  have "guar bus_grows (socket_opened w (acc_id b) device)" unfolding socket_opened_def by (auto intro!: guar_intros)
  from bus_grows_run [OF this, of s] o have c1: "capacity (bus s1) = capacity (bus s)" by (simp add: bus_grows_def)
  have b1: "b \<in> set (accounts (db s1))" unfolding db by (rule b(1))
  obtain m env where m: "messages (db s2) = messages (db s1) @ [m]" "msg_sender_account_id m = me"
      "b64_decode w (sr_ciphertext req) = Some (msg_ciphertext m)"
    and env: "env_type env = ''message.new''" "\<exists>n. env_ts env = app_now w n"
      "env_payload env = message_event w (msg_conversation_id m) me dv m (msg_ciphertext m) (msg_reply_to m)"
    and d: "\<forall>d. sends (calls (bus s2) d) = sends (calls (bus s1) d) @
         (if (d \<in> live_devices (db s1) (acc_id b) \<or> d \<in> live_devices (db s1) me)
             \<and> (d \<in> live_devices (db s1) me \<longrightarrow> d \<noteq> dv) then [env] else [])"
    using send_message_bus [OF w inv r a b1 b(2)] by (elim exE conjE) (rule that, (rule exI | assumption)+)
  have g: "bus_grows s1 s2" using bus_grows_run [OF guar_bus_handlers(8) [of w hs req], of s1] r by simp
  then obtain ops where ops: "calls (bus s2) device = calls (bus s1) device @ ops" unfolding bus_grows_def by blast
  have "sends (calls (bus s2) device) = sends (calls (bus s1) device) @ [env]"
    using d [rule_format, of device] live other unfolding db by simp
  then have "sends ops = [env]" unfolding ops by simp
  then have h: "heard rx (calls (bus s2) device) = [env]"
    using o' heard_append [of rx "calls (bus s1) device" ops] unfolding ops by (simp add: listening_def subscriptions_def)
  have "capacity (bus s2) = capacity (bus s1)" using g by (simp add: bus_grows_def)
  then have cap2: "1 \<le> capacity (bus s2)" using c1 cap by simp
  obtain ts where ts: "rfc3339_format w (env_ts env) = Some ts" using time env(2) by (metis not_Some_eq)
  let ?frame = "JObj [(''v'', JInt (uint (env_v env))), (''type'', JStr ''message.new''),
    (''id'', JStr (uuid_str w (env_id env))), (''ts'', JStr ts), (''payload'', env_payload env)]"
  have "frames w (drop 0 [env]) = [?frame]" by (simp add: envelope_json_def env(1) ts)
  then have run: "run (socket_loop w parse (acc_id b) device rx 0 (replicate 1 (BusEvent True))) s2 = (([?frame], False), s2)"
    using loop_catches_up [OF prompt _ cap2, of rx device 0 parse "acc_id b"] unfolding h by (simp only: list.size add_0 One_nat_def)
  have one: "replicate 1 (BusEvent True) = [BusEvent True]" by simp
  have "jfield ''type'' ?frame = Some (JStr ''message.new'')" "jfield ''payload'' ?frame = Some (env_payload env)"
    by simp_all
  with run [unfolded one] m [unfolded db] show ?thesis unfolding env(3) by blast
qed

section \<open>Concrete connections\<close>

lemma demo_prompt: "broadcast_prompt demo_world" and demo_law: "broadcast_law demo_world"
  by (auto simp: broadcast_prompt_def broadcast_law_def demo_recv_def Let_def)

lemmas presence_defs = on_connect_def connected_insert_def online_up_def presence_new_def connected_devices_def
  connected_remove_def online_down_def broadcast_presence_def subscribe_def publish_def sender_def
  bus_default_def bus_new_def

lemma demo_open_then_send:
  "\<exists>rx s1 j s2. run (socket_opened demo_world 2 12) demo_two = (rx, s1)
     \<and> fst (run (authed demo_world demo_al) s1) = Inr (1, 11)
     \<and> run (send_message demo_world demo_al demo_send) s1 = (Inr j, s2)"
  by (simp add: demo_send_def presence_defs prog_defs run_simps)

theorem message_reaches_socket_witness:
  "\<exists>rx s1 j s2 frame. run (socket_opened demo_world 2 12) demo_two = (rx, s1)
     \<and> run (send_message demo_world demo_al demo_send) s1 = (Inr j, s2)
     \<and> fst (run (socket_loop demo_world (\<lambda>_. None) 2 12 rx 0 [BusEvent True]) s2) = ([frame], False)
     \<and> jfield ''type'' frame = Some (JStr ''message.new'')"
proof -
  let ?b = "\<lparr>acc_id = 2, acc_username = ''bo'', acc_password_verifier = ''hunter22'', acc_created_at = 3\<rparr> :: account"
  obtain rx s1 j s2 where r: "run (socket_opened demo_world (acc_id ?b) 12) demo_two = (rx, s1)"
      "fst (run (authed demo_world demo_al) s1) = Inr (1, 11)"
      "run (send_message demo_world demo_al demo_send) s1 = (Inr j, s2)"
    using demo_open_then_send by auto
  have "0 < capacity (bus demo_two)" "12 \<in> live_devices (db demo_two) (acc_id ?b)"
    "?b \<in> set (accounts (db demo_two))" "acc_username ?b = sr_to_username demo_send"
    by (simp_all add: demo_two_def demo_sys_def bus_default_def bus_new_def live_devices_def demo_send_def)
  from message_reaches_socket [OF no_faults_demo demo_prompt _ sys_inv_demo_two this(1) r(1) this(2) r(2) _ this(3,4) r(3),
      of "\<lambda>_. None"] r show ?thesis by auto
qed

text \<open>The other account has a connection open while the message is sent.\<close>

definition demo_rest :: "nat \<Rightarrow> (sys, reply) prog" where
  "demo_rest rx = bind (bind (socket_loop demo_world (\<lambda>_. None) 2 12 rx 0 [BusEvent True])
      (\<lambda>(out, left). if left then bind (socket_closed demo_world 12) (\<lambda>_. Ret (out, True)) else Ret (out, False)))
      (\<lambda>r. Ret (WsReply (Upgraded (fst r) (snd r))))"

lemma demo_socket_task:
  "socket_task demo_world (\<lambda>_. None) 2 12 [BusEvent True] = bind (socket_opened demo_world 2 12) demo_rest"
  by (simp only: socket_task_def handle_socket_def bind_assoc demo_rest_def [abs_def])

lemma demo_socket_runs:
  "\<exists>s rx s1 x s2 fr s3. run (authed_from_token demo_world ''B'') demo_two = (Inr (2, 12), s)
     \<and> run (socket_opened demo_world 2 12) s = (rx, s1)
     \<and> run (router demo_world (\<lambda>_. None) demo_request) s1 = (x, s2)
     \<and> run (demo_rest rx) s2 = (WsReply (Upgraded [fr] False), s3)"
  by (simp add: demo_rest_def demo_request_def demo_send_def presence_defs prog_defs run_simps calls_def demo_recv_def
      envelope_json_def)

lemma demo_socket_pool:
  "\<exists>ps s ps' t fr. pool_reach (serves demo_world (\<lambda>_. None)) ([], demo_two) (ps, s) \<and> 0 < length ps
     \<and> ps ! 0 = socket_task demo_world (\<lambda>_. None) 2 12 [BusEvent True]
     \<and> pool_reach (serves demo_world (\<lambda>_. None)) (ps, s) (ps', t) \<and> ps' ! 0 = Ret (WsReply (Upgraded [fr] False))"
proof -
  let ?adm = "serves demo_world (\<lambda>_. None)" and ?q = "router demo_world (\<lambda>_. None) demo_request"
    and ?p = "router demo_world (\<lambda>_. None) (WebSocket ''B'' [BusEvent True])"
    and ?task = "socket_task demo_world (\<lambda>_. None) 2 12 [BusEvent True]"
  obtain s rx s1 x s2 fr s3 where r: "run (authed_from_token demo_world ''B'') demo_two = (Inr (2, 12), s)"
      "run (socket_opened demo_world 2 12) s = (rx, s1)" "run ?q s1 = (x, s2)"
      "run (demo_rest rx) s2 = (WsReply (Upgraded [fr] False), s3)"
    using demo_socket_runs by blast
  have spawn: "pool_reach ?adm (ps, u) (ps @ [router demo_world (\<lambda>_. None) req], u)" for ps u req
    by (rule pool_reach.step [OF pool_reach.start pool_step.spawn]) (auto simp: serves_def)
  let ?k = "\<lambda>r. case r of Inl _ \<Rightarrow> Ret (WsReply WsUnauthorized)
    | Inr (account, device) \<Rightarrow> socket_task demo_world (\<lambda>_. None) account device [BusEvent True]"
  have "pool_reach ?adm ([?p], demo_two) ([?p][0 := ?k (fst (run (authed_from_token demo_world ''B'') demo_two))],
      snd (run (authed_from_token demo_world ''B'') demo_two))"
    by (rule pool_reach_bind) (simp, simp only: nth_Cons_0 router_socket)
  then have "pool_reach ?adm ([?p], demo_two) ([?task], s)" using r(1) by (simp del: router.simps)
  then have a: "pool_reach ?adm ([], demo_two) ([?task], s)"
    by (rule pool_reach_trans) (rule spawn [of "[]" demo_two, unfolded append_Nil])
  have "pool_reach ?adm ([?task], s) ([demo_rest rx], s1)"
    using pool_reach_bind [of 0 "[?task]" "socket_opened demo_world 2 12" demo_rest ?adm s] r(2) demo_socket_task by simp
  moreover have "pool_reach ?adm ([demo_rest rx], s1) ([demo_rest rx, ?q], s1)" using spawn [of "[demo_rest rx]" s1] by simp
  moreover have "pool_reach ?adm ([demo_rest rx, ?q], s1) ([demo_rest rx, Ret x], s2)"
    using pool_reach_run [of 1 "[demo_rest rx, ?q]" ?q s1 x s2] r(3) by simp
  moreover have "pool_reach ?adm ([demo_rest rx, Ret x], s2) ([Ret (WsReply (Upgraded [fr] False)), Ret x], s3)"
    using pool_reach_run [of 0 "[demo_rest rx, Ret x]" "demo_rest rx" s2 _ s3] r(4) by simp
  ultimately have "pool_reach ?adm ([?task], s) ([Ret (WsReply (Upgraded [fr] False)), Ret x], s3)"
    using pool_reach_trans by blast
  with a show ?thesis by (metis length_greater_0_conv list.distinct(1) nth_Cons_0)
qed


end
