(* ===== verification/Http.thy ===== *)
theory Http
  imports App_Properties
begin

text \<open>
  From an HTTP request to a handler: the route table of \<open>app.rs\<close>, the extractors in the signatures
  of the handlers, and the structs they deserialise. A request is the method, the percent-decoded
  segments of the path, the decoded pairs of the query, headers and body. \<open>axum\<close>, \<open>serde\<close> and
  \<open>tower-http\<close> are outside the repository; what is used of them is what they document: how a
  pattern matches a path, in which order a handler's arguments are extracted, and the status with
  which an extractor refuses. What depends on the text of a body is a parameter (\<open>http_lib\<close>).
\<close>

section \<open>Request bodies\<close>

definition de_attachment_meta :: "json \<Rightarrow> attachment_meta option" where
  "de_attachment_meta v =
     Option.bind (struct_of [''kind'', ''blobId'', ''thumbBlobId'', ''mime'', ''name'', ''url'', ''size'', ''width'',
       ''height''] v) (\<lambda>fs.
     Option.bind (required de_string fs ''kind'') (\<lambda>kind.
     Option.bind (optional de_string fs ''blobId'') (\<lambda>blob.
     Option.bind (optional de_string fs ''thumbBlobId'') (\<lambda>thumb.
     Option.bind (optional de_string fs ''mime'') (\<lambda>mime.
     Option.bind (optional de_string fs ''name'') (\<lambda>name.
     Option.bind (optional de_string fs ''url'') (\<lambda>url.
     Option.bind (optional de_i64 fs ''size'') (\<lambda>size.
     Option.bind (optional de_i64 fs ''width'') (\<lambda>width.
     Option.bind (optional de_i64 fs ''height'') (\<lambda>height.
     Some \<lparr>at_kind = kind, at_blob_id = blob, at_thumb_blob_id = thumb, at_mime = mime, at_name = name,
           at_url = url, at_size = size, at_width = width, at_height = height\<rparr>))))))))))"

definition de_send_req :: "json \<Rightarrow> send_req option" where
  "de_send_req v =
     Option.bind (struct_of [''toUsername'', ''ciphertext'', ''attachment'', ''attachments'', ''replyToMessageId''] v) (\<lambda>fs.
     Option.bind (required de_string fs ''toUsername'') (\<lambda>to.
     Option.bind (required de_string fs ''ciphertext'') (\<lambda>ct.
     Option.bind (optional de_attachment_meta fs ''attachment'') (\<lambda>att.
     Option.bind (optional (de_vec de_attachment_meta) fs ''attachments'') (\<lambda>atts.
     Option.bind (optional de_string fs ''replyToMessageId'') (\<lambda>reply.
     Some \<lparr>sr_to_username = to, sr_ciphertext = ct, sr_attachment = att, sr_attachments = atts,
           sr_reply_to_message_id = reply\<rparr>))))))"

text \<open>\<open>EditReq\<close> has one field, the ciphertext.\<close>

definition de_edit_req :: "json \<Rightarrow> string option" where
  "de_edit_req v = Option.bind (struct_of [''ciphertext''] v) (\<lambda>fs. required de_string fs ''ciphertext'')"

definition de_update_profile :: "json \<Rightarrow> update_profile_req option" where
  "de_update_profile v =
     Option.bind (struct_of [''displayName'', ''bio'', ''avatarBlobId''] v) (\<lambda>fs.
     Option.bind (optional de_string fs ''displayName'') (\<lambda>name.
     Option.bind (optional de_string fs ''bio'') (\<lambda>bio.
     Option.bind (optional de_string fs ''avatarBlobId'') (\<lambda>avatar.
     Some \<lparr>up_display_name = name, up_bio = bio, up_avatar_blob_id = avatar\<rparr>))))"

definition de_inbound :: "json \<Rightarrow> inbound option" where
  "de_inbound v =
     Option.bind (struct_of [''type'', ''to'', ''messageId'', ''emoji'', ''upToSeq'', ''activity'', ''from'', ''callId'',
       ''media'', ''sdp'', ''candidate''] v) (\<lambda>fs.
     Option.bind (required de_string fs ''type'') (\<lambda>ty.
     Option.bind (optional de_string fs ''to'') (\<lambda>to.
     Option.bind (optional de_string fs ''messageId'') (\<lambda>message.
     Option.bind (optional de_string fs ''emoji'') (\<lambda>emoji.
     Option.bind (optional de_i64 fs ''upToSeq'') (\<lambda>up_to.
     Option.bind (optional de_string fs ''activity'') (\<lambda>activity.
     Option.bind (optional de_string fs ''from'') (\<lambda>sender.
     Option.bind (optional de_string fs ''callId'') (\<lambda>call.
     Option.bind (optional de_string fs ''media'') (\<lambda>media.
     Option.bind (optional Some fs ''sdp'') (\<lambda>sdp.
     Option.bind (optional Some fs ''candidate'') (\<lambda>candidate.
     Some \<lparr>in_type = ty, in_to = to, in_message_id = message, in_emoji = emoji, in_up_to_seq = up_to,
           in_activity = activity, in_from = sender, in_call_id = call, in_media = media, in_sdp = sdp,
           in_candidate = candidate\<rparr>))))))))))))"

section \<open>Queries\<close>

text \<open>A struct is read from the pairs of a query; no field may occur twice, others are ignored.\<close>

definition query_of :: "string list \<Rightarrow> (string \<times> string) list \<Rightarrow> (string \<rightharpoonup> string) option" where
  "query_of names q =
     (if distinct (filter (\<lambda>k. k \<in> set names) (map fst q)) then Some (map_of q) else None)"

text \<open>\<open>LookupQuery\<close>, \<open>HistoryQuery\<close>, \<open>ProfileQuery\<close> and \<open>WsQuery\<close> have one mandatory string.\<close>

definition string_query :: "string \<Rightarrow> (string \<times> string) list \<Rightarrow> string option" where
  "string_query k q = Option.bind (query_of [k] q) (\<lambda>fs. fs k)"

text \<open>\<open>DeleteQuery\<close> has one optional string.\<close>

definition delete_query :: "(string \<times> string) list \<Rightarrow> string option option" where
  "delete_query q = Option.bind (query_of [''scope''] q) (\<lambda>fs. Some (fs ''scope''))"

definition i64_field :: "(string \<rightharpoonup> string) \<Rightarrow> string \<Rightarrow> i64 option option" where
  "i64_field fs k = (case fs k of None \<Rightarrow> Some None | Some v \<Rightarrow> map_option Some (parse_i64 v))"

definition de_media_query :: "(string \<times> string) list \<Rightarrow> media_query option" where
  "de_media_query q =
     Option.bind (query_of [''kind'', ''before'', ''limit''] q) (\<lambda>fs.
     Option.bind (i64_field fs ''before'') (\<lambda>before.
     Option.bind (i64_field fs ''limit'') (\<lambda>lim.
     Some \<lparr>mq_kind = fs ''kind'', mq_before = before, mq_limit = lim\<rparr>)))"

section \<open>The route table\<close>

datatype http_method = GET | POST | PUT | PATCH | DELETE | HEAD | OPTIONS | OtherMethod

text \<open>A segment of a pattern: literal, or a parameter such as \<open>{id}\<close>.\<close>

datatype segment = Lit string | Param

datatype endpoint =
    AtHealth | AtWs | AtGetBlob | AtCapabilities | AtRegister | AtLogin | AtRefresh | AtLogout
  | AtListUsers | AtLookupUser | AtListConversations | AtSendMessage | AtHistory | AtEditMessage
  | AtDeleteMessage | AtUploadBlob | AtListMedia | AtGetMyProfile | AtGetProfile | AtUpdateProfile

type_synonym route = "segment list \<times> (http_method \<times> endpoint) list"

definition versioned_routes :: "route list" where
  "versioned_routes =
     [([Lit ''capabilities''], [(GET, AtCapabilities)]),
      ([Lit ''auth'', Lit ''register''], [(POST, AtRegister)]),
      ([Lit ''auth'', Lit ''login''], [(POST, AtLogin)]),
      ([Lit ''auth'', Lit ''refresh''], [(POST, AtRefresh)]),
      ([Lit ''auth'', Lit ''logout''], [(POST, AtLogout)]),
      ([Lit ''users''], [(GET, AtListUsers)]),
      ([Lit ''users'', Lit ''lookup''], [(GET, AtLookupUser)]),
      ([Lit ''conversations''], [(GET, AtListConversations)]),
      ([Lit ''messages''], [(POST, AtSendMessage), (GET, AtHistory)]),
      ([Lit ''messages'', Param], [(PATCH, AtEditMessage), (DELETE, AtDeleteMessage)]),
      ([Lit ''blobs''], [(POST, AtUploadBlob)]),
      ([Lit ''conversations'', Param, Lit ''media''], [(GET, AtListMedia)]),
      ([Lit ''profile'', Lit ''me''], [(GET, AtGetMyProfile)]),
      ([Lit ''profile''], [(GET, AtGetProfile), (PUT, AtUpdateProfile)])]"

definition open_routes :: "route list" where
  "open_routes =
     [([Lit ''health''], [(GET, AtHealth)]),
      ([Lit ''v0'', Lit ''ws''], [(GET, AtWs)]),
      ([Lit ''v0'', Lit ''blobs'', Param], [(GET, AtGetBlob)])]"

text \<open>All routes, with whether the version guard is layered on them.\<close>

definition routes :: "(bool \<times> route) list" where
  "routes = map (Pair False) open_routes
     @ map (\<lambda>(p, ms). (True, Lit ''v0'' # p, ms)) versioned_routes"

text \<open>A parameter captures one segment that is not empty.\<close>

fun match_path :: "segment list \<Rightarrow> string list \<Rightarrow> string list option" where
  "match_path [] [] = Some []"
| "match_path (Lit a # ps) (s # ss) = (if a = s then match_path ps ss else None)"
| "match_path (Param # ps) (s # ss) = (if s = [] then None else map_option ((#) s) (match_path ps ss))"
| "match_path _ _ = None"

definition find_route :: "string list \<Rightarrow> (bool \<times> (http_method \<times> endpoint) list \<times> string list) option" where
  "find_route path =
     (case List.find (\<lambda>(g, p, ms). match_path p path \<noteq> None) routes of
        None \<Rightarrow> None
      | Some (g, p, ms) \<Rightarrow> map_option (\<lambda>caps. (g, ms, caps)) (match_path p path))"

text \<open>A route for \<open>GET\<close> also answers \<open>HEAD\<close>.\<close>

definition method_endpoint :: "http_method \<Rightarrow> (http_method \<times> endpoint) list \<Rightarrow> endpoint option" where
  "method_endpoint m ms = map_of ms (if m = HEAD then GET else m)"

section \<open>Extractors\<close>

record http_request =
  hr_method :: http_method
  hr_path :: "string list"
  hr_query :: "(string \<times> string) list"
  hr_headers :: headers
  hr_body :: bytes
  hr_upgrade :: "nat + sock_event list"

text \<open>
  \<open>json_mime\<close>: whether a value of \<open>Content-Type\<close> is a JSON type; \<open>json_parse\<close>: the document a text
  represents; \<open>json_refusal\<close>: the status for a text that cannot be read as the type wanted (400 or
  422). \<open>hr_upgrade\<close>: whether a WebSocket upgrade is possible, or the status that says why not.
\<close>

record http_lib =
  json_mime :: "string \<Rightarrow> bool"
  json_parse :: "bytes \<Rightarrow> json option"
  json_refusal :: "bytes \<Rightarrow> nat"

definition body_limit :: nat where
  "body_limit = 25 * 1024 * 1024"

definition extract_bytes :: "http_request \<Rightarrow> nat + bytes" where
  "extract_bytes hr = (if length (hr_body hr) > body_limit then Inl 413 else Inr (hr_body hr))"

definition extract_json :: "world \<Rightarrow> http_lib \<Rightarrow> (json \<Rightarrow> 'a option) \<Rightarrow> http_request \<Rightarrow> nat + 'a" where
  "extract_json w l de hr =
     (case Option.bind (map_of (hr_headers hr) ''content-type'') (header_to_str w) of
        None \<Rightarrow> Inl 415
      | Some ct \<Rightarrow>
          if \<not> json_mime l ct then Inl 415
          else case extract_bytes hr of
            Inl st \<Rightarrow> Inl st
          | Inr bs \<Rightarrow> (case Option.bind (json_parse l bs) de of
              None \<Rightarrow> Inl (json_refusal l bs)
            | Some x \<Rightarrow> Inr x))"

definition or_status :: "nat \<Rightarrow> 'a option \<Rightarrow> nat + 'a" where
  "or_status st v = (case v of None \<Rightarrow> Inl st | Some x \<Rightarrow> Inr x)"

definition calling :: "('a \<Rightarrow> call) \<Rightarrow> nat + 'a \<Rightarrow> call" where
  "calling f r = (case r of Inl st \<Rightarrow> Rejected st | Inr x \<Rightarrow> f x)"

text \<open>
  The arguments of a handler behind the version guard, in the order of its signature. The endpoints
  outside the guard have no such call.
\<close>

fun extract_call :: "world \<Rightarrow> http_lib \<Rightarrow> endpoint \<Rightarrow> string list \<Rightarrow> http_request \<Rightarrow> call" where
  "extract_call w l AtCapabilities caps hr = Capabilities"
| "extract_call w l AtRegister caps hr = calling Register (extract_json w l de_register_request hr)"
| "extract_call w l AtLogin caps hr = calling Login (extract_json w l de_login_request hr)"
| "extract_call w l AtRefresh caps hr = calling Refresh (extract_json w l de_refresh_request hr)"
| "extract_call w l AtLogout caps hr = Logout"
| "extract_call w l AtListUsers caps hr = ListUsers"
| "extract_call w l AtLookupUser caps hr =
     calling LookupUser (or_status 400 (string_query ''username'' (hr_query hr)))"
| "extract_call w l AtListConversations caps hr = ListConversations"
| "extract_call w l AtSendMessage caps hr = calling SendMessage (extract_json w l de_send_req hr)"
| "extract_call w l AtHistory caps hr = calling History (or_status 400 (string_query ''with'' (hr_query hr)))"
| "extract_call w l AtEditMessage caps hr =
     calling (EditMessage (hd caps)) (extract_json w l de_edit_req hr)"
| "extract_call w l AtDeleteMessage caps hr =
     calling (DeleteMessage (hd caps)) (or_status 400 (delete_query (hr_query hr)))"
| "extract_call w l AtUploadBlob caps hr = calling UploadBlob (extract_bytes hr)"
| "extract_call w l AtListMedia caps hr =
     (case uuid_parse w (hd caps) of
        None \<Rightarrow> Rejected 400
      | Some i \<Rightarrow> calling (ListMedia i) (or_status 400 (de_media_query (hr_query hr))))"
| "extract_call w l AtGetMyProfile caps hr = GetMyProfile"
| "extract_call w l AtGetProfile caps hr =
     calling GetProfile (or_status 400 (string_query ''username'' (hr_query hr)))"
| "extract_call w l AtUpdateProfile caps hr = calling UpdateProfile (extract_json w l de_update_profile hr)"
| "extract_call w l _ caps hr = Rejected 404"

text \<open>
  The request for the router, or the status with which the framework answers outside the guard.
  The CORS layer answers every \<open>OPTIONS\<close> request; a path that matches no pattern gives 404, a method
  without handler 405, which for the versioned routes the guard precedes.
\<close>

definition resolve :: "world \<Rightarrow> http_lib \<Rightarrow> http_request \<Rightarrow> nat + request" where
  "resolve w l hr =
     (if hr_method hr = OPTIONS then Inl 200
      else case find_route (hr_path hr) of
        None \<Rightarrow> Inl 404
      | Some (guarded, ms, caps) \<Rightarrow>
          if guarded then
            Inr (Versioned (hr_headers hr) (case method_endpoint (hr_method hr) ms of
                None \<Rightarrow> Rejected 405
              | Some ep \<Rightarrow> extract_call w l ep caps hr))
          else
            (case method_endpoint (hr_method hr) ms of
               Some AtHealth \<Rightarrow> Inr Health
             | Some AtWs \<Rightarrow>
                 (case string_query ''token'' (hr_query hr) of
                    None \<Rightarrow> Inl 400
                  | Some token \<Rightarrow>
                      if hr_method hr = HEAD then Inl 405
                      else map_sum id (WebSocket token) (hr_upgrade hr))
             | Some AtGetBlob \<Rightarrow> map_sum id DownloadBlob (or_status 400 (uuid_parse w (hd caps)))
             | _ \<Rightarrow> Inl 405))"

text \<open>The answer to a \<open>HEAD\<close> request has no body.\<close>

fun strip_body :: "reply \<Rightarrow> reply" where
  "strip_body (JsonReply st j) = EmptyReply st"
| "strip_body (BlobReply (BlobContent ct cc bs)) = BlobReply (BlobContent ct cc [])"
| "strip_body r = r"

definition frame_parse :: "http_lib \<Rightarrow> string \<Rightarrow> inbound option" where
  "frame_parse l text = Option.bind (json_parse l (map of_char text)) de_inbound"

definition http :: "world \<Rightarrow> http_lib \<Rightarrow> http_request \<Rightarrow> (sys, reply) prog" where
  "http w l hr =
     (case resolve w l hr of
        Inl st \<Rightarrow> Ret (EmptyReply st)
      | Inr req \<Rightarrow>
          bind (router w (frame_parse l) req) (\<lambda>r. Ret (if hr_method hr = HEAD then strip_body r else r)))"

end
