(* ===== verification/Http_Properties.thy ===== *)
theory Http_Properties
  imports Http
begin

text \<open>
  Properties of the server from the HTTP request on: which path leads to which handler, what the
  version guard covers, and what a request without a session can do.
\<close>

section \<open>Which path leads where\<close>

lemma match_path_Nil [simp]: "match_path [] path = Some caps \<longleftrightarrow> path = [] \<and> caps = []"
  by (cases path) auto

lemma match_path_Lit [simp]:
  "match_path (Lit a # ps) path = Some caps \<longleftrightarrow> (\<exists>ss. path = a # ss \<and> match_path ps ss = Some caps)"
  by (cases path) auto

lemma match_path_Param [simp]:
  "match_path (Param # ps) path = Some caps \<longleftrightarrow>
     (\<exists>s ss cs. path = s # ss \<and> s \<noteq> [] \<and> match_path ps ss = Some cs \<and> caps = s # cs)"
  by (cases path) auto

text \<open>Whether some path matches two patterns.\<close>

fun overlap :: "segment list \<Rightarrow> segment list \<Rightarrow> bool" where
  "overlap [] [] = True"
| "overlap (Lit a # ps) (Lit b # qs) = (a = b \<and> overlap ps qs)"
| "overlap (_ # ps) (_ # qs) = overlap ps qs"
| "overlap _ _ = False"

lemma match_path_tail:
  "match_path (p # ps) (s # ss) = Some c \<Longrightarrow> \<exists>cs. match_path ps ss = Some cs"
  by (cases p) (auto split: if_splits)

lemma overlapI:
  "match_path p path = Some c \<Longrightarrow> match_path q path = Some d \<Longrightarrow> overlap p q"
  by (induction p q arbitrary: path c d rule: overlap.induct) (auto dest!: match_path_tail)

lemma routes_unambiguous:
  assumes "(g, p, ms) \<in> set routes" and "(h, q, ns) \<in> set routes"
    and "match_path p path = Some c" and "match_path q path = Some d"
  shows "(g, p, ms) = (h, q, ns)"
proof -
  have "list_all (\<lambda>(g, p, ms). list_all (\<lambda>(h, q, ns). overlap p q \<longrightarrow> (g, p, ms) = (h, q, ns)) routes) routes"
    by (simp add: routes_def open_routes_def versioned_routes_def)
  then show ?thesis using assms overlapI [OF assms(3,4)] by (fastforce simp: list_all_iff)
qed

lemma find_route_iff:
  "find_route path = Some (g, ms, caps) \<longleftrightarrow> (\<exists>p. (g, p, ms) \<in> set routes \<and> match_path p path = Some caps)"
proof
  assume "find_route path = Some (g, ms, caps)"
  then show "\<exists>p. (g, p, ms) \<in> set routes \<and> match_path p path = Some caps"
    by (auto simp: find_route_def dest!: find_SomeD split: option.splits)
next
  assume "\<exists>p. (g, p, ms) \<in> set routes \<and> match_path p path = Some caps"
  then obtain p where p: "(g, p, ms) \<in> set routes" "match_path p path = Some caps" by blast
  then have "List.find (\<lambda>(g, p, ms). match_path p path \<noteq> None) routes \<noteq> None"
    by (auto simp: find_None_iff)
  then obtain h q ns where q: "List.find (\<lambda>(g, p, ms). match_path p path \<noteq> None) routes = Some (h, q, ns)"
    by auto
  then have "(h, q, ns) \<in> set routes" "match_path q path \<noteq> None" by (auto dest: find_SomeD)
  with routes_unambiguous [OF p(1) _ p(2)] have "(h, q, ns) = (g, p, ms)" by (metis option.exhaust)
  with q p(2) show "find_route path = Some (g, ms, caps)" by (simp add: find_route_def)
qed

lemma method_endpointD: "method_endpoint m ms = Some ep \<Longrightarrow> \<exists>k. (k, ep) \<in> set ms"
  unfolding method_endpoint_def by (blast dest: map_of_SomeD)

fun pattern_of :: "endpoint \<Rightarrow> segment list" where
  "pattern_of AtHealth = [Lit ''health'']"
| "pattern_of AtWs = [Lit ''v0'', Lit ''ws'']"
| "pattern_of AtGetBlob = [Lit ''v0'', Lit ''blobs'', Param]"
| "pattern_of AtCapabilities = [Lit ''v0'', Lit ''capabilities'']"
| "pattern_of AtRegister = [Lit ''v0'', Lit ''auth'', Lit ''register'']"
| "pattern_of AtLogin = [Lit ''v0'', Lit ''auth'', Lit ''login'']"
| "pattern_of AtRefresh = [Lit ''v0'', Lit ''auth'', Lit ''refresh'']"
| "pattern_of AtLogout = [Lit ''v0'', Lit ''auth'', Lit ''logout'']"
| "pattern_of _ = []"

lemma endpoint_pattern:
  assumes "(g, p, ms) \<in> set routes" and "(k, ep) \<in> set ms" and "pattern_of ep \<noteq> []"
  shows "p = pattern_of ep"
  using assms by (auto simp: routes_def open_routes_def versioned_routes_def)

lemma endpoint_path:
  assumes "find_route path = Some (g, ms, caps)" and "method_endpoint m ms = Some ep" and "pattern_of ep \<noteq> []"
  shows "match_path (pattern_of ep) path = Some caps"
proof -
  obtain p k where "(g, p, ms) \<in> set routes" "match_path p path = Some caps" "(k, ep) \<in> set ms"
    using assms(1) method_endpointD [OF assms(2)] unfolding find_route_iff by blast
  with endpoint_pattern [OF _ _ assms(3)] show ?thesis by blast
qed

section \<open>What the framework refuses\<close>

definition refuses :: "http_lib \<Rightarrow> http_request \<Rightarrow> bool" where
  "refuses l hr \<longleftrightarrow> 400 \<le> json_refusal l (hr_body hr) \<and> (\<forall>st. hr_upgrade hr = Inl st \<longrightarrow> 400 \<le> st)"

lemma extract_json_refusal:
  assumes "extract_json w l de hr = Inl st" and "refuses l hr"
  shows "400 \<le> st"
  using assms by (auto simp: extract_json_def extract_bytes_def refuses_def split: option.splits sum.splits if_splits)

text \<open>What a request behind the guard becomes, for the calls that no session protects.\<close>

lemma extract_call_open:
  assumes "refuses l hr"
  shows "extract_call w l ep caps hr = Capabilities \<Longrightarrow> ep = AtCapabilities"
    and "extract_call w l ep caps hr = Logout \<Longrightarrow> ep = AtLogout"
    and "extract_call w l ep caps hr = Register rq \<Longrightarrow> ep = AtRegister"
    and "extract_call w l ep caps hr = Login lq \<Longrightarrow> ep = AtLogin"
    and "extract_call w l ep caps hr = Refresh fq \<Longrightarrow> ep = AtRefresh"
    and "extract_call w l ep caps hr = Rejected st \<Longrightarrow> 400 \<le> st"
  using assms
  by (cases ep; auto simp: calling_def or_status_def extract_bytes_def dest: extract_json_refusal
      split: sum.splits option.splits if_splits)+

lemma map_sum_iffs:
  "map_sum f g x = Inl y \<longleftrightarrow> (\<exists>z. x = Inl z \<and> y = f z)"
  "map_sum f g x = Inr v \<longleftrightarrow> (\<exists>z. x = Inr z \<and> v = g z)"
  by (cases x; auto)+

text \<open>The requests the router gets, with the paths they come from.\<close>

lemma resolve_InrE:
  assumes "resolve w l hr = Inr req"
  obtains (guarded) ms caps where "find_route (hr_path hr) = Some (True, ms, caps)"
      "req = Versioned (hr_headers hr) (case method_endpoint (hr_method hr) ms of
                None \<Rightarrow> Rejected 405 | Some ep \<Rightarrow> extract_call w l ep caps hr)"
  | (health) "req = Health" "hr_path hr = [''health'']"
  | (socket) tok es where "req = WebSocket tok es" "string_query ''token'' (hr_query hr) = Some tok"
  | (blob) i x where "req = DownloadBlob i" "hr_path hr = [''v0'', ''blobs'', x]"
proof -
  obtain g ms caps where r: "find_route (hr_path hr) = Some (g, ms, caps)" and m: "hr_method hr \<noteq> OPTIONS"
    using assms by (auto simp: resolve_def split: if_splits option.splits)
  show thesis
  proof (cases g)
    case True
    with assms r m guarded show thesis by (auto simp: resolve_def)
  next
    case False
    then obtain ep where ep: "method_endpoint (hr_method hr) ms = Some ep" "ep \<in> {AtHealth, AtWs, AtGetBlob}"
      using assms r m by (auto simp: resolve_def split: option.splits endpoint.splits)
    then have "pattern_of ep \<noteq> []" by auto
    from endpoint_path [OF r ep(1) this] ep assms r m False health socket blob show thesis
      by (auto simp: resolve_def map_sum_iffs split: option.splits if_splits)
  qed
qed

text \<open>Behind the guard, a call that no session protects comes from its own path or was refused.\<close>

lemma guarded_call:
  assumes r: "find_route (hr_path hr) = Some (True, ms, caps)" and l: "refuses l hr"
    and c: "c = (case method_endpoint (hr_method hr) ms of
                None \<Rightarrow> Rejected 405 | Some ep \<Rightarrow> extract_call w l ep caps hr)"
  shows "needs_token c \<and> c \<noteq> Logout \<or> (\<exists>st. c = Rejected st \<and> 400 \<le> st)
     \<or> c = Capabilities \<and> hr_path hr = [''v0'', ''capabilities'']
     \<or> c = Logout \<and> hr_path hr = [''v0'', ''auth'', ''logout'']
     \<or> hr_path hr \<in> {[''v0'', ''auth'', ''register''], [''v0'', ''auth'', ''login''], [''v0'', ''auth'', ''refresh'']}"
proof (cases "method_endpoint (hr_method hr) ms")
  case None
  with c show ?thesis by simp
next
  case (Some ep)
  note path = endpoint_path [OF r Some] and open_calls = extract_call_open [OF l, of w ep caps]
  have e: "extract_call w l ep caps hr = c" using c Some by simp
  show ?thesis
    by (cases c) (use path open_calls [unfolded e] in auto)
qed

section \<open>Requests without a valid token\<close>

text \<open>The status of an answer; a successful upgrade is \<open>101\<close>.\<close>

fun reply_status :: "reply \<Rightarrow> nat" where
  "reply_status (JsonReply st j) = st"
| "reply_status (EmptyReply st) = st"
| "reply_status (BlobReply (BlobContent ct cc bs)) = 200"
| "reply_status (BlobReply (BlobStatus st)) = st"
| "reply_status (WsReply (Upgraded out left)) = 101"
| "reply_status (WsReply WsUnauthorized) = 401"

lemma reply_status_strip [simp]: "reply_status (strip_body r) = reply_status r"
  by (cases r rule: strip_body.cases) auto

text \<open>The state but for the count of interactions.\<close>

definition untouched :: "sys \<Rightarrow> sys \<Rightarrow> bool" where
  "untouched s t \<longleftrightarrow> db t = db s \<and> pres t = pres s \<and> bus t = bus s"

lemma untouched_refl [simp]: "untouched s s"
  by (simp add: untouched_def)

lemma run_http:
  "run (http w l hr) s = (case resolve w l hr of
      Inl st \<Rightarrow> (EmptyReply st, s)
    | Inr req \<Rightarrow> (case run (router w (frame_parse l) req) s of
        (r, t) \<Rightarrow> (if hr_method hr = HEAD then strip_body r else r, t)))"
  by (simp add: http_def run_simps split: sum.splits prod.splits)

lemma run_health:
  assumes "no_faults w"
  shows "untouched s (snd (run (health w) s))"
  using assms by (simp add: health_def run_simps ping_def untouched_def advance_def no_faultsD)

lemma run_get_blob:
  assumes "no_faults w"
  shows "untouched s (snd (run (get_blob_handler w i) s))"
  using assms by (simp add: get_blob_handler_def run_simps get_blob_def untouched_def advance_def no_faultsD)

lemma ws_handler_refused:
  assumes w: "no_faults w" and inv: "auth_inv (db s)"
    and none: "\<And>a dv. \<not> token_identifies w (db s) (pg_now w (tick s)) tok a dv"
  shows "run (ws_handler w parse tok es) s = (WsUnauthorized, advance s)"
  using no_live_session [OF inv none] w
  by (simp add: ws_handler_def authed_from_token_def run_simps no_faultsD find_live_session_by_access_hash_def)

lemma resolve_refusal:
  assumes "resolve w l hr = Inl st" and "refuses l hr" and "hr_method hr \<noteq> OPTIONS"
  shows "400 \<le> st"
  using assms by (auto simp: resolve_def or_status_def refuses_def map_sum_iffs split: if_splits option.splits prod.splits
      endpoint.splits sum.splits)

text \<open>
  (C13) No access without a session. Without faults, a request to any path but those of
  registration, login and refresh, whose bearer token and whose query parameter \<open>token\<close> are
  missing or belong to no live session, changes neither the database nor presence nor the bus; and
  it is refused with a status of at least \<open>400\<close> unless it is an \<open>OPTIONS\<close> request, the health check,
  the list of capabilities, a logout, or the download of a blob. (\<open>refuses\<close>: the statuses with
  which the framework refuses bodies and upgrades are errors.)
\<close>

theorem http_without_session:
  assumes w: "no_faults w" and s: "sys_inv s" and l: "refuses l hr"
    and path: "hr_path hr \<notin> {[''v0'', ''auth'', ''register''], [''v0'', ''auth'', ''login''],
      [''v0'', ''auth'', ''refresh'']}"
    and none: "\<forall>tok a dv. bearer_token w (hr_headers hr) = Some tok
        \<or> string_query ''token'' (hr_query hr) = Some tok \<longrightarrow>
      \<not> token_identifies w (db s) (pg_now w (tick s)) tok a dv"
    and r: "run (http w l hr) s = (r, t)"
  shows "db t = db s \<and> pres t = pres s \<and> bus t = bus s
    \<and> (reply_status r < 400 \<longrightarrow> hr_method hr = OPTIONS
        \<or> hr_path hr \<in> {[''health''], [''v0'', ''capabilities''], [''v0'', ''auth'', ''logout'']}
        \<or> (\<exists>x. hr_path hr = [''v0'', ''blobs'', x]))"
proof (cases "resolve w l hr")
  case (Inl st)
  then show ?thesis using r resolve_refusal [OF Inl l] by (auto simp: run_http)
next
  case (Inr req)
  obtain r' where r': "run (router w (frame_parse l) req) s = (r', t)" "reply_status r = reply_status r'"
    using r Inr by (auto simp: run_http split: prod.splits if_splits)
  have inv: "auth_inv (db s)" using s by (simp add: sys_inv_def db_inv_def)
  from Inr show ?thesis
  proof (cases rule: resolve_InrE)
    case (guarded ms caps)
    define c where "c = (case method_endpoint (hr_method hr) ms of
                None \<Rightarrow> Rejected 405 | Some ep \<Rightarrow> extract_call w l ep caps hr)"
    note g = guarded_call [OF guarded(1) l c_def]
    show ?thesis
    proof (cases "needs_token c \<and> declared_version w (hr_headers hr) = Some PROTOCOL_VERSION")
      case True
      have "\<forall>tok a dv. bearer_token w (hr_headers hr) = Some tok \<longrightarrow>
          \<not> token_identifies w (db s) (pg_now w (tick s)) tok a dv" using none by blast
      from no_access_without_session [OF w s conjunct1 [OF True] this]
      show ?thesis using r' True guarded(2) g path
        by (auto simp: c_def [symmetric] require_protocol_version_def unauthorized_def)
    next
      case False
      then show ?thesis using r' guarded(2) g path
        by (auto simp: c_def [symmetric] require_protocol_version_def upgrade_required_def capabilities_reply_def
            split: if_splits)
    qed
  next
    case health
    with r' run_health [OF w, of s] show ?thesis by (simp add: untouched_def)
  next
    case (socket tok es)
    with none have "\<And>a dv. \<not> token_identifies w (db s) (pg_now w (tick s)) tok a dv" by blast
    from ws_handler_refused [OF w inv this] r' socket(1) show ?thesis
      by (auto simp: run_simps advance_def)
  next
    case (blob i x)
    with r' run_get_blob [OF w, of s i] show ?thesis by (auto simp: run_simps untouched_def split: prod.splits)
  qed
qed

definition demo_lib :: http_lib where
  "demo_lib = \<lparr>json_mime = (\<lambda>ct. ct = ''application/json''), json_parse = (\<lambda>_. None), json_refusal = (\<lambda>_. 400)\<rparr>"

definition demo_get :: "string list \<Rightarrow> headers \<Rightarrow> http_request" where
  "demo_get path hs = \<lparr>hr_method = GET, hr_path = path, hr_query = [], hr_headers = hs, hr_body = [], hr_upgrade = Inl 400\<rparr>"

lemma refuses_demo [simp]: "refuses demo_lib (demo_get path hs)"
  by (simp add: refuses_def demo_lib_def demo_get_def)

lemma demo_get_simps [simp]: "hr_method (demo_get path hs) = GET" "hr_path (demo_get path hs) = path"
  "hr_query (demo_get path hs) = []" "hr_headers (demo_get path hs) = hs"
  by (simp_all add: demo_get_def)

theorem http_without_session_witness:
  "\<exists>r t. run (http demo_world demo_lib (demo_get [''v0'', ''users''] [(''trust-protocol-version'', ''0'')])) demo_two = (r, t)
     \<and> db t = db demo_two \<and> 400 \<le> reply_status r"
proof -
  let ?hr = "demo_get [''v0'', ''users''] [(''trust-protocol-version'', ''0'')]"
  obtain r t where r: "run (http demo_world demo_lib ?hr) demo_two = (r, t)" by fastforce
  from http_without_session [OF _ sys_inv_demo_two refuses_demo _ _ r] r show ?thesis
    by (auto simp: bearer_token_def string_query_def query_of_def not_less)
qed

section \<open>The version guard\<close>

definition declares_v0 :: "world \<Rightarrow> headers \<Rightarrow> bool" where
  "declares_v0 w hs \<longleftrightarrow> (\<exists>v h n. map_of hs ''trust-protocol-version'' = Some v \<and> header_to_str w v = Some h
     \<and> (h = replicate (Suc n) CHR ''0'' \<or> h = CHR ''+'' # replicate (Suc n) CHR ''0''))"


lemma demo_routes:
  "([Lit ''capabilities''], [(GET, AtCapabilities)]) \<in> set versioned_routes"
  by (simp add: versioned_routes_def)


end
