(* ===== verification/Unit_Tests.thy ===== *)
theory Unit_Tests
  imports Crypto Delivery_Properties
begin

text \<open>
  The repository's own tests, as executable definitions, and that they pass. A test is the
  conjunction of its assertions; \<open>unwrap\<close> and \<open>expect\<close> of an error make it fail.
\<close>

section \<open>Pure tests\<close>

definition accepts_current_and_rejects_stale :: bool where
  "accepts_current_and_rejects_stale \<longleftrightarrow> decide_commit 3 3 = Accept 4 \<and> decide_commit 5 3 = Conflict 5"

definition negotiation_is_intersection_and_min :: bool where
  "negotiation_is_intersection_and_min \<longleftrightarrow>
     negotiate_capabilities [Messaging, Receipts] [Messaging, Receipts, Mls, Typing] = [Messaging, Receipts]
     \<and> negotiate_version 0 1 = 0"

lemma pure_tests_pass: "accepts_current_and_rejects_stale" "negotiation_is_intersection_and_min"
  by (simp_all add: accepts_current_and_rejects_stale_def decide_commit_def
      negotiation_is_intersection_and_min_def negotiate_capabilities_def negotiate_version_def)

text \<open>
  The golden payloads are files of another repository: the documents they hold, if present.
\<close>

fun json_index :: "string \<Rightarrow> json \<Rightarrow> json" where
  "json_index k (JObj kvs) = (case map_of kvs k of None \<Rightarrow> JNull | Some v \<Rightarrow> v)"
| "json_index k _ = JNull"

definition golden_hello_and_welcome_round_trip :: "world \<Rightarrow> (json \<times> json) option \<Rightarrow> bool" where
  "golden_hello_and_welcome_round_trip w goldens =
     (case goldens of
        None \<Rightarrow> True
      | Some (hello_file, welcome_file) \<Rightarrow>
          (case de_envelope w hello_file of
             None \<Rightarrow> False
           | Some hello_env \<Rightarrow>
               env_type hello_env = ''hello''
             \<and> (case de_hello (env_payload hello_env) of
                  None \<Rightarrow> False
                | Some h \<Rightarrow> hello_v h = PROTOCOL_VERSION)
             \<and> (case de_envelope w welcome_file of
                  None \<Rightarrow> False
                | Some welcome_env \<Rightarrow>
                    (case de_welcome (env_payload welcome_env) of
                       None \<Rightarrow> False
                     | Some f \<Rightarrow>
                         Messaging \<in> set (welcome_capabilities f)
                       \<and> json_index ''maxGroupSize'' (json_index ''limits'' (welcome_json f)) = JInt 512))))"

text \<open>It passes for the frames that say so, however they are wrapped.\<close>

lemma golden_test_passes:
  assumes "de_envelope w a = Some ea" "env_type ea = ''hello''" "env_payload ea = hello_json h" "hello_v h = 0"
    and "de_envelope w b = Some eb" "env_payload eb = welcome_json f" "Messaging \<in> set (welcome_capabilities f)"
    and "max_group_size (welcome_limits f) = 512"
  shows "golden_hello_and_welcome_round_trip w (Some (a, b))"
proof -
  have "json_index ''maxGroupSize'' (json_index ''limits'' (welcome_json f)) = JInt 512"
    using assms(8) by (simp add: welcome_json_def limits_json_def)
  with assms show ?thesis
    by (simp add: golden_hello_and_welcome_round_trip_def hel.de_ser wel.de_ser PROTOCOL_VERSION_def)
qed

section \<open>The bus\<close>

definition sample :: "world \<Rightarrow> string \<Rightarrow> nat \<Rightarrow> (uuid \<times> envelope) option" where
  "sample w device n =
     (case uuid_parse w device of
        None \<Rightarrow> None
      | Some d \<Rightarrow> Some (d, \<lparr>env_v = 0, env_type = ''message.new'', env_id = uuid_at w n, env_ts = 0, env_payload = JObj []\<rparr>))"

definition delivers_to_subscribers :: "world \<Rightarrow> nat \<Rightarrow> bool" where
  "delivers_to_subscribers w n =
     (case sample w ''00000000-0000-4000-8000-000000000001'' n of
        None \<Rightarrow> False
      | Some (device, env) \<Rightarrow>
          (case subscribe device bus_default of
             (rx, b) \<Rightarrow>
               let b' = publish device env b
               in (case chan_recv w (capacity b') (calls b' device) rx 0 of
                     Some (Received got, _) \<Rightarrow> env_id got = env_id env
                   | _ \<Rightarrow> False)))"

lemma delivers_to_subscribers_passes:
  assumes prompt: "broadcast_prompt w" and "uuid_parse w ''00000000-0000-4000-8000-000000000001'' = Some d"
  shows "delivers_to_subscribers w n"
proof -
  define env where "env = \<lparr>env_v = 0, env_type = ''message.new'', env_id = uuid_at w n, env_ts = 0, env_payload = JObj []\<rparr>"
  obtain rx b where b: "subscribe d bus_default = (rx, b)" by fastforce
  have "heard rx (calls (publish d env b) d) = [env]"
    using ipb.heard_after_sub [of d bus_default env] b by simp
  moreover have "capacity (publish d env b) = 256"
    using b by (auto simp: publish_def subscribe_def sender_def bus_default_def bus_new_def split: prod.splits option.splits)
  ultimately have "chan_recv w (capacity (publish d env b)) (calls (publish d env b) d) rx 0 = Some (Received env, 1)"
    using prompt [unfolded broadcast_prompt_def, rule_format, of 0 rx "calls (publish d env b) d"] by simp
  then show ?thesis
    using assms(2) by (simp add: delivers_to_subscribers_def sample_def env_def [symmetric] b Let_def)
qed

section \<open>Tokens and passwords\<close>

definition tokens_are_unique_prefixed_and_hash_stably :: "world \<Rightarrow> (sys, bool) prog" where
  "tokens_are_unique_prefixed_and_hash_stably w =
     bind (new_token w ''tka_'') (\<lambda>a.
     bind (new_token w ''tka_'') (\<lambda>b.
     Ret (prefix ''tka_'' a \<and> prefix ''tka_'' b \<and> a \<noteq> b \<and> hash_token w a = hash_token w a
        \<and> hash_token w a \<noteq> hash_token w b \<and> length (hash_token w a) = 32)))"

definition password_round_trips_and_rejects_wrong :: "world \<Rightarrow> (sys, bool) prog" where
  "password_round_trips_and_rejects_wrong w =
     bind (hash_password w ''correct horse battery'') (\<lambda>r. Ret (case r of
        Inl _ \<Rightarrow> False
      | Inr verifier \<Rightarrow>
          verify_password w verifier ''correct horse battery''
        \<and> \<not> verify_password w verifier ''wrong password''
        \<and> \<not> verify_password w ''not-a-phc-string'' ''anything''))"

lemma token_test_passes:
  assumes "b64url_encode w (random_bytes w (tick s)) \<noteq> b64url_encode w (random_bytes w (Suc (tick s)))"
    and "inj (sha256 w)" and "\<And>t. length (sha256 w t) = 32"
  shows "fst (run (tokens_are_unique_prefixed_and_hash_stably w) s)"
  using assms by (simp add: tokens_are_unique_prefixed_and_hash_stably_def new_token_def fill_bytes_def hash_token_def
      run_simps advance_def inj_eq)

lemma password_test_passes:
  assumes "argon2_hash w (tick s) ''correct horse battery'' = Inr v" and "phc_valid w v"
    and "\<And>p. argon2_verify w v p \<longleftrightarrow> p = ''correct horse battery''"
    and "\<not> phc_valid w ''not-a-phc-string''"
  shows "fst (run (password_round_trips_and_rejects_wrong w) s)"
  using assms by (simp add: password_round_trips_and_rejects_wrong_def hash_password_def verify_password_def run_simps)


section \<open>The integration test of the repository\<close>

text \<open>\<open>crates/storage/tests/auth_repo_it.rs\<close>; \<open>expecting\<close> is \<open>expect\<close>, \<open>asserting\<close> is \<open>assert!\<close>.\<close>

definition expecting :: "(sys, 'e + 'a) prog \<Rightarrow> ('a \<Rightarrow> (sys, bool) prog) \<Rightarrow> (sys, bool) prog" where
  "expecting p k = bind p (\<lambda>r. case r of Inl e \<Rightarrow> Ret False | Inr x \<Rightarrow> k x)"

definition expecting_some :: "(sys, 'e + 'a option) prog \<Rightarrow> ('a \<Rightarrow> (sys, bool) prog) \<Rightarrow> (sys, bool) prog" where
  "expecting_some p k = expecting p (\<lambda>r. case r of None \<Rightarrow> Ret False | Some x \<Rightarrow> k x)"

definition asserting :: "bool \<Rightarrow> (sys, bool) prog \<Rightarrow> (sys, bool) prog" where
  "asserting c k = (if c then k else Ret False)"

definition access_hash_0 :: bytes where "access_hash_0 = map of_char (''access-hash-'' @ replicate 22 CHR ''0'')"
definition access_hash_1 :: bytes where "access_hash_1 = map of_char (''access-hash-'' @ replicate 22 CHR ''1'')"
definition refresh_hash_0 :: bytes where "refresh_hash_0 = map of_char (''refresh-hash-'' @ replicate 21 CHR ''0'')"
definition refresh_hash_1 :: bytes where "refresh_hash_1 = map of_char (''refresh-hash-'' @ replicate 21 CHR ''1'')"

definition account_device_session_lifecycle :: "world \<Rightarrow> (sys, bool) prog" where
  "account_device_session_lifecycle w =
     bind (pg w (\<lambda>_. ping)) (\<lambda>up.
     case up of
       Inl _ \<Rightarrow> Ret True
     | Inr _ \<Rightarrow>
         bind (new_uuid w) (\<lambda>u.
         let username = ''it-user-'' @ uuid_str w u in
         bind (new_uuid w) (\<lambda>aid.
         expecting (pg w (\<lambda>n. create_account (pg_now w n) aid username ''verifier-str'')) (\<lambda>account.
         asserting (acc_username account = username) (
         bind (new_uuid w) (\<lambda>aid2.
         bind (pg w (\<lambda>n. create_account (pg_now w n) aid2 username ''verifier-str'')) (\<lambda>dup.
         asserting (isl dup) (
         expecting_some (pg w (\<lambda>_. find_account_by_username username)) (\<lambda>found.
         asserting (acc_id found = acc_id account) (
         bind (new_uuid w) (\<lambda>did1.
         expecting (pg w (\<lambda>n. create_device (pg_now w n) did1 (acc_id account) ''phone'' (map of_char ''idkey-1''))) (\<lambda>device1.
         bind (new_uuid w) (\<lambda>did2.
         expecting (pg w (\<lambda>n. create_device (pg_now w n) did2 (acc_id account) ''laptop'' (map of_char ''idkey-2''))) (\<lambda>_.
         bind (now_utc w) (\<lambda>now.
         let expires = now + 3600 * 1000000 in
         bind (new_uuid w) (\<lambda>sid.
         expecting (pg w (\<lambda>n. create_session (pg_now w n) sid (dev_id device1) access_hash_0 refresh_hash_0 expires)) (\<lambda>session.
         expecting_some (pg w (\<lambda>n. find_live_session_by_access_hash (pg_now w n) access_hash_0)) (\<lambda>live.
         asserting (ses_id live = ses_id session) (
         expecting (pg w (\<lambda>_. rotate_session (ses_id session) access_hash_1 refresh_hash_1 expires)) (\<lambda>_.
         expecting (pg w (\<lambda>n. find_live_session_by_access_hash (pg_now w n) access_hash_0)) (\<lambda>r0.
         asserting (r0 = None) (
         expecting (pg w (\<lambda>n. find_live_session_by_access_hash (pg_now w n) access_hash_1)) (\<lambda>r1.
         asserting (r1 \<noteq> None) (
         expecting (pg w (\<lambda>n. revoke_session (pg_now w n) (ses_id session))) (\<lambda>_.
         expecting (pg w (\<lambda>n. find_live_session_by_access_hash (pg_now w n) access_hash_1)) (\<lambda>r2.
         Ret (r2 = None)))))))))))))))))))))))))))"

lemmas lifecycle_defs = account_device_session_lifecycle_def expecting_def expecting_some_def asserting_def
  access_hash_0_def access_hash_1_def refresh_hash_0_def refresh_hash_1_def ping_def

text \<open>The test passes on an empty database; run again on the database it leaves, it fails.\<close>

lemma lifecycle_not_repeatable:
  "fst (run (account_device_session_lifecycle demo_world) demo_sys)"
  "\<not> fst (run (account_device_session_lifecycle demo_world)
       (snd (run (account_device_session_lifecycle demo_world) demo_sys)))"
  by (simp_all add: lifecycle_defs prog_defs run_simps table_defs)

end
