(* ===== verification/Spec2Isabelle.thy ===== *)
theory Spec2Isabelle
  imports Crypto Auth_Store Socket_Properties Liveness_Properties Failure_Properties
    Chat_Refinement Delivery_Properties Startup Unit_Tests
begin

text \<open>
  A verification of \<open>trust-server\<close>, the backend of an end-to-end encrypted messenger: an HTTP and
  WebSocket server over Postgres, written in Rust. All paths below are relative to \<open>src/crates\<close>.

  \<^bold>\<open>The program and its model.\<close> A handler is a sequence of SQL statements, clock readings, random
  draws and accesses to two in-memory structures; between any two of them, other requests run. Each
  such interaction is one atomic step of a program of type \<open>(sys, 'a) prog\<close> (theory \<open>Prog\<close>);
  \<open>bind\<close> and \<open>bindE\<close> are sequencing and Rust's question mark. \<open>run\<close> executes a program alone,
  \<open>pool_reach\<close> is the transition system of any number of interleaved programs. The state \<open>sys\<close> is
  \<open>AppState\<close>: the database, presence and the bus, with a counter that numbers the interactions. The
  record \<open>world\<close> holds what comes from outside the repository, as functions of that number where it
  varies: clocks, UUIDs, random bytes, the row order Postgres chooses, hashing, base64, time
  formatting, what a receiver of a broadcast channel gets next, and which statements fail, before or
  after they took effect.

  \<^bold>\<open>Theories.\<close>
  \<^item> \<open>Prelude\<close>: the collections \<open>run_simps\<close>, \<open>ok_intros\<close>, \<open>guar_intros\<close>, \<open>prog_defs\<close> and
    \<open>table_defs\<close>; tables as lists of rows; \<open>str::trim\<close> and integer parsing.
  \<^item> \<open>Prog\<close>: programs, their interleaving, and the locale \<open>rely_guarantee\<close>: what every step keeps
    and respects holds in every state a pool of tasks reaches.
  \<^item> \<open>Crypto\<close> (\<open>crypto/src/lib.rs\<close>): the compare-and-swap on group epochs, on 64-bit words.
  \<^item> \<open>Protocol\<close> (\<open>protocol/src\<close>): wire types, capability and version negotiation.
  \<^item> \<open>Realtime\<close> (\<open>realtime/src/lib.rs\<close>): the bus; the trait \<open>RealtimeBus\<close> is the locale
    \<open>realtime_bus\<close>, interpreted for \<open>InProcessBus\<close>.
  \<^item> \<open>Presence_Tracking\<close> (\<open>server/src/presence.rs\<close>): connected devices and online counters.
  \<^item> \<open>Schema\<close> (\<open>storage/migrations\<close>, \<open>storage/src/models.rs\<close>): the tables, the state and the world.
  \<^item> \<open>Serde\<close> (\<open>protocol/src\<close>): the JSON of the wire types in both directions; the locale \<open>codec\<close> is
    interpreted for each of them.
  \<^item> \<open>Auth_Repo\<close> (\<open>storage/src/auth_repo.rs\<close>), \<open>Db_Queries\<close> (\<open>server/src/db.rs\<close>): one definition per
    SQL statement, with the keys and references Postgres enforces, and the functions made of them.
  \<^item> \<open>Auth_Store\<close> (\<open>storage/src/auth_store.rs\<close>): the trait as a record of operations, both
    backends as values of it; its session contract is the locale \<open>session_store\<close>.
  \<^item> \<open>App_Error\<close> (\<open>server/src/error.rs\<close>): errors, their conversion and rendering.
  \<^item> \<open>Db_Invariant\<close>, \<open>Db_Steps\<close>, \<open>Db_Programs\<close>: the invariant \<open>sys_inv\<close> and the growth \<open>sys_grows\<close>
    of the database (an interpretation of \<open>rely_guarantee\<close>), each statement's proof of them, and
    rules that carry facts such as ``this number is reserved'' across the steps of other tasks.
  \<^item> \<open>Auth_Handlers\<close> (\<open>server/src/auth.rs\<close>), \<open>Media_Handlers\<close> (\<open>media.rs\<close>, \<open>blobs.rs\<close>),
    \<open>Messaging_Handlers\<close> (\<open>messaging.rs\<close>, \<open>profile.rs\<close>), \<open>Ws_Handlers\<close> (\<open>ws.rs\<close>), \<open>App\<close>
    (\<open>app.rs\<close>): the handlers, whole, and the router that calls them.
  \<^item> \<open>Http\<close> (\<open>app.rs\<close> and the argument lists of the handlers): from the HTTP request to the handler,
    that is the route table, the extractors and the request bodies and queries.
  \<^item> \<open>Startup\<close> (\<open>config.rs\<close>, \<open>main.rs\<close>, \<open>storage/src/lib.rs\<close>): the layers of the configuration, the
    steps of \<open>main\<close> with their early returns, and the migration task beside it.
  \<^item> \<open>Unit_Tests\<close>: the tests of the repository, as executable definitions, and when they pass.
  \<^item> \<open>Message_Properties\<close>, \<open>App_Properties\<close>, \<open>Media_Properties\<close> (with the locale \<open>cursor_paging\<close>),
    \<open>Conversation_Properties\<close>, \<open>Socket_Properties\<close>, \<open>Delivery_Properties\<close> (a second interpretation of
    \<open>rely_guarantee\<close>, for the bus), \<open>Liveness_Properties\<close>, \<open>Failure_Properties\<close>, \<open>Http_Properties\<close>
    and this theory: the theorems.
  \<^item> \<open>Chat_Refinement\<close>: the abstract chat \<open>chat_step\<close> the messages implement, the abstraction
    \<open>chat_of\<close>, and the simulation of every step of every handler.

  \<^bold>\<open>What is shown.\<close> For every interleaving of requests and every pattern of failing statements:
  the invariant, one conversation per pair with exactly its two members, unique and bounded sequence
  numbers, that nothing is taken back, and that every step refines an abstract chat in which entries
  are posted, amended and retracted (this theory); and that a connection sends only what was
  published to its device after it subscribed, in that order. For single requests: authentication is
  exact, and an HTTP request without a session changes nothing and gets nothing but what is public;
  the version guard covers exactly the nested routes; registration, login, refresh and logout give
  and take the access they should; sending, history, editing, deleting, hiding, receipts,
  conversation lists, blobs, profiles and the media index do exactly what is documented, except
  where a theorem shows a difference; logins and sends succeed whenever they may, and a message
  that was sent is the next frame of the recipient's open connection; every answer has one of the
  documented shapes; the wire types are read back from their JSON. The server comes up, and answers
  the health check, whether or not its database does. The two auth backends agree on valid inputs.
  Theorems and lemmas show where the code contradicts a comment or loses data: concurrent
  refreshes, deletion by the partner, two sockets of one device, repeated token hashes, error texts,
  albums cut by a page, sequence gaps, attachments recorded after a deletion, routes the version
  guard leaves out, and an integration test that fails when it is run again.

  \<^bold>\<open>Bounds.\<close> Recursion is structural except in \<open>media_pages\<close>, the client that follows cursors, which
  terminates because every page has fewer rows below it; there is no fuel. A socket is given the
  list of the branches its \<open>select!\<close> takes; what the branch of the bus receives is read from the bus
  itself, and a connection whose list ends without a leaving outcome is still open. \<open>main\<close> needs
  six steps to serve or to stop; the migration task runs beside it as often as it is scheduled. \<open>i64\<close> columns are integers with the overflow of the one statement that adds to them
  checked; UUIDs are 128-bit words, versions and epochs 32- and 64-bit words.

  \<^bold>\<open>Not modelled.\<close> Text: \<open>serde_json\<close>'s parser and printer, the parsing of URLs, and what
  \<open>figment\<close>'s providers make of a file or the environment are parameters. What \<open>axum\<close> and
  \<open>tower-http\<close> do by themselves is stated as documented (\<open>Http\<close>); CORS headers and tracing are left
  out, as are TCP, TLS and logging. Which value a lagging receiver gets is a parameter, restricted
  by the hypotheses of the theorems that need it. The execution of migrations and the pool of
  connections belong to \<open>sqlx\<close> (each statement is its own transaction, as in the source). The table
  \<open>key_packages\<close> is used by no code; the signaling crate is empty; deployment files hold no logic.
\<close>

section \<open>The server as a whole\<close>

text \<open>
  (C1) The invariant of the server. Whatever requests arrive, however their steps interleave and
  whichever statements fail, the database keeps its invariant: keys are unique, references point
  to rows, every conversation belongs to one pair of accounts and has no other members, sequence
  numbers lie within the conversation's counter, receipts within the sequence numbers, the entries
  of the media index belong to messages, and deleted messages have no content.
\<close>

theorem server_invariant:
  assumes "sys_inv s" and "pool_reach (serves w parse) ([], s) (ps, t)"
  shows "sys_inv t"
  using server_reach [OF assms] by simp

text \<open>
  (C2) Each pair of accounts has at most one direct conversation, each conversation serves at most
  one pair, and its members are exactly the two accounts of the pair, in every state the server
  reaches.
\<close>

theorem dm_conversations_exact:
  assumes inv: "sys_inv s" and r: "pool_reach (serves w parse) ([], s) (ps, t)"
    and p: "p \<in> set (dm_conversations (db t))" and q: "q \<in> set (dm_conversations (db t))"
  shows "(dm_key p = dm_key q \<longleftrightarrow> p = q) \<and> (dm_conversation_id p = dm_conversation_id q \<longleftrightarrow> p = q)
    \<and> {a. (dm_conversation_id p, a) \<in> mem_key ` set (conversation_members (db t))}
        = {dm_account_lo p, dm_account_hi p}"
proof -
  have t: "conv_inv (db t)" "claim_inv t"
    using server_reach [OF inv r] by (simp_all add: sys_inv_def db_inv_def)
  have key: "p = q" if "dm_key p = dm_key q"
    using t(1) p q that distinct_key_eq [of dm_key "dm_conversations (db t)" p q] by (simp add: conv_inv_def)
  have claim: "dm_claim t (dm_conversation_id p) = Some (dm_key p)"
    "dm_claim t (dm_conversation_id q) = Some (dm_key q)"
    using t(2) p q by (auto simp: claim_inv_def)
  then have "p = q" if "dm_conversation_id p = dm_conversation_id q" using that by (intro key) simp
  then have cid: "p = q \<longleftrightarrow> dm_conversation_id p = dm_conversation_id q" by blast
  have out: "a = dm_account_lo p \<or> a = dm_account_hi p"
    if m: "m \<in> set (conversation_members (db t))" "mem_key m = (dm_conversation_id p, a)" for a m
  proof -
    obtain lo hi where "dm_claim t (mem_conversation_id m) = Some (lo, hi)" "mem_account_id m \<in> {lo, hi}"
      using t(2) m(1) unfolding claim_inv_def by blast
    with m(2) claim(1) show ?thesis by (auto simp: mem_key_def dm_key_def)
  qed
  have "(dm_conversation_id p, dm_account_lo p) \<in> mem_key ` set (conversation_members (db t))"
    "(dm_conversation_id p, dm_account_hi p) \<in> mem_key ` set (conversation_members (db t))"
    using t(1) p unfolding conv_inv_def by blast+
  with out have "{a. (dm_conversation_id p, a) \<in> mem_key ` set (conversation_members (db t))}
      = {dm_account_lo p, dm_account_hi p}" by (auto simp: image_iff) (metis out)+
  with key cid show ?thesis by blast
qed

text \<open>
  (C3) Messages keep their place. In every state the server reaches, no two messages of a
  conversation share a sequence number, every number lies between one and the conversation's
  counter, the sender is a member of the conversation, and a deleted message has no content.
\<close>

theorem messages_well_placed:
  assumes inv: "sys_inv s" and r: "pool_reach (serves w parse) ([], s) (ps, t)"
    and m: "m \<in> set (messages (db t))"
  shows "(\<forall>n \<in> set (messages (db t)). msg_conversation_id n = msg_conversation_id m \<longrightarrow>
            msg_seq n = msg_seq m \<longrightarrow> n = m)
    \<and> (\<exists>c \<in> set (conversations (db t)). conv_id c = msg_conversation_id m
          \<and> 1 \<le> msg_seq m \<and> msg_seq m \<le> conv_last_seq c)
    \<and> (msg_conversation_id m, msg_sender_account_id m) \<in> mem_key ` set (conversation_members (db t))
    \<and> (msg_deleted_at m \<noteq> None \<longrightarrow> msg_ciphertext m = [])"
proof -
  have t: "msg_inv (db t)" using server_reach [OF inv r] by (simp add: sys_inv_def db_inv_def)
  have "n = m" if "n \<in> set (messages (db t))" "msg_conversation_id n = msg_conversation_id m"
      "msg_seq n = msg_seq m" for n
    using t m that distinct_key_eq [of seq_key "messages (db t)" n m] by (simp add: msg_inv_def seq_key_def)
  with t m show ?thesis unfolding msg_inv_def seq_within_def by blast
qed


text \<open>
  (C5) The server implements the abstract chat. In every state the server reaches, the next step,
  whichever task makes it and whether or not its statement fails, leaves the abstract chat as it is
  or adds one entry with a new id, amends the content of one entry, or retracts one entry; and the
  history of a conversation is its abstract chat without the entries the reader has hidden.
\<close>

theorem server_refines_chat:
  assumes inv: "sys_inv s" and r: "pool_reach (serves w parse) ([], s) (ps, t)"
    and step: "pool_step (serves w parse) (ps, t) (ps', u)"
  shows "(chat_of (db u) = chat_of (db t) \<or> chat_step (chat_of (db t)) (chat_of (db u)))
    \<and> (\<exists>ms. history cid me (db t) = (Inr ms, db t) \<and> map entry_of ms =
         filter (\<lambda>e. \<not> list_ex (\<lambda>h. hid_message_id h = en_id e \<and> hid_account_id h = me) (hidden_messages (db t)))
           (chat_of (db t) cid))"
proof -
  have adm: "guar chat_sim p" if "serves w parse p" for p using that sim_router by (auto simp: serves_def)
  have "\<forall>p \<in> set (fst (ps, t)). guar chat_sim p"
    by (rule guar_pool_reach [OF r]) (simp_all add: adm)
  then have "chat_sim t u" using guar_pool_step [OF step, of chat_sim] adm by simp
  moreover have "msg_inv (db t)" using server_reach [OF inv r] by (simp add: sys_inv_def db_inv_def)
  ultimately show ?thesis unfolding history_def history_chat [symmetric] by (simp add: chat_sim_def refines_def)
qed

section \<open>Concrete requests\<close>

text \<open>The other account deletes it.\<close>

definition demo_deletion :: request where
  "demo_deletion = Versioned ((''trust-protocol-version'', ''0'') # demo_bo)
     (DeleteMessage (replicate 1040 CHR ''x'') None)"

theorem server_invariant_witness: "\<exists>t :: sys. db t = db demo_chat \<and> sys_inv t"
  using demo_request_reach server_invariant [OF sys_inv_demo_two] by blast

theorem dm_conversations_exact_witness:
  "\<exists>t :: sys. db t = db demo_chat
     \<and> {a. (1034, a) \<in> mem_key ` set (conversation_members (db t))} = {1, 2}"
proof -
  obtain ps t where r: "pool_reach (serves demo_world (\<lambda>_. None)) ([], demo_two) (ps, t)" and t: "db t = db demo_chat"
    using demo_request_reach by blast
  have "\<lparr>dm_account_lo = 1, dm_account_hi = 2, dm_conversation_id = 1034\<rparr> \<in> set (dm_conversations (db t))"
    unfolding t by (simp add: demo_chat_def)
  from dm_conversations_exact [OF sys_inv_demo_two r this this] t show ?thesis by auto
qed

theorem messages_well_placed_witness:
  "\<exists>(t :: sys) m. db t = db demo_chat \<and> m \<in> set (messages (db t))
     \<and> (msg_conversation_id m, msg_sender_account_id m) \<in> mem_key ` set (conversation_members (db t))"
proof -
  obtain ps t where r: "pool_reach (serves demo_world (\<lambda>_. None)) ([], demo_two) (ps, t)" and t: "db t = db demo_chat"
    using demo_request_reach by blast
  have "hd (messages (db t)) \<in> set (messages (db t))" unfolding t by (simp add: demo_chat_def)
  from messages_well_placed [OF sys_inv_demo_two r this] this t show ?thesis by blast
qed


lemma demo_deletion_step:
  "\<exists>p t u. sched [0, 0] ([router demo_world (\<lambda>_. None) demo_deletion], demo_chat) = ([p], t)
     \<and> prog_result p = None \<and> u = snd (prog_step p t) \<and> db t = db demo_chat \<and> chat_of (db u) 1034 = []"
  by (simp add: demo_deletion_def demo_chat_def prog_defs atomic_def bindE_def map_err_def ok_or_def auth_def dbq_def pg_def chat_of_def live_in_def)


theorem server_refines_chat_witness:
  "\<exists>c. chat_step (chat_of (db demo_chat)) c \<and> map en_id (chat_of (db demo_chat) 1034) = [1040] \<and> c 1034 = []"
proof -
  let ?p = "router demo_world (\<lambda>_. None) demo_deletion" and ?adm = "serves demo_world (\<lambda>_. None)"
  obtain p t where p: "sched [0, 0] ([?p], demo_chat) = ([p], t)" "prog_result p = None"
    and t: "db t = db demo_chat" "chat_of (db (snd (prog_step p t))) 1034 = []"
    using demo_deletion_step by blast
  have "pool_reach ?adm ([], demo_chat) ([] @ [?p], demo_chat)"
    by (rule pool_reach.step [OF pool_reach.start pool_step.spawn]) (auto simp: serves_def)
  then have r: "pool_reach ?adm ([], demo_chat) ([p], t)"
    using pool_reach_trans sched_reach [of ?adm "([?p], demo_chat)" "[0, 0]"] p(1) by (metis append_Nil)
  have "pool_step ?adm ([p], t) ([p][0 := fst (prog_step p t)], snd (prog_step p t))"
    using pool_step_sched [of 0 "[p]" ?adm t] p(2) by simp
  from server_refines_chat [OF sys_inv_demo_chat r this]
  have "chat_of (db (snd (prog_step p t))) = chat_of (db demo_chat)
      \<or> chat_step (chat_of (db demo_chat)) (chat_of (db (snd (prog_step p t))))" by (simp only: t(1))
  moreover have c: "map en_id (chat_of (db demo_chat) 1034) = [1040]"
    by (simp add: demo_chat_def chat_of_def live_in_def entry_of_def)
  ultimately show ?thesis using t(2) by (metis list.distinct(1) list.map_disc_iff)
qed

end
